theory Spec2Isabelle
  imports Complex_Main "HOL-Library.Char_ord" "HOL-Library.List_Lexorder" "HOL-Library.Multiset"
begin

section \<open>Results, errors and arrays\<close>

text \<open>
  The development embeds \<^verbatim>\<open>src/ffevaluation/ffevaluate.py\<close>. Floating point numbers are
  modelled as reals (exact arithmetic); the NaN sentinel that \<^verbatim>\<open>nestedListToArray\<close> pads
  with is \<open>None\<close> in a \<open>real option\<close>. Every exception of the source is a value:
  \<^item> \<open>ZeroDivisionError\<close>: a scalar division by zero inside a jitted function (numba's
    default error model raises as CPython does);
  \<^item> \<open>KeyError\<close>, \<open>IndexError\<close>, \<open>RuntimeError\<close>, \<open>ValueError\<close>: as raised by the Python code;
  \<^item> \<open>TypingError\<close>: numba has no compiled kernel for arrays of another dimension;
  \<^item> \<open>NotANumber\<close>: the code does not raise here, it goes on with a NaN or an infinity
    (array division by zero, square root of a negative number, arithmetic on a NaN
    sentinel). The reals have no such value, so the model stops with this result.
  A leading underscore of a Python name is dropped (\<^verbatim>\<open>_ispaired\<close> is \<open>ispaired\<close>).
\<close>

datatype error =
  ZeroDivisionError | KeyError | IndexError | RuntimeError | ValueError | TypingError | NotANumber

definition bindE :: "error + 'a \<Rightarrow> ('a \<Rightarrow> error + 'b) \<Rightarrow> error + 'b" where
  "bindE m k = (case m of Inl e \<Rightarrow> Inl e | Inr x \<Rightarrow> k x)"

definition divE :: "real \<Rightarrow> real \<Rightarrow> error + real" where
  "divE x y = (if y = 0 then Inl ZeroDivisionError else Inr (x / y))"

definition num :: "real option \<Rightarrow> error + real" where
  "num x = (case x of None \<Rightarrow> Inl NotANumber | Some v \<Rightarrow> Inr v)"

definition sqrtE :: "real \<Rightarrow> error + real" where
  "sqrtE x = (if x < 0 then Inl NotANumber else Inr (sqrt x))"

fun foldE :: "('a \<Rightarrow> 's \<Rightarrow> error + 's) \<Rightarrow> 'a list \<Rightarrow> 's \<Rightarrow> error + 's" where
  "foldE f [] s = Inr s"
| "foldE f (x # xs) s = bindE (f x s) (foldE f xs)"

text \<open>A numpy array: its shape and its items, addressed by the list of indexes.\<close>

record 'a ndarray =
  shape :: "nat list"
  item :: "nat list \<Rightarrow> 'a"

definition zeros :: "nat list \<Rightarrow> real ndarray" where
  "zeros shp = \<lparr>shape = shp, item = (\<lambda>_. 0)\<rparr>"

definition add_at :: "real ndarray \<Rightarrow> nat list \<Rightarrow> real \<Rightarrow> real ndarray" where
  "add_at a idx v = a\<lparr>item := (item a)(idx := item a idx + v)\<rparr>"

text \<open>A row of a two-dimensional array, as the list of its items.\<close>

definition row :: "'a ndarray \<Rightarrow> nat \<Rightarrow> 'a list" where
  "row a i = map (\<lambda>c. item a [i, c]) [0..<shape a ! 1]"

section \<open>Sentinel-terminated row scans\<close>

text \<open>
  \<^verbatim>\<open>_ispaired\<close>, \<^verbatim>\<open>_getSigmaEpsilon\<close>, \<^verbatim>\<open>_evaluate_harmonic_bonds\<close> and \<^verbatim>\<open>_evaluate_elec\<close>
  all run the same loop over the columns \<open>e\<close> of row \<open>i\<close>: stop at the sentinel \<open>-1\<close>,
  stop with the column when the entry is \<open>j\<close>.
\<close>

fun find_col :: "int ndarray \<Rightarrow> nat \<Rightarrow> nat \<Rightarrow> nat list \<Rightarrow> nat option" where
  "find_col a i j [] = None"
| "find_col a i j (e # es) =
     (if item a [i, e] = - 1 then None
      else if item a [i, e] = int j then Some e
      else find_col a i j es)"

definition ispaired :: "int ndarray \<Rightarrow> nat \<Rightarrow> nat \<Rightarrow> bool" where
  "ispaired excl i j =
     (let nexcl = shape excl ! 1
      in find_col excl i j [0..<nexcl] \<noteq> None)"

section \<open>Pair kernels\<close>

definition evaluate_elec ::
  "nat \<Rightarrow> nat \<Rightarrow> real ndarray \<Rightarrow> int ndarray \<Rightarrow> real option ndarray \<Rightarrow> real \<Rightarrow> real \<Rightarrow>
   bool \<Rightarrow> real \<Rightarrow> real \<Rightarrow> error + real \<times> real" where
  "evaluate_elec i j charge e14a e14v ELEC_FACTOR dist_ij rfa solventDielectric cutoff =
     (let nelec = shape e14a ! 1;
          scale = (case find_col e14a i j [0..<nelec] of
                     None \<Rightarrow> Some 1
                   | Some e \<Rightarrow> item e14v [i, e])
      in if rfa then
           (let denom = (2 * solventDielectric) + 1 in
            bindE (divE 1 (cutoff ^ 3)) (\<lambda>c3.
            bindE (divE (c3 * (solventDielectric - 1)) denom) (\<lambda>krf.
            bindE (divE 1 cutoff) (\<lambda>c1.
            bindE (divE (c1 * (3 * solventDielectric)) denom) (\<lambda>crf.
            bindE (num scale) (\<lambda>scale.
            bindE (divE (ELEC_FACTOR * item charge [i] * item charge [j]) scale) (\<lambda>common.
            let dist2 = dist_ij ^ 2 in
            bindE (divE 1 dist_ij) (\<lambda>rinv.
            let pot = common * (rinv + krf * dist2 - crf) in
            bindE (divE 1 dist2) (\<lambda>rinv2.
            let force = common * (2 * krf * dist_ij - rinv2) in
            Inr (pot, force))))))))))
         else
           bindE (divE (ELEC_FACTOR * item charge [i] * item charge [j]) dist_ij) (\<lambda>q.
           bindE (num scale) (\<lambda>scale.
           bindE (divE q scale) (\<lambda>pot.
           bindE (divE (- pot) dist_ij) (\<lambda>force.
           Inr (pot, force))))))"

fun find_nbfix :: "real ndarray \<Rightarrow> nat \<Rightarrow> nat \<Rightarrow> nat list \<Rightarrow> nat option" where
  "find_nbfix nbfix it jt [] = None"
| "find_nbfix nbfix it jt (k # ks) =
     (if (item nbfix [k, 0] = real it \<and> item nbfix [k, 1] = real jt) \<or>
         (item nbfix [k, 0] = real jt \<and> item nbfix [k, 1] = real it)
      then Some k
      else find_nbfix nbfix it jt ks)"

text \<open>\<open>idx_nbfix\<close> is \<open>None\<close> where the source keeps \<open>-1\<close>.\<close>

definition getSigmaEpsilon ::
  "nat \<Rightarrow> nat \<Rightarrow> nat \<Rightarrow> nat \<Rightarrow> real ndarray \<Rightarrow> real ndarray \<Rightarrow> real ndarray \<Rightarrow> real ndarray \<Rightarrow>
   real ndarray \<Rightarrow> int ndarray \<Rightarrow> real option ndarray \<Rightarrow>
   error + real \<times> real \<times> real \<times> real \<times> real option" where
  "getSigmaEpsilon i j it jt nbfix sigma sigma14 epsilon epsilon14 s14a s14v =
     (let n14 = shape s14a ! 1;
          idx_nbfix = find_nbfix nbfix it jt [0..<shape nbfix ! 0];
          (found14, scale) = (case find_col s14a i j [0..<n14] of
                                None \<Rightarrow> (False, Some 1)
                              | Some e \<Rightarrow> (True, item s14v [i, e]))
      in bindE
           (case idx_nbfix of
              Some k \<Rightarrow>
                Inr (if found14 then (item nbfix [k, 4], item nbfix [k, 5])
                     else (item nbfix [k, 2], item nbfix [k, 3]))
            | None \<Rightarrow>
                (let sigmai = (if found14 then item sigma14 [it] else item sigma [it]);
                     sigmaj = (if found14 then item sigma14 [jt] else item sigma [jt]);
                     epsiloni = (if found14 then item epsilon14 [it] else item epsilon [it]);
                     epsilonj = (if found14 then item epsilon14 [jt] else item epsilon [jt]);
                     sig = 0.5 * (sigmai + sigmaj)
                 in bindE (sqrtE (epsiloni * epsilonj)) (\<lambda>eps. Inr (eps, sig))))
           (\<lambda>(eps, sig).
              let s2 = sig * sig;
                  s6 = s2 * s2 * s2;
                  s12 = s6 * s6;
                  A = eps * 4 * s12;
                  B = eps * 4 * s6
              in Inr (sig, eps, A, B, scale)))"

definition evaluate_lj ::
  "nat \<Rightarrow> nat \<Rightarrow> nat ndarray \<Rightarrow> real ndarray \<Rightarrow> real ndarray \<Rightarrow> real ndarray \<Rightarrow> real ndarray \<Rightarrow>
   real ndarray \<Rightarrow> int ndarray \<Rightarrow> real option ndarray \<Rightarrow> real \<Rightarrow> error + real \<times> real" where
  "evaluate_lj i j typeint nbfix sigma sigma14 epsilon epsilon14 s14a s14v dist_ij =
     bindE (getSigmaEpsilon i j (item typeint [i]) (item typeint [j])
              nbfix sigma sigma14 epsilon epsilon14 s14a s14v) (\<lambda>(_, _, A, B, scale).
     bindE (divE 1 dist_ij) (\<lambda>rinv1.
     let rinv2 = rinv1 * rinv1;
         rinv6 = rinv2 * rinv2 * rinv2;
         rinv12 = rinv6 * rinv6 in
     bindE (num scale) (\<lambda>scale.
     bindE (divE ((A * rinv12) - (B * rinv6)) scale) (\<lambda>pot.
     bindE (divE ((- 12 * A * rinv12 + 6 * B * rinv6) * rinv1) scale) (\<lambda>force.
     Inr (pot, force))))))"

definition evaluate_harmonic_bonds ::
  "nat \<Rightarrow> nat \<Rightarrow> int ndarray \<Rightarrow> real option ndarray \<Rightarrow> real \<Rightarrow> error + real \<times> real" where
  "evaluate_harmonic_bonds i j bonda bondv dist_ij =
     (let nbonds = shape bonda ! 1
      in case find_col bonda i j [0..<nbonds] of
           None \<Rightarrow> Inr (0, 0)
         | Some col \<Rightarrow>
             bindE (num (item bondv [i, col * 2 + 0])) (\<lambda>k0.
             bindE (num (item bondv [i, col * 2 + 1])) (\<lambda>d0.
             let x = dist_ij - d0;
                 pot = k0 * (x ^ 2);
                 force = 2 * k0 * x
             in Inr (pot, force))))"

section \<open>The helpers of \<^verbatim>\<open>ffevaluation.numbautil\<close>\<close>

text \<open>
  \<^verbatim>\<open>numbautil\<close> is imported by the source and is not part of it. The wrapping functions
  and \<^verbatim>\<open>dihedralAngleFull\<close> are parameters of the model, so every theorem holds for whatever
  they compute; \<^verbatim>\<open>dihedralAngleFull\<close> may fail. Small vectors and matrices (a position
  block, a box column, a force block) are functions of their indexes.
\<close>

type_synonym vec = "nat \<Rightarrow> real"
type_synonym mat = "nat \<Rightarrow> nat \<Rightarrow> real"

record numbautil =
  wrapDistance :: "real \<Rightarrow> real \<Rightarrow> real"
  wrapBondedDistance :: "real \<Rightarrow> real \<Rightarrow> real"
  dihedralAngleFull :: "mat \<Rightarrow> vec \<Rightarrow> error + real \<times> vec \<times> vec \<times> vec"

text \<open>Modelled from the spec: \<^verbatim>\<open>numbautil.dot\<close>, the scalar product of two 3-vectors.\<close>

definition dot :: "vec \<Rightarrow> vec \<Rightarrow> real" where
  "dot a b = a 0 * b 0 + a 1 * b 1 + a 2 * b 2"

text \<open>Modelled from the spec: \<^verbatim>\<open>numbautil.cross\<close>, the cross product of two 3-vectors.\<close>

definition cross :: "vec \<Rightarrow> vec \<Rightarrow> vec" where
  "cross a b =
     (\<lambda>k. if k = 0 then a 1 * b 2 - a 2 * b 1
          else if k = 1 then a 2 * b 0 - a 0 * b 2
          else a 0 * b 1 - a 1 * b 0)"

section \<open>Angle and torsion kernels\<close>

text \<open>
  \<open>sqrt\<close> is only applied to sums of squares and, after the clamp, to \<open>1 - cos_theta\<^sup>2\<close>,
  which are not negative.
\<close>

definition evaluate_angles :: "numbautil \<Rightarrow> mat \<Rightarrow> real list \<Rightarrow> vec \<Rightarrow> error + real \<times> mat" where
  "evaluate_angles nu pos angle_params box =
     (let k0 = angle_params ! 0;
          theta0 = angle_params ! 1;
          r23 = (\<lambda>i. wrapBondedDistance nu (pos 2 i - pos 1 i) (box i));
          r21 = (\<lambda>i. wrapBondedDistance nu (pos 0 i - pos 1 i) (box i));
          dotprod = 0 + r23 0 * r21 0 + r23 1 * r21 1 + r23 2 * r21 2;
          norm23 = 0 + r23 0 * r23 0 + r23 1 * r23 1 + r23 2 * r23 2;
          norm21 = 0 + r21 0 * r21 0 + r21 1 * r21 1 + r21 2 * r21 2
      in bindE (divE 1 (sqrt norm23)) (\<lambda>norm23inv.
         bindE (divE 1 (sqrt norm21)) (\<lambda>norm21inv.
         let c0 = dotprod * norm21inv * norm23inv;
             c1 = (if c0 < - 1 then - 1 else c0);
             cos_theta = (if c1 > 1 then 1 else c1);
             theta = arccos cos_theta;
             delta_theta = theta - theta0;
             pot = k0 * delta_theta * delta_theta;
             sin_theta = sqrt (1 - cos_theta * cos_theta);
             coef = (if sin_theta \<noteq> 0 then - 2 * k0 * delta_theta / sin_theta else 0);
             force0 = (\<lambda>i. coef * (cos_theta * r21 i * norm21inv - r23 i * norm23inv) * norm21inv);
             force2 = (\<lambda>i. coef * (cos_theta * r23 i * norm23inv - r21 i * norm21inv) * norm23inv);
             force = (\<lambda>a i. if a = 0 then force0 i
                             else if a = 2 then force2 i
                             else if a = 1 then - (force0 i + force2 i)
                             else 0)
         in Inr (pot, force))))"

text \<open>The non-periodic branch's \<^verbatim>\<open>if diff < -pi: ... elif diff > pi: ...\<close>.\<close>

definition wrap_diff :: "real \<Rightarrow> real" where
  "wrap_diff diff =
     (if diff < - pi then diff + 2 * pi
      else if diff > pi then diff - 2 * pi
      else diff)"

text \<open>
  One pass of the loop over the components of a torsion: the state is \<open>(pot, coef)\<close>.
  Only entries before the first NaN are read, so \<open>the\<close> is applied to \<open>Some\<close> values.
\<close>

definition torsion_term :: "real option list \<Rightarrow> real \<Rightarrow> nat \<Rightarrow> real \<times> real \<Rightarrow> real \<times> real" where
  "torsion_term torsionparam phi i = (\<lambda>(pot, coef).
     let k0 = the (torsionparam ! (i * 3 + 0));
         phi0 = the (torsionparam ! (i * 3 + 1));
         per = the (torsionparam ! (i * 3 + 2))
     in if per > 0 then
          (pot + k0 * (1 + cos (per * phi - phi0)),
           coef + - per * k0 * sin (per * phi - phi0))
        else
          (let diff = wrap_diff (phi - phi0)
           in (pot + k0 * diff ^ 2, coef + 2 * k0 * diff)))"

text \<open>
  \<open>ntorsions\<close>: a third of the index of the first NaN, or of the length when there is
  none (\<^verbatim>\<open>int(i / 3)\<close> rounds down).
\<close>

definition evaluate_torsion ::
  "numbautil \<Rightarrow> mat \<Rightarrow> real option list \<Rightarrow> vec \<Rightarrow> error + real \<times> mat" where
  "evaluate_torsion nu pos torsionparam box =
     (let ntorsions = length (takeWhile (\<lambda>x. x \<noteq> None) torsionparam) div 3
      in bindE (dihedralAngleFull nu pos box) (\<lambda>(phi, r12, r23, r34).
         let (pot, coef) = fold (torsion_term torsionparam phi) [0..<ntorsions] (0, 0);
             dEdTheta = coef;
             cross1 = cross r12 r23;
             cross2 = cross r23 r34;
             norm2Delta2 = dot r23 r23;
             normDelta2 = sqrt norm2Delta2;
             normCross1 = dot cross1 cross1;
             normCross2 = dot cross2 cross2;
             normBC = normDelta2 in
         bindE (divE (- dEdTheta * normBC) normCross1) (\<lambda>ff0.
         bindE (divE (dEdTheta * normBC) normCross2) (\<lambda>ff3.
         bindE (divE (dot r12 r23) norm2Delta2) (\<lambda>ff1.
         bindE (divE (dot r34 r23) norm2Delta2) (\<lambda>ff2.
         let force1 = (\<lambda>k. ff0 * cross1 k);
             force4 = (\<lambda>k. ff3 * cross2 k);
             s = (\<lambda>k. ff1 * force1 k - ff2 * force4 k);
             force = (\<lambda>d k. if d = 0 then 0 - force1 k
                             else if d = 1 then 0 + (force1 k + s k)
                             else if d = 2 then 0 + (force4 k - s k)
                             else if d = 3 then 0 - force4 k
                             else 0)
         in Inr (pot, force)))))))"

section \<open>Between-sets membership\<close>

text \<open>The two loops of \<^verbatim>\<open>_insets\<close>; the state is \<open>(ifound, jfound)\<close>.\<close>

fun scan_set1 :: "nat list \<Rightarrow> nat \<Rightarrow> nat \<Rightarrow> nat \<times> nat \<Rightarrow> nat \<times> nat" where
  "scan_set1 [] i j fj = fj"
| "scan_set1 (x # xs) i j (ifound, jfound) =
     (if x = i \<and> ifound = 0 then (1, jfound)
      else if x = j then (ifound, 1)
      else scan_set1 xs i j (ifound, jfound))"

fun scan_set2 :: "nat list \<Rightarrow> nat \<Rightarrow> nat \<Rightarrow> nat \<times> nat \<Rightarrow> nat \<times> nat" where
  "scan_set2 [] i j fj = fj"
| "scan_set2 (x # xs) i j (ifound, jfound) =
     (if x = i then (2, jfound)
      else if x = j then (ifound, 2)
      else scan_set2 xs i j (ifound, jfound))"

definition insets :: "nat \<Rightarrow> nat \<Rightarrow> nat list \<Rightarrow> nat list \<Rightarrow> bool" where
  "insets i j set1 set2 =
     (let (set1, set2) = (if length set2 < length set1 then (set2, set1) else (set1, set2));
          (ifound, jfound) = scan_set1 set1 i j (0, 0)
      in if ifound = 0 \<and> jfound = 0 then False
         else
           (let (ifound, jfound) = scan_set2 set2 i j (ifound, jfound)
            in if ifound \<noteq> 0 \<and> jfound \<noteq> 0 then (if ifound \<noteq> jfound then True else False)
               else False))"

section \<open>The evaluator\<close>

text \<open>
  The tuple that \<^verbatim>\<open>init\<close> returns, and the arguments that \<^verbatim>\<open>FFEvaluate.__init__\<close> stores in
  \<^verbatim>\<open>self._args\<close>: that tuple and five more.
\<close>

record init_result =
  typeint :: "nat ndarray"
  excl :: "int ndarray"
  nbfix :: "real ndarray"
  sigma :: "real ndarray"
  sigma14 :: "real ndarray"
  epsilon :: "real ndarray"
  epsilon14 :: "real ndarray"
  s14a :: "int ndarray"
  e14a :: "int ndarray"
  s14v :: "real option ndarray"
  e14v :: "real option ndarray"
  bonda :: "int ndarray"
  bondv :: "real option ndarray"
  ELEC_FACTOR :: real
  charge :: "real ndarray"
  angles :: "nat ndarray"
  angle_params :: "real ndarray"
  dihedrals :: "nat ndarray"
  dihedral_params :: "real option ndarray"
  impropers :: "nat ndarray"
  improper_params :: "real option ndarray"

record ffargs = init_result +
  set1 :: "nat list"
  set2 :: "nat list"
  cutoff :: real
  rfa :: bool
  solventDielectric :: real

record outputs =
  energies :: "real ndarray"
  forces :: "real ndarray"
  atmnrg :: "real ndarray"

definition usersets :: "ffargs \<Rightarrow> bool" where
  "usersets a = ((length (set1 a) > 0) \<or> (length (set2 a) > 0))"

text \<open>The body of the loop over \<open>j\<close>, for frame \<open>f\<close> and atoms \<open>i < j\<close>.\<close>

definition pair_body ::
  "numbautil \<Rightarrow> real ndarray \<Rightarrow> real ndarray \<Rightarrow> ffargs \<Rightarrow> nat \<Rightarrow> nat \<Rightarrow> nat \<Rightarrow> outputs \<Rightarrow>
   error + outputs" where
  "pair_body nu coords box a f i j st =
     (let isbonded = ispaired (bonda a) i j;
          isexcluded = ispaired (excl a) i j;
          insets_ij = insets i j (set1 a) (set2 a)
      in if usersets a \<and> \<not> insets_ij then Inr st
         else if isexcluded \<and> \<not> isbonded then Inr st
         else
           (let direction_vec =
                  (\<lambda>k. wrapDistance nu (item coords [i, k, f] - item coords [j, k, f])
                         (item box [k, f]));
                dist_ij = sqrt (0 + direction_vec 0 * direction_vec 0
                                  + direction_vec 1 * direction_vec 1
                                  + direction_vec 2 * direction_vec 2);
                direction_unitvec =
                  (if dist_ij = 0 then Inl NotANumber
                   else Inr (\<lambda>k. direction_vec k / dist_ij))
            in if cutoff a \<noteq> 0 \<and> dist_ij > cutoff a then Inr st
               else
                 bindE
                   (if isbonded then
                      bindE (evaluate_harmonic_bonds i j (bonda a) (bondv a) dist_ij)
                        (\<lambda>(pot_bo, force_bo).
                           Inr (pot_bo, 0 + force_bo,
                                st\<lparr>energies := add_at (energies st) [0, f] pot_bo\<rparr>))
                    else Inr (0, 0, st)) (\<lambda>(pot_bo, coeff, st).
                 bindE
                   (if \<not> isexcluded then
                      bindE (evaluate_lj i j (typeint a) (nbfix a) (sigma a) (sigma14 a)
                               (epsilon a) (epsilon14 a) (s14a a) (s14v a) dist_ij)
                        (\<lambda>(pot_lj, force_lj).
                      bindE (evaluate_elec i j (charge a) (e14a a) (e14v a) (ELEC_FACTOR a)
                               dist_ij (rfa a) (solventDielectric a) (cutoff a))
                        (\<lambda>(pot_el, force_el).
                           Inr (pot_lj, pot_el, coeff + force_lj + force_el,
                                st\<lparr>energies :=
                                     add_at (add_at (energies st) [1, f] pot_lj) [2, f] pot_el\<rparr>)))
                    else Inr (0, 0, coeff, st)) (\<lambda>(pot_lj, pot_el, coeff, st).
                 let A0 = atmnrg st;
                     A1 = add_at A0 [i, 0, f] (pot_bo * 0.5);
                     A2 = add_at A1 [j, 0, f] (pot_bo * 0.5);
                     A3 = add_at A2 [i, 1, f] (pot_lj * 0.5);
                     A4 = add_at A3 [j, 1, f] (pot_lj * 0.5);
                     A5 = add_at A4 [i, 2, f] (pot_el * 0.5);
                     A6 = add_at A5 [j, 2, f] (pot_el * 0.5) in
                 bindE direction_unitvec (\<lambda>u.
                 Inr (st\<lparr>atmnrg := A6,
                         forces :=
                           fold (\<lambda>k F. add_at (add_at F [i, k, f] (- (coeff * u k)))
                                          [j, k, f] (coeff * u k))
                             [0, 1, 2] (forces st)\<rparr>))))))"

text \<open>The body of the loop over the angles.\<close>

definition angle_body ::
  "numbautil \<Rightarrow> real ndarray \<Rightarrow> real ndarray \<Rightarrow> ffargs \<Rightarrow> nat \<Rightarrow> nat \<Rightarrow> outputs \<Rightarrow>
   error + outputs" where
  "angle_body nu coords box a f i st =
     bindE (evaluate_angles nu (\<lambda>x k. item coords [item (angles a) [i, x], k, f])
              (row (angle_params a) i) (\<lambda>k. item box [k, f])) (\<lambda>(pot_an, force_an).
     Inr (fold (\<lambda>x st.
                  st\<lparr>forces := fold (\<lambda>k F. add_at F [item (angles a) [i, x], k, f] (force_an x k))
                                  [0, 1, 2] (forces st),
                     atmnrg := add_at (atmnrg st) [item (angles a) [i, x], 3, f] (pot_an / 3)\<rparr>)
            [0, 1, 2]
            (st\<lparr>energies := add_at (energies st) [3, f] pot_an\<rparr>)))"

text \<open>
  The body of the loops over the dihedrals (\<open>c = 4\<close>) and over the impropers (\<open>c = 5\<close>):
  \<open>quads\<close> and \<open>params\<close> are the index and the parameter array of the loop.
\<close>

definition torsion_body ::
  "numbautil \<Rightarrow> real ndarray \<Rightarrow> real ndarray \<Rightarrow> nat ndarray \<Rightarrow> real option ndarray \<Rightarrow> nat \<Rightarrow>
   nat \<Rightarrow> nat \<Rightarrow> outputs \<Rightarrow> error + outputs" where
  "torsion_body nu coords box quads params c f i st =
     bindE (evaluate_torsion nu (\<lambda>x k. item coords [item quads [i, x], k, f])
              (row params i) (\<lambda>k. item box [k, f])) (\<lambda>(pot_di, force_di).
     Inr (fold (\<lambda>d st.
                  st\<lparr>forces := fold (\<lambda>k F. add_at F [item quads [i, d], k, f] (force_di d k))
                                  [0, 1, 2] (forces st),
                     atmnrg := add_at (atmnrg st) [item quads [i, d], c, f] (pot_di / 4)\<rparr>)
            [0, 1, 2, 3]
            (st\<lparr>energies := add_at (energies st) [c, f] pot_di\<rparr>)))"

text \<open>The body of the loop over the frames.\<close>

definition frame_body ::
  "numbautil \<Rightarrow> real ndarray \<Rightarrow> real ndarray \<Rightarrow> ffargs \<Rightarrow> nat \<Rightarrow> outputs \<Rightarrow> error + outputs" where
  "frame_body nu coords box a f st =
     (let natoms = shape coords ! 0;
          nangles = shape (angles a) ! 0;
          ndihedrals = shape (dihedrals a) ! 0;
          nimpropers = shape (impropers a) ! 0
      in bindE (foldE (\<lambda>i. foldE (pair_body nu coords box a f i) [i + 1..<natoms])
                  [0..<natoms] st) (\<lambda>st.
         if usersets a then Inr st
         else
           bindE (foldE (angle_body nu coords box a f) [0..<nangles] st) (\<lambda>st.
           bindE (foldE (torsion_body nu coords box (dihedrals a) (dihedral_params a) 4 f)
                    [0..<ndihedrals] st) (\<lambda>st.
           foldE (torsion_body nu coords box (impropers a) (improper_params a) 5 f)
             [0..<nimpropers] st))))"

definition ffevaluate ::
  "numbautil \<Rightarrow> real ndarray \<Rightarrow> real ndarray \<Rightarrow> ffargs \<Rightarrow> error + outputs" where
  "ffevaluate nu coords box a =
     (let natoms = shape coords ! 0;
          nframes = shape coords ! 2;
          st0 = \<lparr>energies = zeros [6, nframes],
                 forces = zeros [natoms, 3, nframes],
                 atmnrg = zeros [natoms, 6, nframes]\<rparr>
      in foldE (frame_body nu coords box a) [0..<nframes] st0)"

section \<open>Wildcard keys\<close>

text \<open>
  \<^verbatim>\<open>wildcard_substituted\<close>: the first key that holds an \<open>X\<close> and matches the tuple position
  by position; the empty tuple when there is none. Reading the tuple beyond its end
  raises.
\<close>

fun wildcard_match :: "string list \<Rightarrow> string list \<Rightarrow> nat \<Rightarrow> error + bool" where
  "wildcard_match [] ty i = Inr True"
| "wildcard_match (atom_type # rest) ty i =
     (if atom_type \<noteq> ''X'' then
        (if i < length ty then
           (if atom_type \<noteq> ty ! i then Inr False else wildcard_match rest ty (i + 1))
         else Inl IndexError)
      else wildcard_match rest ty (i + 1))"

fun wildcard_scan :: "string list \<Rightarrow> string list list \<Rightarrow> error + string list" where
  "wildcard_scan ty [] = Inr []"
| "wildcard_scan ty (atom_types # params) =
     bindE (wildcard_match atom_types ty 0) (\<lambda>match.
       if match then Inr atom_types else wildcard_scan ty params)"

definition wildcard_substituted :: "string list \<Rightarrow> string list list \<Rightarrow> error + string list" where
  "wildcard_substituted ty params =
     (let params = filter (\<lambda>atom_type. ''X'' \<in> set atom_type) params
      in wildcard_scan ty params)"

section \<open>Molecule and parameter set\<close>

text \<open>
  The \<^verbatim>\<open>Molecule\<close> and the parmed \<^verbatim>\<open>ParameterSet\<close> come from other packages; the records
  hold the attributes that the source reads. The index arrays of the molecule are lists of
  rows (of 2, 3 or 4 atom indexes); a tuple of atom types is a list of strings. The ordered
  dictionaries whose iteration order the wildcard search follows are association lists.
  The Urey-Bradley table is only looked at to log a warning and is left out.
\<close>

record molecule =
  atomtype :: "string list"
  mol_charge :: "real list"
  mol_bonds :: "nat list list"
  mol_angles :: "nat list list"
  mol_dihedrals :: "nat list list"
  mol_impropers :: "nat list list"

definition numAtoms :: "molecule \<Rightarrow> nat" where
  "numAtoms mol = length (atomtype mol)"

record atom_type =
  atom_sigma :: real
  atom_epsilon :: real
  atom_sigma_14 :: real
  atom_epsilon_14 :: real
  atom_nbfix :: "string \<rightharpoonup> real \<times> real \<times> real \<times> real"

record bond_type =
  bond_k :: real
  bond_req :: real

record angle_type =
  angle_k :: real
  angle_theteq :: real

record dihedral_type =
  dih_phi_k :: real
  dih_per :: real
  dih_phase :: real
  dih_scee :: real
  dih_scnb :: real

record improper_type =
  psi_k :: real
  psi_eq :: real

record parameters =
  atom_types :: "string \<rightharpoonup> atom_type"
  bond_types :: "string list \<rightharpoonup> bond_type"
  angle_types :: "string list \<rightharpoonup> angle_type"
  dihedral_types :: "(string list \<times> dihedral_type list) list"
  improper_types :: "(string list \<times> improper_type) list"
  improper_periodic_types :: "(string list \<times> dihedral_type) list"
  nbfix_types :: "(string \<times> string) list"

text \<open>The measured constants of \<^verbatim>\<open>scipy.constants\<close> (they depend on its CODATA release).\<close>

record constants =
  epsilon_0 :: real
  elementary_charge :: real
  Avogadro :: real

definition radians :: "real \<Rightarrow> real" where
  "radians x = x * (pi / 180)"

section \<open>Packing nested lists\<close>

text \<open>
  \<^verbatim>\<open>nestedListToArray\<close> for a list of flat lists (the only use that \<^verbatim>\<open>init\<close> makes of it):
  the rows are padded with the default \<open>dflt\<close>.
\<close>

definition nestedListToArray :: "'a list list \<Rightarrow> 'a \<Rightarrow> 'a ndarray" where
  "nestedListToArray nl dflt =
     (if length nl = 0 then \<lparr>shape = [1, 1], item = (\<lambda>_. dflt)\<rparr>
      else
        (let dim0 = length nl;
             dim1 = fold max (map length nl) 0
         in if list_all (\<lambda>x. length x = 0) nl then \<lparr>shape = [dim0, 1], item = (\<lambda>_. dflt)\<rparr>
            else \<lparr>shape = [dim0, dim1],
                  item = (\<lambda>idx. let i = idx ! 0; c = idx ! 1
                                in if i < length nl \<and> c < length (nl ! i) then nl ! i ! c
                                   else dflt)\<rparr>))"

text \<open>A one-dimensional array from a list, and an array of \<open>w\<close> columns from a list of rows.\<close>

definition of_list :: "'a list \<Rightarrow> 'a ndarray" where
  "of_list xs = \<lparr>shape = [length xs], item = (\<lambda>idx. xs ! (idx ! 0))\<rparr>"

definition of_rows :: "nat \<Rightarrow> 'a list list \<Rightarrow> 'a ndarray" where
  "of_rows w rows = \<lparr>shape = [length rows, w], item = (\<lambda>idx. rows ! (idx ! 0) ! (idx ! 1))\<rparr>"

section \<open>Parameter resolution\<close>

text \<open>
  \<^verbatim>\<open>detectImproperCenter\<close>: the graph has an edge for every bond of the molecule, so the
  neighbours of \<open>i\<close> are the other ends of the bonds at \<open>i\<close>; \<^verbatim>\<open>np.intersect1d\<close> keeps the
  distinct common values. \<open>None\<close> is Python's \<^verbatim>\<open>None\<close>.
\<close>

definition neighbors :: "nat list list \<Rightarrow> nat \<Rightarrow> nat list" where
  "neighbors bonds i =
     concat (map (\<lambda>b. (if b ! 0 = i then [b ! 1] else []) @
                      (if b ! 1 = i then [b ! 0] else [])) bonds)"

definition detectImproperCenter :: "nat list \<Rightarrow> nat list list \<Rightarrow> nat option" where
  "detectImproperCenter indexes bonds =
     find (\<lambda>i. length (remdups (filter (\<lambda>x. x \<in> set indexes) (neighbors bonds i))) = 3)
       indexes"

text \<open>\<^verbatim>\<open>itertools.permutations\<close>: all orders of a list, lexicographic in the positions.\<close>

fun select_each :: "'a list \<Rightarrow> ('a \<times> 'a list) list" where
  "select_each [] = []"
| "select_each (x # xs) = (x, xs) # map (\<lambda>(y, ys). (y, x # ys)) (select_each xs)"

fun permutations_n :: "nat \<Rightarrow> 'a list \<Rightarrow> 'a list list" where
  "permutations_n 0 xs = [[]]"
| "permutations_n (Suc n) xs =
     concat (map (\<lambda>(y, ys). map ((#) y) (permutations_n n ys)) (select_each xs))"

definition permutations :: "'a list \<Rightarrow> 'a list list" where
  "permutations xs = permutations_n (length xs) xs"

text \<open>What \<^verbatim>\<open>getImproperParameter\<close> returns: the parameter and the name of its table.\<close>

datatype improper_param =
  From_improper_types improper_type
| From_improper_periodic_types dihedral_type

text \<open>
  The loop of \<^verbatim>\<open>getImproperParameter\<close> over the permutations. An exception of the wildcard
  search leaves the function, as in the source.
\<close>

fun scan_perms :: "parameters \<Rightarrow> string list \<Rightarrow> nat list list \<Rightarrow> error + improper_param" where
  "scan_perms prm ty [] = Inl RuntimeError"
| "scan_perms prm ty (p # perms) =
     (let key = map (\<lambda>k. ty ! k) p
      in case map_of (improper_types prm) key of
           Some v \<Rightarrow> Inr (From_improper_types v)
         | None \<Rightarrow>
             (case map_of (improper_periodic_types prm) key of
                Some v \<Rightarrow> Inr (From_improper_periodic_types v)
              | None \<Rightarrow>
                  bindE (wildcard_substituted key (map fst (improper_types prm)))
                    (\<lambda>improper_params.
                  if improper_params \<noteq> [] then
                    (case map_of (improper_types prm) improper_params of
                       Some v \<Rightarrow> Inr (From_improper_types v)
                     | None \<Rightarrow> Inl KeyError)
                  else
                    bindE (wildcard_substituted key (map fst (improper_periodic_types prm)))
                      (\<lambda>improper_periodic_params.
                    if improper_periodic_params \<noteq> [] then
                      (case map_of (improper_periodic_types prm) improper_periodic_params of
                         Some v \<Rightarrow> Inr (From_improper_periodic_types v)
                       | None \<Rightarrow> Inl KeyError)
                    else scan_perms prm ty perms))))"

text \<open>Indexing a tuple of fewer than four types with a permutation raises.\<close>

definition getImproperParameter :: "string list \<Rightarrow> parameters \<Rightarrow> error + improper_param" where
  "getImproperParameter ty prm =
     (let perms = filter (\<lambda>x. x ! 2 = 2) (permutations [0, 1, 2, 3])
      in if length ty < 4 then Inl IndexError else scan_perms prm ty perms)"

section \<open>The topology indexer \<^verbatim>\<open>init\<close>\<close>

text \<open>\<^verbatim>\<open>np.unique(mol.atomtype, return_inverse=True)\<close>.\<close>

definition index_of :: "'a list \<Rightarrow> 'a \<Rightarrow> nat" where
  "index_of xs x = length (takeWhile (\<lambda>y. y \<noteq> x) xs)"

definition unique_types :: "string list \<Rightarrow> string list" where
  "unique_types ts = sort (remdups ts)"

definition unique_inverse :: "string list \<Rightarrow> nat list" where
  "unique_inverse ts = map (index_of (unique_types ts)) ts"

text \<open>
  \<open>uqtypes[typeint[idxs]]\<close>. The callers check the indexes against the number of atoms
  first: an index out of range raises, in this lookup or in the per-atom lists.
\<close>

definition types_of :: "string list \<Rightarrow> nat list \<Rightarrow> nat list \<Rightarrow> string list" where
  "types_of uqtypes tyint idxs = map (\<lambda>k. uqtypes ! (tyint ! k)) idxs"

definition append_at :: "'a list list \<Rightarrow> nat \<Rightarrow> 'a list \<Rightarrow> 'a list list" where
  "append_at ll i xs = ll[i := ll ! i @ xs]"

text \<open>The per-type Lennard-Jones vectors.\<close>

fun lj_vectors ::
  "parameters \<Rightarrow> string list \<Rightarrow> error + real list \<times> real list \<times> real list \<times> real list" where
  "lj_vectors prm [] = Inr ([], [], [], [])"
| "lj_vectors prm (t # ts) =
     (case atom_types prm t of
        None \<Rightarrow> Inl KeyError
      | Some aty \<Rightarrow>
          bindE (lj_vectors prm ts) (\<lambda>(sg, sg14, ep, ep14).
            Inr (atom_sigma aty # sg, atom_sigma_14 aty # sg14,
                 atom_epsilon aty # ep, atom_epsilon_14 aty # ep14)))"

text \<open>The rows of the NBFix table: a row of \<open>-1\<close> for a pair with a type that is not used.\<close>

definition nbfix_row :: "parameters \<Rightarrow> string list \<Rightarrow> string \<times> string \<Rightarrow> error + real list" where
  "nbfix_row prm uqtypes nbf =
     (if fst nbf \<in> set uqtypes \<and> snd nbf \<in> set uqtypes then
        (let idx1 = index_of uqtypes (fst nbf);
             idx2 = index_of uqtypes (snd nbf)
         in case atom_types prm (fst nbf) of
              None \<Rightarrow> Inl KeyError
            | Some aty \<Rightarrow>
                (case atom_nbfix aty (snd nbf) of
                   None \<Rightarrow> Inl KeyError
                 | Some (rmin, eps, rmin14, eps14) \<Rightarrow>
                     (let sig = rmin * 2 powr (- 1 / 6);
                          sig14 = rmin14 * 2 powr (- 1 / 6)
                      in Inr [real idx1, real idx2, eps, sig, eps14, sig14])))
      else Inr [- 1, - 1, - 1, - 1, - 1, - 1])"

fun mapE :: "('a \<Rightarrow> error + 'b) \<Rightarrow> 'a list \<Rightarrow> error + 'b list" where
  "mapE f [] = Inr []"
| "mapE f (x # xs) = bindE (f x) (\<lambda>y. bindE (mapE f xs) (\<lambda>ys. Inr (y # ys)))"

text \<open>The loop over the bonds; the state is \<open>(excl_list, bond_pairs, bond_params)\<close>.\<close>

definition bond_step ::
  "parameters \<Rightarrow> string list \<Rightarrow> nat list \<Rightarrow> nat list \<Rightarrow>
   nat list list \<times> nat list list \<times> real list list \<Rightarrow>
   error + nat list list \<times> nat list list \<times> real list list" where
  "bond_step prm uqtypes tyint bond = (\<lambda>(excl_list, bond_pairs, bond_params).
     if \<not> list_all (\<lambda>k. k < length tyint) bond then Inl IndexError
     else
       (let types = types_of uqtypes tyint bond;
            bond = sort bond
        in case bond_types prm types of
             None \<Rightarrow> Inl KeyError
           | Some bt \<Rightarrow>
               Inr (append_at excl_list (bond ! 0) [bond ! 1],
                    append_at bond_pairs (bond ! 0) [bond ! 1],
                    append_at bond_params (bond ! 0) [bond_k bt, bond_req bt])))"

text \<open>
  The loop over the angles; the state is \<open>(excl_list, angle_params)\<close>, and the row of pass
  \<open>idx\<close> is appended at pass \<open>idx\<close>.
\<close>

definition angle_step ::
  "parameters \<Rightarrow> string list \<Rightarrow> nat list \<Rightarrow> nat list \<Rightarrow>
   nat list list \<times> real list list \<Rightarrow> error + nat list list \<times> real list list" where
  "angle_step prm uqtypes tyint angle = (\<lambda>(excl_list, angle_rows).
     (let first = min (angle ! 0) (angle ! 2);
          second = max (angle ! 0) (angle ! 2)
      in if \<not> list_all (\<lambda>k. k < length tyint) angle then Inl IndexError
         else
           (case angle_types prm (types_of uqtypes tyint angle) of
              None \<Rightarrow> Inl KeyError
            | Some aty \<Rightarrow>
                Inr (append_at excl_list first [second],
                     angle_rows @ [[angle_k aty, radians (angle_theteq aty)]]))))"

text \<open>
  The loop over the dihedrals. \<open>alreadyadded\<close> holds the sorted quadruples (the source
  keys a dictionary with their printed form); the parameter row of pass \<open>idx\<close> is appended
  at pass \<open>idx\<close>, empty for a quadruple met before.
\<close>

record dihedral_state =
  alreadyadded :: "nat list list"
  s14_atom_list :: "nat list list"
  s14_value_list :: "real list list"
  e14_atom_list :: "nat list list"
  e14_value_list :: "real list list"
  dihedral_rows :: "real list list"

definition dihedral_lookup :: "parameters \<Rightarrow> string list \<Rightarrow> error + dihedral_type list" where
  "dihedral_lookup prm ty =
     (case map_of (dihedral_types prm) ty of
        Some dihparam \<Rightarrow> Inr dihparam
      | None \<Rightarrow>
          (case map_of (dihedral_types prm) (rev ty) of
             Some dihparam \<Rightarrow> Inr dihparam
           | None \<Rightarrow>
               bindE (wildcard_substituted ty (map fst (dihedral_types prm))) (\<lambda>key.
                 case map_of (dihedral_types prm) key of
                   None \<Rightarrow> Inl KeyError
                 | Some dihparam \<Rightarrow>
                     if dihparam = [] then Inl RuntimeError else Inr dihparam)))"

definition dihedral_step ::
  "parameters \<Rightarrow> string list \<Rightarrow> nat list \<Rightarrow> nat list \<Rightarrow> dihedral_state \<Rightarrow>
   error + dihedral_state" where
  "dihedral_step prm uqtypes tyint dihed st =
     (let stringrep = sort dihed
      in if stringrep \<in> set (alreadyadded st) then
           Inr (st\<lparr>dihedral_rows := dihedral_rows st @ [[]]\<rparr>)
         else if \<not> list_all (\<lambda>k. k < length tyint) dihed then Inl IndexError
         else
           bindE (dihedral_lookup prm (types_of uqtypes tyint dihed)) (\<lambda>dihparam.
             let i = min (dihed ! 0) (dihed ! 3);
                 j = max (dihed ! 0) (dihed ! 3)
             in if dihparam = [] then Inl IndexError
                else
                  Inr (st\<lparr>alreadyadded := stringrep # alreadyadded st,
                          s14_atom_list := append_at (s14_atom_list st) i [j],
                          s14_value_list :=
                            append_at (s14_value_list st) i [dih_scnb (dihparam ! 0)],
                          e14_atom_list := append_at (e14_atom_list st) i [j],
                          e14_value_list :=
                            append_at (e14_value_list st) i [dih_scee (dihparam ! 0)],
                          dihedral_rows :=
                            dihedral_rows st @
                            [concat (map (\<lambda>dip. [dih_phi_k dip, radians (dih_phase dip),
                                                  dih_per dip]) dihparam)]\<rparr>)))"

text \<open>
  The loop over the impropers. \<open>improper_resolve\<close> is the first part of the body: the types
  of the quadruple and the \<^verbatim>\<open>try\<close> block. Any exception of the first search starts the
  search with the detected center, and any exception there is raised as a
  \<^verbatim>\<open>RuntimeError\<close>. Without a center \<^verbatim>\<open>typeint[None]\<close> is a two-dimensional array, the tuple
  built with it is no key of a table, and the second search raises too.
\<close>

definition improper_resolve ::
  "parameters \<Rightarrow> string list \<Rightarrow> nat list \<Rightarrow> nat list list \<Rightarrow> nat list \<Rightarrow>
   error + improper_param" where
  "improper_resolve prm uqtypes tyint bonds impr =
     (if \<not> list_all (\<lambda>k. k < length tyint) impr then Inl IndexError
      else
        (let ty = types_of uqtypes tyint impr
         in case getImproperParameter ty prm of
              Inr r \<Rightarrow> Inr r
            | Inl _ \<Rightarrow>
                (case detectImproperCenter impr bonds of
                   None \<Rightarrow> Inl RuntimeError
                 | Some center \<Rightarrow>
                     (let notcenter = sort (remdups (filter (\<lambda>x. x \<noteq> center) impr));
                          notcenter = sort (types_of uqtypes tyint notcenter);
                          ty = take 2 notcenter @ [uqtypes ! (tyint ! center)]
                                 @ drop 2 notcenter
                      in case getImproperParameter ty prm of
                           Inr r \<Rightarrow> Inr r
                         | Inl _ \<Rightarrow> Inl RuntimeError))))"

text \<open>The second part of the body: the row of pass \<open>idx\<close> is appended at pass \<open>idx\<close>.\<close>

definition improper_step ::
  "parameters \<Rightarrow> string list \<Rightarrow> nat list \<Rightarrow> nat list list \<Rightarrow> nat list \<Rightarrow> real list list \<Rightarrow>
   error + real list list" where
  "improper_step prm uqtypes tyint bonds impr improper_rows =
     bindE (improper_resolve prm uqtypes tyint bonds impr)
       (\<lambda>r. case r of
              From_improper_periodic_types imprparam \<Rightarrow>
                Inr (improper_rows @
                     [[dih_phi_k imprparam, radians (dih_phase imprparam),
                       dih_per imprparam]])
            | From_improper_types imprparam \<Rightarrow>
                Inr (improper_rows @
                     [[psi_k imprparam, radians (psi_eq imprparam), 0]]))"

text \<open>Coulomb's constant in \<open>kcal \<cdot> \<AA> / (mol \<cdot> e\<^sup>2)\<close>; the measured constants are positive.\<close>

definition elec_factor :: "constants \<Rightarrow> real" where
  "elec_factor const =
     (let EF = 1 / (4 * pi * epsilon_0 const);
          EF = EF * (elementary_charge const) ^ 2;
          EF = EF / (1 / 10 ^ 10);
          EF = EF * (Avogadro const / (1000 * 4.184))
      in EF)"

definition init :: "constants \<Rightarrow> molecule \<Rightarrow> parameters \<Rightarrow> error + init_result" where
  "init const mol prm =
     (let natoms = numAtoms mol;
          uqtypes = unique_types (atomtype mol);
          tyint = unique_inverse (atomtype mol)
      in bindE (lj_vectors prm uqtypes) (\<lambda>(sg, sg14, ep, ep14).
         bindE (mapE (nbfix_row prm uqtypes) (nbfix_types prm)) (\<lambda>nbfix_rows.
         bindE (foldE (bond_step prm uqtypes tyint) (mol_bonds mol)
                  (replicate natoms [], replicate natoms [], replicate natoms []))
           (\<lambda>(excl_list, bond_pairs, bond_params).
         bindE (foldE (angle_step prm uqtypes tyint) (mol_angles mol) (excl_list, []))
           (\<lambda>(excl_list, angle_rows).
         let excl_list = map (\<lambda>x. sort (remdups x)) excl_list in
         bindE (foldE (dihedral_step prm uqtypes tyint) (mol_dihedrals mol)
                  \<lparr>alreadyadded = [],
                   s14_atom_list = replicate natoms [],
                   s14_value_list = replicate natoms [],
                   e14_atom_list = replicate natoms [],
                   e14_value_list = replicate natoms [],
                   dihedral_rows = []\<rparr>) (\<lambda>ds.
         bindE (foldE (improper_step prm uqtypes tyint (mol_bonds mol)) (mol_impropers mol) [])
           (\<lambda>improper_rows.
         Inr \<lparr>typeint = of_list tyint,
              excl = nestedListToArray (map (map int) excl_list) (- 1),
              nbfix = of_rows 6 nbfix_rows,
              sigma = of_list sg,
              sigma14 = of_list sg14,
              epsilon = of_list ep,
              epsilon14 = of_list ep14,
              s14a = nestedListToArray (map (map int) (s14_atom_list ds)) (- 1),
              e14a = nestedListToArray (map (map int) (e14_atom_list ds)) (- 1),
              s14v = nestedListToArray (map (map Some) (s14_value_list ds)) None,
              e14v = nestedListToArray (map (map Some) (e14_value_list ds)) None,
              bonda = nestedListToArray (map (map int) bond_pairs) (- 1),
              bondv = nestedListToArray (map (map Some) bond_params) None,
              ELEC_FACTOR = elec_factor const,
              charge = of_list (mol_charge mol),
              angles = of_rows 3 (mol_angles mol),
              angle_params = of_rows 2 angle_rows,
              dihedrals = of_rows 4 (mol_dihedrals mol),
              dihedral_params = nestedListToArray (map (map Some) (dihedral_rows ds)) None,
              impropers = of_rows 4 (mol_impropers mol),
              improper_params = of_rows 3 (map (map Some) improper_rows)\<rparr>)))))))"

section \<open>The class \<^verbatim>\<open>FFEvaluate\<close>\<close>

text \<open>
  \<^verbatim>\<open>mol.atomselect\<close> belongs to the molecule's package: it is a parameter, and may fail.
  \<^verbatim>\<open>calculateSets\<close> works on the copy of the molecule that \<^verbatim>\<open>__init__\<close> takes, and returns
  the changed copy with the two sets.
\<close>

definition calculateSets ::
  "(molecule \<Rightarrow> string \<Rightarrow> error + nat list) \<Rightarrow> molecule \<Rightarrow> (string \<times> string) option \<Rightarrow>
   error + nat list \<times> nat list \<times> molecule" where
  "calculateSets atomselect mol betweensets =
     (case betweensets of
        None \<Rightarrow> Inr ([], [], mol)
      | Some (selA, selB) \<Rightarrow>
          bindE (atomselect mol selA) (\<lambda>setA.
          bindE (atomselect mol selB) (\<lambda>setB.
          Inr (setA, setB,
               mol\<lparr>mol_bonds := [], mol_angles := [], mol_dihedrals := [],
                   mol_impropers := []\<rparr>))))"

definition FFEvaluate_init ::
  "(molecule \<Rightarrow> string \<Rightarrow> error + nat list) \<Rightarrow> constants \<Rightarrow> molecule \<Rightarrow> parameters \<Rightarrow>
   (string \<times> string) option \<Rightarrow> real \<Rightarrow> bool \<Rightarrow> real \<Rightarrow> error + ffargs" where
  "FFEvaluate_init atomselect const mol prm betweensets cutoff_arg rfa_arg solventDielectric_arg =
     bindE (calculateSets atomselect mol betweensets) (\<lambda>(setA, setB, mol).
     bindE (init const mol prm) (\<lambda>args.
     Inr (init_result.extend args
            (ffargs.fields setA setB cutoff_arg rfa_arg solventDielectric_arg))))"

section \<open>Notions used in the statements\<close>

text \<open>
  The wrapped pair vector and its length, as \<open>pair_body\<close> computes them, and the state after
  a pair has added the potentials \<open>pot_bo\<close>, \<open>pot_lj\<close>, \<open>pot_el\<close> and the force \<open>coeff * u\<close>.
\<close>

definition pair_vec :: "numbautil \<Rightarrow> real ndarray \<Rightarrow> real ndarray \<Rightarrow> nat \<Rightarrow> nat \<Rightarrow> nat \<Rightarrow> vec" where
  "pair_vec nu coords box f i j =
     (\<lambda>k. wrapDistance nu (item coords [i, k, f] - item coords [j, k, f]) (item box [k, f]))"

definition pair_dist :: "numbautil \<Rightarrow> real ndarray \<Rightarrow> real ndarray \<Rightarrow> nat \<Rightarrow> nat \<Rightarrow> nat \<Rightarrow> real" where
  "pair_dist nu coords box f i j =
     sqrt (0 + pair_vec nu coords box f i j 0 * pair_vec nu coords box f i j 0
             + pair_vec nu coords box f i j 1 * pair_vec nu coords box f i j 1
             + pair_vec nu coords box f i j 2 * pair_vec nu coords box f i j 2)"

definition pair_update ::
  "nat \<Rightarrow> nat \<Rightarrow> nat \<Rightarrow> real \<Rightarrow> real \<Rightarrow> real \<Rightarrow> real \<Rightarrow> vec \<Rightarrow> outputs \<Rightarrow> outputs" where
  "pair_update f i j pot_bo pot_lj pot_el coeff u st =
     \<lparr>energies = add_at (add_at (add_at (energies st) [0, f] pot_bo) [1, f] pot_lj) [2, f] pot_el,
      forces = fold (\<lambda>k F. add_at (add_at F [i, k, f] (- (coeff * u k))) [j, k, f] (coeff * u k))
                 [0, 1, 2] (forces st),
      atmnrg = add_at (add_at (add_at (add_at (add_at (add_at (atmnrg st)
                 [i, 0, f] (pot_bo * 0.5)) [j, 0, f] (pot_bo * 0.5))
                 [i, 1, f] (pot_lj * 0.5)) [j, 1, f] (pot_lj * 0.5))
                 [i, 2, f] (pot_el * 0.5)) [j, 2, f] (pot_el * 0.5)\<rparr>"

text \<open>
  The sums of the claims, for frame \<open>f\<close>: the six energy components, the attributions of
  \<open>n\<close> atoms, and component \<open>k\<close> of the forces on \<open>n\<close> atoms.
\<close>

definition esum :: "real ndarray \<Rightarrow> nat \<Rightarrow> real" where
  "esum E f = (\<Sum>c<6. item E [c, f])"

definition asum :: "nat \<Rightarrow> real ndarray \<Rightarrow> nat \<Rightarrow> real" where
  "asum n A f = (\<Sum>i<n. \<Sum>c<6. item A [i, c, f])"

definition fsum :: "nat \<Rightarrow> real ndarray \<Rightarrow> nat \<Rightarrow> nat \<Rightarrow> real" where
  "fsum n F k f = (\<Sum>i<n. item F [i, k, f])"

text \<open>Every index of an index array of \<open>w\<close> columns is the index of one of \<open>n\<close> atoms.\<close>

definition in_range :: "nat ndarray \<Rightarrow> nat \<Rightarrow> nat \<Rightarrow> bool" where
  "in_range quads w n =
     list_all (\<lambda>i. list_all (\<lambda>x. item quads [i, x] < n) [0..<w]) [0..<shape quads ! 0]"

definition bonded_zero :: "outputs \<Rightarrow> bool" where
  "bonded_zero st =
     (\<forall>f. item (energies st) [0, f] = 0 \<and> item (energies st) [3, f] = 0 \<and>
          item (energies st) [4, f] = 0 \<and> item (energies st) [5, f] = 0)"

definition torsion_apply ::
  "numbautil \<Rightarrow> real ndarray \<Rightarrow> real ndarray \<Rightarrow> nat \<Rightarrow> nat \<Rightarrow> (nat \<Rightarrow> nat) \<times> real option list \<Rightarrow>
   outputs \<Rightarrow> error + outputs" where
  "torsion_apply nu coords box c f = (\<lambda>(q, tp) st.
     bindE (evaluate_torsion nu (\<lambda>x k. item coords [q x, k, f]) tp (\<lambda>k. item box [k, f]))
       (\<lambda>(pot_di, force_di).
     Inr (fold (\<lambda>d st.
                  st\<lparr>forces := fold (\<lambda>k F. add_at F [q d, k, f] (force_di d k))
                                  [0, 1, 2] (forces st),
                     atmnrg := add_at (atmnrg st) [q d, c, f] (pot_di / 4)\<rparr>)
            [0, 1, 2, 3]
            (st\<lparr>energies := add_at (energies st) [c, f] pot_di\<rparr>))))"

section \<open>Improper resolution as the specification words it\<close>

text \<open>
  The positions \<open>(0, 1, 2, 3)\<close> in every order that keeps position 2, in lexicographic
  order.
\<close>

definition spec_perms :: "nat list list" where
  "spec_perms = [[0, 1, 2, 3], [0, 3, 2, 1], [1, 0, 2, 3], [1, 3, 2, 0], [3, 0, 2, 1],
                 [3, 1, 2, 0]]"

text \<open>
  A key with the wildcard matches a tuple of types when every position holds the type of
  the tuple or \<open>X\<close>. The wildcard lookup takes the first such key in the order of the table.
\<close>

definition matches_key :: "string list \<Rightarrow> string list \<Rightarrow> bool" where
  "matches_key key ty \<longleftrightarrow> ''X'' \<in> set key \<and> list_all2 (\<lambda>k t. k = ''X'' \<or> k = t) key ty"

definition spec_wildcard :: "(string list \<times> 'v) list \<Rightarrow> string list \<Rightarrow> 'v option" where
  "spec_wildcard table ty = map_option snd (find (\<lambda>kv. matches_key (fst kv) ty) table)"

text \<open>
  The four attempts for one tuple: exact in the harmonic table, exact in the periodic
  table, wildcard in the harmonic table, wildcard in the periodic table.
\<close>

definition spec_attempt :: "parameters \<Rightarrow> string list \<Rightarrow> improper_param option" where
  "spec_attempt prm key =
     (case map_of (improper_types prm) key of
        Some v \<Rightarrow> Some (From_improper_types v)
      | None \<Rightarrow>
          (case map_of (improper_periodic_types prm) key of
             Some v \<Rightarrow> Some (From_improper_periodic_types v)
           | None \<Rightarrow>
               (case spec_wildcard (improper_types prm) key of
                  Some v \<Rightarrow> Some (From_improper_types v)
                | None \<Rightarrow>
                    map_option From_improper_periodic_types
                      (spec_wildcard (improper_periodic_types prm) key))))"

fun first_some :: "('a \<Rightarrow> 'b option) \<Rightarrow> 'a list \<Rightarrow> 'b option" where
  "first_some f [] = None"
| "first_some f (x # xs) = (case f x of Some y \<Rightarrow> Some y | None \<Rightarrow> first_some f xs)"

text \<open>The permutation scan: the first permutation of the tuple with a successful attempt.\<close>

definition spec_scan :: "parameters \<Rightarrow> string list \<Rightarrow> improper_param option" where
  "spec_scan prm ty = first_some (\<lambda>p. spec_attempt prm (map (\<lambda>k. ty ! k) p)) spec_perms"

text \<open>
  The center of a quadruple: its neighbourhood within the quadruple in the bond graph has
  three elements.
\<close>

definition bonded :: "nat list list \<Rightarrow> nat \<Rightarrow> nat \<Rightarrow> bool" where
  "bonded bonds i j \<longleftrightarrow>
     list_ex (\<lambda>b. (b ! 0 = i \<and> b ! 1 = j) \<or> (b ! 1 = i \<and> b ! 0 = j)) bonds"

definition spec_center :: "nat list list \<Rightarrow> nat list \<Rightarrow> nat \<Rightarrow> bool" where
  "spec_center bonds impr c \<longleftrightarrow> card {x \<in> set impr. bonded bonds c x} = 3"

text \<open>
  The resolution of a quadruple of atoms, \<open>type_of\<close> giving the type of an atom: the scan
  of the types of the quadruple; when it fails, the scan of the sorted types of the three
  other atoms with the type of the center put at position 2; an error when this fails or
  there is no center. Of several centers the first of the quadruple is taken.
\<close>

definition spec_resolve ::
  "parameters \<Rightarrow> (nat \<Rightarrow> string) \<Rightarrow> nat list list \<Rightarrow> nat list \<Rightarrow> error + improper_param" where
  "spec_resolve prm type_of bonds impr =
     (case spec_scan prm (map type_of impr) of
        Some r \<Rightarrow> Inr r
      | None \<Rightarrow>
          (case find (spec_center bonds impr) impr of
             None \<Rightarrow> Inl RuntimeError
           | Some c \<Rightarrow>
               (let others = sort (map type_of (filter (\<lambda>x. x \<noteq> c) impr))
                in case spec_scan prm (take 2 others @ [type_of c] @ drop 2 others) of
                     Some r \<Rightarrow> Inr r
                   | None \<Rightarrow> Inl RuntimeError)))"

section \<open>Arrays in memory and the method \<^verbatim>\<open>calculate\<close>\<close>

text \<open>
  For \<^verbatim>\<open>calculate\<close> the arrays are objects in memory. The store holds the buffers in the
  order of their allocation, each with its items in row-major order. An array is a view
  of a whole buffer with a shape of its own: indexing with \<^verbatim>\<open>np.newaxis\<close> gives a view of
  the same buffer, while \<^verbatim>\<open>copy\<close>, \<^verbatim>\<open>astype\<close> and \<^verbatim>\<open>np.zeros\<close> allocate. Strided views are
  left out. The conversion to \<^verbatim>\<open>float32\<close> keeps the values, the items being reals.
\<close>

type_synonym store = "real list list"

record array =
  buffer :: nat
  dims :: "nat list"





definition alloc :: "real list \<Rightarrow> nat list \<Rightarrow> store \<Rightarrow> array \<times> store" where
  "alloc items shp s = (\<lparr>buffer = length s, dims = shp\<rparr>, s @ [items])"







section \<open>Example inputs\<close>

definition ex_charge :: "real ndarray" where
  "ex_charge = \<lparr>shape = [2], item = (\<lambda>idx. if idx = [0] then 1 else - 1)\<rparr>"
definition ex_e14a :: "int ndarray" where
  "ex_e14a = \<lparr>shape = [2, 1], item = (\<lambda>_. - 1)\<rparr>"
definition ex_e14v :: "real option ndarray" where
  "ex_e14v = \<lparr>shape = [2, 1], item = (\<lambda>_. None)\<rparr>"

definition ex_mol :: molecule where
  "ex_mol = \<lparr>atomtype = [''H'', ''C'', ''C'', ''H''],
             mol_charge = [1, - 1, - 1, 1],
             mol_bonds = [[0, 1], [1, 2], [2, 3]],
             mol_angles = [[0, 1, 2], [1, 2, 3]],
             mol_dihedrals = [[0, 1, 2, 3]],
             mol_impropers = []\<rparr>"

definition ex_atom :: atom_type where
  "ex_atom = \<lparr>atom_sigma = 3, atom_epsilon = 1, atom_sigma_14 = 2, atom_epsilon_14 = 1,
              atom_nbfix = Map.empty\<rparr>"

definition ex_prm :: parameters where
  "ex_prm = \<lparr>atom_types = [''C'' \<mapsto> ex_atom, ''H'' \<mapsto> ex_atom],
             bond_types = [[''H'', ''C''] \<mapsto> \<lparr>bond_k = 100, bond_req = 1\<rparr>,
                           [''C'', ''C''] \<mapsto> \<lparr>bond_k = 200, bond_req = 1\<rparr>,
                           [''C'', ''H''] \<mapsto> \<lparr>bond_k = 100, bond_req = 1\<rparr>],
             angle_types = [[''H'', ''C'', ''C''] \<mapsto> \<lparr>angle_k = 50, angle_theteq = 90\<rparr>,
                            [''C'', ''C'', ''H''] \<mapsto> \<lparr>angle_k = 50, angle_theteq = 90\<rparr>],
             dihedral_types = [([''X'', ''C'', ''C'', ''X''],
                                [\<lparr>dih_phi_k = 1, dih_per = 3, dih_phase = 0,
                                  dih_scee = 6 / 5, dih_scnb = 2\<rparr>])],
             improper_types = [],
             improper_periodic_types = [],
             nbfix_types = []\<rparr>"

text \<open>
  A parameter set with one harmonic improper, under a wildcard key. It serves a quadruple
  whose center is its first atom: the atoms 0 to 3 have the types C, H, N, O, and the
  bonds are those of the center.
\<close>

definition ex_improper_prm :: parameters where
  "ex_improper_prm =
     ex_prm\<lparr>improper_types := [([''X'', ''O'', ''C'', ''N''], \<lparr>psi_k = 10, psi_eq = 0\<rparr>)]\<rparr>"

definition ex_const :: constants where
  "ex_const = \<lparr>epsilon_0 = 8854187817 / 10 ^ 21,
               elementary_charge = 16021766208 / 10 ^ 29,
               Avogadro = 6022140857 * 10 ^ 14\<rparr>"

definition ex_init :: init_result where
  "ex_init =
     \<lparr>typeint = of_list [1, 0, 0, 1],
      excl = nestedListToArray [[1, 2], [2, 3], [3], []] (- 1),
      nbfix = of_rows 6 [],
      sigma = of_list [3, 3],
      sigma14 = of_list [2, 2],
      epsilon = of_list [1, 1],
      epsilon14 = of_list [1, 1],
      s14a = nestedListToArray [[3], [], [], []] (- 1),
      e14a = nestedListToArray [[3], [], [], []] (- 1),
      s14v = nestedListToArray [[Some 2], [], [], []] None,
      e14v = nestedListToArray [[Some (6 / 5)], [], [], []] None,
      bonda = nestedListToArray [[1], [2], [3], []] (- 1),
      bondv = nestedListToArray [[Some 100, Some 1], [Some 200, Some 1], [Some 100, Some 1], []]
                None,
      ELEC_FACTOR = elec_factor ex_const,
      charge = of_list [1, - 1, - 1, 1],
      angles = of_rows 3 [[0, 1, 2], [1, 2, 3]],
      angle_params = of_rows 2 [[50, radians 90], [50, radians 90]],
      dihedrals = of_rows 4 [[0, 1, 2, 3]],
      dihedral_params = nestedListToArray [[Some 1, Some (radians 0), Some 3]] None,
      impropers = of_rows 4 [],
      improper_params = of_rows 3 []\<rparr>"

definition ex_dihedral_state :: dihedral_state where
  "ex_dihedral_state =
     \<lparr>alreadyadded = [[0, 1, 2, 3]],
      s14_atom_list = [[3], [], [], []],
      s14_value_list = [[2], [], [], []],
      e14_atom_list = [[3], [], [], []],
      e14_value_list = [[6 / 5], [], [], []],
      dihedral_rows = [[1, radians 0, 3]]\<rparr>"

definition ex_atomselect :: "molecule \<Rightarrow> string \<Rightarrow> error + nat list" where
  "ex_atomselect mol sel =
     (if sel = ''index 0 1'' then Inr [0, 1]
      else if sel = ''index 2 3'' then Inr [2, 3]
      else if sel = ''none'' then Inr []
      else Inl ValueError)"

definition ex_args :: ffargs where
  "ex_args = init_result.extend ex_init (ffargs.fields [] [] 0 False (157 / 2))"

text \<open>
  Modelled from the spec: the minimum image \<open>d - L * round (d / L)\<close> along an axis with
  \<open>L > 0\<close>, the difference unchanged otherwise (\<^verbatim>\<open>numbautil.wrapDistance\<close> and
  \<^verbatim>\<open>numbautil.wrapBondedDistance\<close>).
\<close>

definition ex_wrap :: "real \<Rightarrow> real \<Rightarrow> real" where
  "ex_wrap d L = (if L > 0 then d - L * of_int (round (d / L)) else d)"

text \<open>
  Modelled from the spec: the three bond vectors of \<^verbatim>\<open>numbautil.dihedralAngleFull\<close> and the
  angle between the two cross products, with the sign of the triple product.
\<close>

definition ex_dihedralAngleFull :: "mat \<Rightarrow> vec \<Rightarrow> error + real \<times> vec \<times> vec \<times> vec" where
  "ex_dihedralAngleFull pos box =
     (let r12 = (\<lambda>k. ex_wrap (pos 1 k - pos 0 k) (box k));
          r23 = (\<lambda>k. ex_wrap (pos 2 k - pos 1 k) (box k));
          r34 = (\<lambda>k. ex_wrap (pos 3 k - pos 2 k) (box k));
          c1 = cross r12 r23;
          c2 = cross r23 r34;
          c = dot c1 c2 / (sqrt (dot c1 c1) * sqrt (dot c2 c2));
          phi = arccos (max (- 1) (min 1 c))
      in Inr (if dot (cross c1 c2) r23 < 0 then - phi else phi, r12, r23, r34))"

definition ex_nu :: numbautil where
  "ex_nu = \<lparr>wrapDistance = ex_wrap, wrapBondedDistance = ex_wrap,
            dihedralAngleFull = ex_dihedralAngleFull\<rparr>"

definition ex_coords :: "real ndarray" where
  "ex_coords = \<lparr>shape = [4, 3, 1],
                item = (\<lambda>idx. [[1, 0, 0], [0, 0, 0], [0, 1, 0], [0, 1, 1 / 2]] ! (idx ! 0) ! (idx ! 1))\<rparr>"

definition ex_box :: "real ndarray" where
  "ex_box = zeros [3, 1]"

definition ex_state :: outputs where
  "ex_state = \<lparr>energies = zeros [6, 1], forces = zeros [4, 3, 1], atmnrg = zeros [4, 6, 1]\<rparr>"

definition ex_init_bare :: init_result where
  "ex_init_bare =
     \<lparr>typeint = of_list [1, 0, 0, 1],
      excl = nestedListToArray [[], [], [], []] (- 1),
      nbfix = of_rows 6 [],
      sigma = of_list [3, 3],
      sigma14 = of_list [2, 2],
      epsilon = of_list [1, 1],
      epsilon14 = of_list [1, 1],
      s14a = nestedListToArray [[], [], [], []] (- 1),
      e14a = nestedListToArray [[], [], [], []] (- 1),
      s14v = nestedListToArray [[], [], [], []] None,
      e14v = nestedListToArray [[], [], [], []] None,
      bonda = nestedListToArray [[], [], [], []] (- 1),
      bondv = nestedListToArray [[], [], [], []] None,
      ELEC_FACTOR = elec_factor ex_const,
      charge = of_list [1, - 1, - 1, 1],
      angles = of_rows 3 [],
      angle_params = of_rows 2 [],
      dihedrals = of_rows 4 [],
      dihedral_params = nestedListToArray [] None,
      impropers = of_rows 4 [],
      improper_params = of_rows 3 []\<rparr>"

definition ex_args_sets :: ffargs where
  "ex_args_sets = init_result.extend ex_init_bare (ffargs.fields [0, 1] [2, 3] 0 False (157 / 2))"

definition ex_args_none :: ffargs where
  "ex_args_none = init_result.extend ex_init_bare (ffargs.fields [] [] 0 False (157 / 2))"

definition ex_args_dup :: ffargs where
  "ex_args_dup =
     ex_args\<lparr>dihedrals := of_rows 4 [[0, 1, 2, 3], [3, 2, 1, 0]],
             dihedral_params :=
               nestedListToArray [[Some 1, Some (radians 0), Some 3], []] None\<rparr>"

text \<open>
  Coordinates with the atoms 0, 2 and 3 on a line, and the arguments for the example
  molecule with the dihedral \<open>[0, 1, 2, 3]\<close> repeated as \<open>[1, 0, 2, 3]\<close>.
\<close>

definition ex_coords_line :: "real ndarray" where
  "ex_coords_line =
     \<lparr>shape = [4, 3, 1],
      item = (\<lambda>idx. [[0, 0, 0], [0, 4, 0], [3, 0, 0], [4, 0, 0]] ! (idx ! 0) ! (idx ! 1))\<rparr>"

definition ex_args_swap :: ffargs where
  "ex_args_swap =
     ex_args\<lparr>dihedrals := of_rows 4 [[0, 1, 2, 3], [1, 0, 2, 3]],
             dihedral_params :=
               nestedListToArray [[Some 1, Some (radians 0), Some 3], []] None\<rparr>"

text \<open>
  Two selections that overlap: the first selects the atom 0, the second the atoms 0
  and 1. The arguments are those that the constructor builds for them.
\<close>

definition ex_atomselect_overlap :: "molecule \<Rightarrow> string \<Rightarrow> error + nat list" where
  "ex_atomselect_overlap mol sel =
     (if sel = ''index 0'' then Inr [0]
      else if sel = ''index 0 1'' then Inr [0, 1]
      else Inl ValueError)"

definition ex_args_overlap :: ffargs where
  "ex_args_overlap = ex_args_none\<lparr>set1 := [0], set2 := [0, 1]\<rparr>"





section \<open>Properties\<close>

lemma bindE_Inr_iff:
  "bindE m k = Inr y \<longleftrightarrow> (\<exists>x. m = Inr x \<and> k x = Inr y)"
  by (cases m) (simp_all add: bindE_def)

lemma divE_Inr_iff: "divE x y = Inr z \<longleftrightarrow> y \<noteq> 0 \<and> z = x / y"
  by (auto simp: divE_def)

lemma rf_potential_zero:
  fixes Rc eps :: real
  assumes "Rc \<noteq> 0" "2 * eps + 1 \<noteq> 0"
  shows "1 / Rc + (1 / Rc ^ 3 * (eps - 1) / (2 * eps + 1)) * Rc\<^sup>2
           - 1 / Rc * (3 * eps) / (2 * eps + 1) = 0"
proof -
  let ?d = "2 * eps + 1"
  have a: "1 / Rc ^ 3 * Rc\<^sup>2 = 1 / Rc"
    using assms(1) by (simp add: power2_eq_square power3_eq_cube)
  have "1 / Rc + (1 / Rc ^ 3 * (eps - 1) / ?d) * Rc\<^sup>2 - 1 / Rc * (3 * eps) / ?d
      = 1 / Rc + (1 / Rc ^ 3 * Rc\<^sup>2) * ((eps - 1) / ?d) - 1 / Rc * ((3 * eps) / ?d)"
    by simp
  also have "\<dots> = (1 / Rc) * (1 + (eps - 1) / ?d - (3 * eps) / ?d)"
    unfolding a by (simp add: algebra_simps)
  also have "1 + (eps - 1) / ?d - (3 * eps) / ?d = 0"
    using assms(2) by (simp add: field_simps)
  finally show ?thesis by simp
qed

lemma num_Inr_iff: "num x = Inr v \<longleftrightarrow> x = Some v"
  by (cases x) (simp_all add: num_def)

lemma evaluate_elec_rfa_returns:
  assumes "evaluate_elec i j chg a14 v14 EF r True eps Rc = Inr res"
  shows "2 * eps + 1 \<noteq> 0 \<and>
         (\<exists>s. (case find_col a14 i j [0..<shape a14 ! 1] of
                 None \<Rightarrow> Some 1
               | Some e \<Rightarrow> item v14 [i, e]) = Some s \<and> s \<noteq> 0)"
  using assms
  by (auto simp: evaluate_elec_def Let_def bindE_Inr_iff divE_Inr_iff num_Inr_iff)

lemma evaluate_elec_rfa_at_cutoff:
  assumes "Rc \<noteq> 0" "2 * eps + 1 \<noteq> 0"
    and "(case find_col a14 i j [0..<shape a14 ! 1] of
            None \<Rightarrow> Some 1
          | Some e \<Rightarrow> item v14 [i, e]) = Some s" "s \<noteq> 0"
  shows "\<exists>force. evaluate_elec i j chg a14 v14 EF Rc True eps Rc = Inr (0, force)"
proof -
  have z: "1 / Rc + (1 / Rc ^ 3 * (eps - 1) / (2 * eps + 1)) * Rc\<^sup>2
           - 1 / Rc * (3 * eps) / (2 * eps + 1) = 0"
    using assms(1,2) by (rule rf_potential_zero)
  show ?thesis
    using assms z
    by (simp add: evaluate_elec_def Let_def bindE_def divE_def num_def)
qed

text \<open>
  Claim C4. With the reaction field on, the Coulomb potential that \<open>evaluate_elec\<close> returns at
  \<open>r = R\<^sub>c\<close> is exactly zero, for every cutoff \<open>R\<^sub>c > 0\<close>, every solvent dielectric and every
  charge product: \<open>C * (1 / R\<^sub>c + k\<^sub>r\<^sub>f * R\<^sub>c\<^sup>2 - c\<^sub>r\<^sub>f) = 0\<close>. The kernel returns whenever
  \<open>2 * eps + 1\<close> and the 1-4 scale of the pair are not zero.
\<close>

theorem reaction_field_zero_at_cutoff:
  assumes "0 < Rc"
  shows "(\<forall>pot force. evaluate_elec i j chg a14 v14 EF Rc True eps Rc = Inr (pot, force)
            \<longrightarrow> pot = 0) \<and>
         (2 * eps + 1 \<noteq> 0 \<longrightarrow>
          (case find_col a14 i j [0..<shape a14 ! 1] of
             None \<Rightarrow> True
           | Some e \<Rightarrow> (\<exists>s. item v14 [i, e] = Some s \<and> s \<noteq> 0)) \<longrightarrow>
          (\<exists>force. evaluate_elec i j chg a14 v14 EF Rc True eps Rc = Inr (0, force)))"
proof (intro conjI allI impI)
  fix pot force
  assume r: "evaluate_elec i j chg a14 v14 EF Rc True eps Rc = Inr (pot, force)"
  from evaluate_elec_rfa_returns [OF r] obtain s where
    "2 * eps + 1 \<noteq> 0"
    "(case find_col a14 i j [0..<shape a14 ! 1] of
        None \<Rightarrow> Some 1 | Some e \<Rightarrow> item v14 [i, e]) = Some s" "s \<noteq> 0"
    by blast
  moreover have "Rc \<noteq> 0" using assms by simp
  ultimately obtain force' where
    "evaluate_elec i j chg a14 v14 EF Rc True eps Rc = Inr (0, force')"
    using evaluate_elec_rfa_at_cutoff by blast
  with r show "pot = 0" by simp
next
  assume d: "2 * eps + 1 \<noteq> 0"
    and s: "case find_col a14 i j [0..<shape a14 ! 1] of
             None \<Rightarrow> True
           | Some e \<Rightarrow> (\<exists>s. item v14 [i, e] = Some s \<and> s \<noteq> 0)"
  from s obtain sc where sc: "(case find_col a14 i j [0..<shape a14 ! 1] of
                     None \<Rightarrow> Some 1
                   | Some e \<Rightarrow> item v14 [i, e]) = Some sc" "sc \<noteq> 0"
    by (auto split: option.splits)
  have "Rc \<noteq> 0" using assms by simp
  from evaluate_elec_rfa_at_cutoff [OF this d sc]
  show "\<exists>force. evaluate_elec i j chg a14 v14 EF Rc True eps Rc = Inr (0, force)" .
qed

theorem reaction_field_zero_at_cutoff_witness:
  "\<exists>force. evaluate_elec 0 1 ex_charge ex_e14a ex_e14v 332 12 True 78.5 12 = Inr (0, force)"
  using reaction_field_zero_at_cutoff [of 12 0 1 ex_charge ex_e14a ex_e14v 332 "78.5"]
  by (simp add: ex_e14a_def)

lemma wrap_diff_range:
  "(- pi < wrap_diff d \<and> wrap_diff d \<le> pi) \<longleftrightarrow> (- 3 * pi < d \<and> d \<le> 3 * pi \<and> d \<noteq> - pi)"
  using pi_gt_zero by (auto simp: wrap_diff_def)

text \<open>
  Claim C9 (amended). For a torsion component with periodicity \<open>n \<le> 0\<close> the deviation
  \<open>phi - phi0\<close> is shifted by one period at most (by \<open>2 * pi\<close> upwards when it is below \<open>-pi\<close>,
  downwards when it is above \<open>pi\<close>) before \<open>k * delta\<^sup>2\<close> and \<open>2 * k * delta\<close> are accumulated;
  the shifted value lies in \<open>(-pi, pi]\<close> exactly when \<open>-3 * pi < phi - phi0 \<le> 3 * pi\<close> and
  \<open>phi - phi0 \<noteq> -pi\<close>.
\<close>

theorem harmonic_improper_wrap:
  assumes "tp ! (i * 3 + 0) = Some k0" "tp ! (i * 3 + 1) = Some phi0"
    and "tp ! (i * 3 + 2) = Some n" "n \<le> 0"
  shows "torsion_term tp phi i (pot, coef) =
           (pot + k0 * (wrap_diff (phi - phi0))\<^sup>2, coef + 2 * k0 * wrap_diff (phi - phi0)) \<and>
         wrap_diff (phi - phi0) =
           (if phi - phi0 < - pi then phi - phi0 + 2 * pi
            else if phi - phi0 > pi then phi - phi0 - 2 * pi
            else phi - phi0) \<and>
         ((- pi < wrap_diff (phi - phi0) \<and> wrap_diff (phi - phi0) \<le> pi) \<longleftrightarrow>
          (- 3 * pi < phi - phi0 \<and> phi - phi0 \<le> 3 * pi \<and> phi - phi0 \<noteq> - pi))"
  using assms wrap_diff_range [of "phi - phi0"]
  by (simp add: torsion_term_def Let_def) (simp add: wrap_diff_def)

theorem harmonic_improper_wrap_witness:
  "torsion_term [Some 2, Some 1, Some 0] 3 0 (0, 0) = (2 * (wrap_diff (3 - 1))\<^sup>2, 2 * 2 * wrap_diff (3 - 1)) \<and>
   - pi < wrap_diff (3 - 1) \<and> wrap_diff (3 - 1) \<le> pi"
  using harmonic_improper_wrap [of "[Some 2, Some 1, Some 0]" 0 2 1 0 3 0 0] pi_ge_two pi_gt_zero
  by simp

text \<open>
  Claim C9 as stated fails: with \<open>phi = 0\<close> and phase \<open>pi\<close> the deviation \<open>-pi\<close> is kept
  (the derivative is \<open>-2 * k * pi\<close>), and with phase \<open>4 * pi\<close> the deviation becomes \<open>-2 * pi\<close>.
\<close>

theorem harmonic_improper_wrap_counterexample:
  "\<not> (- pi < wrap_diff (0 - pi) \<and> wrap_diff (0 - pi) \<le> pi) \<and>
   torsion_term [Some 1, Some pi, Some 0] 0 0 (0, 0) = (1 * (- pi)\<^sup>2, 2 * 1 * (- pi)) \<and>
   \<not> (- pi < wrap_diff (0 - 4 * pi) \<and> wrap_diff (0 - 4 * pi) \<le> pi) \<and>
   torsion_term [Some 1, Some (4 * pi), Some 0] 0 0 (0, 0) = (1 * (- 2 * pi)\<^sup>2, 2 * 1 * (- 2 * pi))"
  using pi_gt_zero by (simp add: torsion_term_def wrap_diff_def Let_def)

lemma add_at_zero [simp]: "add_at a idx 0 = a"
  by (simp add: add_at_def)

lemma item_add_at: "item (add_at a idx v) idx' = item a idx' + (if idx' = idx then v else 0)"
  by (simp add: add_at_def)

lemma shape_add_at [simp]: "shape (add_at a idx v) = shape a"
  by (simp add: add_at_def)

lemma pair_update_zero [simp]: "pair_update f i j 0 0 0 0 u st = st"
  by (simp add: pair_update_def)

lemma bindE_Inr [simp]: "bindE (Inr x) k = k x"
  by (simp add: bindE_def)

lemma bindE_Inl [simp]: "bindE (Inl e) k = Inl e"
  by (simp add: bindE_def)

lemma pair_body_excluded_not_bonded:
  assumes "ispaired (excl a) i j" "\<not> ispaired (bonda a) i j"
  shows "pair_body nu coords box a f i j st = Inr st"
  using assms by (simp add: pair_body_def Let_def)

lemma pair_body_excluded_bonded:
  assumes "ispaired (excl a) i j" "ispaired (bonda a) i j"
  shows "pair_body nu coords box a f i j st =
           (if (usersets a \<and> \<not> insets i j (set1 a) (set2 a)) \<or>
               (cutoff a \<noteq> 0 \<and> pair_dist nu coords box f i j > cutoff a)
            then Inr st
            else bindE (evaluate_harmonic_bonds i j (bonda a) (bondv a)
                          (pair_dist nu coords box f i j)) (\<lambda>(pot_bo, force_bo).
                 if pair_dist nu coords box f i j = 0 then Inl NotANumber
                 else Inr (pair_update f i j pot_bo 0 0 force_bo
                             (\<lambda>k. pair_vec nu coords box f i j k / pair_dist nu coords box f i j)
                             st)))"
  using assms
  by (cases "evaluate_harmonic_bonds i j (bonda a) (bondv a) (pair_dist nu coords box f i j)")
     (auto simp: pair_body_def Let_def pair_dist_def pair_vec_def pair_update_def
           split: prod.splits)

lemma pair_body_eq:
  "pair_body nu coords box a f i j st =
     (if (usersets a \<and> \<not> insets i j (set1 a) (set2 a)) \<or>
         (ispaired (excl a) i j \<and> \<not> ispaired (bonda a) i j) \<or>
         (cutoff a \<noteq> 0 \<and> pair_dist nu coords box f i j > cutoff a)
      then Inr st
      else
        bindE (if ispaired (bonda a) i j
               then evaluate_harmonic_bonds i j (bonda a) (bondv a) (pair_dist nu coords box f i j)
               else Inr (0, 0)) (\<lambda>(pot_bo, force_bo).
        bindE (if \<not> ispaired (excl a) i j
               then bindE (evaluate_lj i j (typeint a) (nbfix a) (sigma a) (sigma14 a)
                             (epsilon a) (epsilon14 a) (s14a a) (s14v a)
                             (pair_dist nu coords box f i j)) (\<lambda>(pot_lj, force_lj).
                    bindE (evaluate_elec i j (charge a) (e14a a) (e14v a) (ELEC_FACTOR a)
                             (pair_dist nu coords box f i j) (rfa a) (solventDielectric a)
                             (cutoff a)) (\<lambda>(pot_el, force_el).
                    Inr (pot_lj, pot_el, force_lj, force_el)))
               else Inr (0, 0, 0, 0)) (\<lambda>(pot_lj, pot_el, force_lj, force_el).
        if pair_dist nu coords box f i j = 0 then Inl NotANumber
        else Inr (pair_update f i j pot_bo pot_lj pot_el (force_bo + force_lj + force_el)
                    (\<lambda>k. pair_vec nu coords box f i j k / pair_dist nu coords box f i j) st))))"
proof -
  let ?d = "pair_dist nu coords box f i j"
  obtain rb where rb: "evaluate_harmonic_bonds i j (bonda a) (bondv a) ?d = rb" by simp
  obtain rl where rl: "evaluate_lj i j (typeint a) (nbfix a) (sigma a) (sigma14 a)
                             (epsilon a) (epsilon14 a) (s14a a) (s14v a) ?d = rl" by simp
  obtain re where re: "evaluate_elec i j (charge a) (e14a a) (e14v a) (ELEC_FACTOR a)
                             ?d (rfa a) (solventDielectric a) (cutoff a) = re" by simp
  show ?thesis
    unfolding pair_body_def Let_def pair_vec_def [symmetric]
    unfolding pair_dist_def [symmetric] rb rl re
    by (cases rb; cases rl; cases re)
       (auto simp: pair_update_def split: prod.splits)
qed

lemma pair_body_Inr:
  assumes "pair_body nu coords box a f i j st = Inr st'"
  shows "\<exists>pot_bo pot_lj pot_el coeff u. st' = pair_update f i j pot_bo pot_lj pot_el coeff u st"
proof (cases "(usersets a \<and> \<not> insets i j (set1 a) (set2 a)) \<or>
              (ispaired (excl a) i j \<and> \<not> ispaired (bonda a) i j) \<or>
              (cutoff a \<noteq> 0 \<and> pair_dist nu coords box f i j > cutoff a)")
  case True
  with assms have "st' = st"
    by (simp add: pair_body_eq)
  then have "st' = pair_update f i j 0 0 0 0 (\<lambda>_. 0) st" by simp
  then show ?thesis by blast
next
  case False
  with assms show ?thesis
    by (auto simp: pair_body_eq bindE_Inr_iff split: if_splits; blast)
qed

lemma sum_delta_lessThan:
  fixes v :: real and n :: nat
  shows "(\<Sum>x<n. if x = y then v else 0) = (if y < n then v else 0)"
  by (subst sum.delta) auto

lemma esum_add_at:
  "esum (add_at E [c0, f0] v) f = esum E f + (if c0 < 6 \<and> f0 = f then v else 0)"
proof -
  have "esum (add_at E [c0, f0] v) f
      = (\<Sum>c<6. item E [c, f] + (if c = c0 then (if f0 = f then v else 0) else 0))"
    unfolding esum_def by (intro sum.cong) (auto simp: item_add_at)
  also have "\<dots> = esum E f + (\<Sum>c<6. if c = c0 then (if f0 = f then v else 0) else 0)"
    by (simp add: sum.distrib esum_def)
  finally show ?thesis by (simp only: sum_delta_lessThan) simp
qed

lemma fsum_add_at:
  "fsum n (add_at F [i0, k0, f0] v) k f =
     fsum n F k f + (if i0 < n \<and> k0 = k \<and> f0 = f then v else 0)"
proof -
  have "fsum n (add_at F [i0, k0, f0] v) k f
      = (\<Sum>i<n. item F [i, k, f] + (if i = i0 then (if k0 = k \<and> f0 = f then v else 0) else 0))"
    unfolding fsum_def by (intro sum.cong) (auto simp: item_add_at)
  also have "\<dots> = fsum n F k f + (\<Sum>i<n. if i = i0 then (if k0 = k \<and> f0 = f then v else 0) else 0)"
    by (simp add: sum.distrib fsum_def)
  finally show ?thesis by (simp only: sum_delta_lessThan) simp
qed

lemma asum_add_at:
  "asum n (add_at A [i0, c0, f0] v) f =
     asum n A f + (if i0 < n \<and> c0 < 6 \<and> f0 = f then v else 0)"
proof -
  have "asum n (add_at A [i0, c0, f0] v) f
      = (\<Sum>i<n. (\<Sum>c<6. item A [i, c, f]) +
                 (if i = i0 then (if c0 < 6 \<and> f0 = f then v else 0) else 0))"
    unfolding asum_def
  proof (intro sum.cong refl)
    fix i
    have "(\<Sum>c<6. item (add_at A [i0, c0, f0] v) [i, c, f])
        = (\<Sum>c<6. item A [i, c, f] + (if c = c0 then (if i = i0 \<and> f0 = f then v else 0) else 0))"
      by (intro sum.cong) (auto simp: item_add_at)
    also have "\<dots> = (\<Sum>c<6. item A [i, c, f]) +
                     (\<Sum>c<6. if c = c0 then (if i = i0 \<and> f0 = f then v else 0) else 0)"
      by (simp add: sum.distrib)
    finally show "(\<Sum>c<6. item (add_at A [i0, c0, f0] v) [i, c, f])
        = (\<Sum>c<6. item A [i, c, f]) + (if i = i0 then (if c0 < 6 \<and> f0 = f then v else 0) else 0)"
      by (simp only: sum_delta_lessThan) simp
  qed
  also have "\<dots> = asum n A f +
                   (\<Sum>i<n. if i = i0 then (if c0 < 6 \<and> f0 = f then v else 0) else 0)"
    by (simp add: sum.distrib asum_def)
  finally show ?thesis by (simp only: sum_delta_lessThan) simp
qed

lemma pair_update_energy:
  assumes "i < n" "j < n"
  shows "esum (energies (pair_update f i j pb pl pe c u st)) f' -
         asum n (atmnrg (pair_update f i j pb pl pe c u st)) f' =
         esum (energies st) f' - asum n (atmnrg st) f'"
  using assms by (simp add: pair_update_def esum_add_at asum_add_at)

lemma pair_update_force:
  assumes "i < n" "j < n"
  shows "fsum n (forces (pair_update f i j pb pl pe c u st)) k f' = fsum n (forces st) k f'"
  using assms by (simp add: pair_update_def fsum_add_at)

lemma evaluate_angles_force_sum:
  assumes "evaluate_angles nu pos ap box = Inr (pot, force)"
  shows "force 0 k + force 1 k + force 2 k = 0"
  using assms
  by (auto simp: evaluate_angles_def Let_def bindE_Inr_iff)

lemma evaluate_torsion_force_sum:
  assumes "evaluate_torsion nu pos tp box = Inr (pot, force)"
  shows "force 0 k + force 1 k + force 2 k + force 3 k = 0"
  using assms
  by (auto simp: evaluate_torsion_def Let_def bindE_Inr_iff case_prod_beta)

lemma in_rangeD: "in_range quads w n \<Longrightarrow> i < shape quads ! 0 \<Longrightarrow> x < w \<Longrightarrow> item quads [i, x] < n"
  by (simp add: in_range_def list_all_iff)

lemma foldE_invariant:
  assumes "foldE g xs s = Inr s'" "P s"
    and "\<And>x s s'. x \<in> set xs \<Longrightarrow> P s \<Longrightarrow> g x s = Inr s' \<Longrightarrow> P s'"
  shows "P s'"
  using assms
proof (induction xs arbitrary: s)
  case Nil
  then show ?case by simp
next
  case (Cons x xs)
  from Cons.prems(1) obtain s1 where s1: "g x s = Inr s1" "foldE g xs s1 = Inr s'"
    by (auto simp: bindE_Inr_iff)
  have "P s1" using Cons.prems(2,3) s1(1) by auto
  then show ?case using Cons.IH [OF s1(2)] Cons.prems(3) by auto
qed

lemma angle_body_energy:
  assumes "angle_body nu coords box a f i st = Inr st'"
    and "item (angles a) [i, 0] < n" "item (angles a) [i, 1] < n" "item (angles a) [i, 2] < n"
  shows "esum (energies st') f' - asum n (atmnrg st') f' =
         esum (energies st) f' - asum n (atmnrg st) f'"
  using assms
  by (auto simp: angle_body_def bindE_Inr_iff esum_add_at asum_add_at)

lemma angle_body_force:
  assumes "angle_body nu coords box a f i st = Inr st'"
    and "item (angles a) [i, 0] < n" "item (angles a) [i, 1] < n" "item (angles a) [i, 2] < n"
  shows "fsum n (forces st') k f' = fsum n (forces st) k f'"
proof -
  from assms(1) obtain pot force where
    e: "evaluate_angles nu (\<lambda>x k. item coords [item (angles a) [i, x], k, f])
              (row (angle_params a) i) (\<lambda>k. item box [k, f]) = Inr (pot, force)"
    and s: "st' = fold (\<lambda>x st.
                  st\<lparr>forces := fold (\<lambda>k F. add_at F [item (angles a) [i, x], k, f] (force x k))
                                  [0, 1, 2] (forces st),
                     atmnrg := add_at (atmnrg st) [item (angles a) [i, x], 3, f] (pot / 3)\<rparr>)
            [0, 1, 2]
            (st\<lparr>energies := add_at (energies st) [3, f] pot\<rparr>)"
    by (auto simp: angle_body_def bindE_Inr_iff)
  have z: "force 0 k + force 1 k + force 2 k = 0" for k
    using evaluate_angles_force_sum [OF e] .
  show ?thesis
    using assms(2-4) z [of k]
    unfolding s by (auto simp: fsum_add_at)
qed

lemma torsion_body_energy:
  assumes "torsion_body nu coords box quads params c f i st = Inr st'"
    and "item quads [i, 0] < n" "item quads [i, 1] < n" "item quads [i, 2] < n"
        "item quads [i, 3] < n" "c < 6"
  shows "esum (energies st') f' - asum n (atmnrg st') f' =
         esum (energies st) f' - asum n (atmnrg st) f'"
  using assms
  by (auto simp: torsion_body_def bindE_Inr_iff esum_add_at asum_add_at)

lemma torsion_body_force:
  assumes "torsion_body nu coords box quads params c f i st = Inr st'"
    and "item quads [i, 0] < n" "item quads [i, 1] < n" "item quads [i, 2] < n"
        "item quads [i, 3] < n"
  shows "fsum n (forces st') k f' = fsum n (forces st) k f'"
proof -
  from assms(1) obtain pot force where
    e: "evaluate_torsion nu (\<lambda>x k. item coords [item quads [i, x], k, f])
              (row params i) (\<lambda>k. item box [k, f]) = Inr (pot, force)"
    and s: "st' = fold (\<lambda>d st.
                  st\<lparr>forces := fold (\<lambda>k F. add_at F [item quads [i, d], k, f] (force d k))
                                  [0, 1, 2] (forces st),
                     atmnrg := add_at (atmnrg st) [item quads [i, d], c, f] (pot / 4)\<rparr>)
            [0, 1, 2, 3]
            (st\<lparr>energies := add_at (energies st) [c, f] pot\<rparr>)"
    by (auto simp: torsion_body_def bindE_Inr_iff)
  have z: "force 0 k + force 1 k + force 2 k + force 3 k = 0" for k
    using evaluate_torsion_force_sum [OF e] .
  show ?thesis
    using assms(2-5) z [of k]
    unfolding s by (auto simp: fsum_add_at)
qed

lemma pair_loops_invariant:
  assumes "foldE (\<lambda>i. foldE (pair_body nu coords box a f i) [i + 1..<n]) [0..<n] st = Inr st'"
    and "P st"
    and "\<And>i j pb pl pe c u s. i < n \<Longrightarrow> j < n \<Longrightarrow> P s \<Longrightarrow> P (pair_update f i j pb pl pe c u s)"
  shows "P st'"
proof (rule foldE_invariant [where P = P, OF assms(1,2)])
  fix i s s'
  assume i: "i \<in> set [0..<n]" and s: "P s"
    and r: "foldE (pair_body nu coords box a f i) [i + 1..<n] s = Inr s'"
  show "P s'"
  proof (rule foldE_invariant [where P = P, OF r s])
    fix j t t'
    assume j: "j \<in> set [i + 1..<n]" and t: "P t"
      and b: "pair_body nu coords box a f i j t = Inr t'"
    from pair_body_Inr [OF b] obtain pb pl pe c u where
      "t' = pair_update f i j pb pl pe c u t" by blast
    with assms(3) [of i j t] i j t show "P t'" by simp
  qed
qed

lemma frame_body_energy:
  assumes "frame_body nu coords box a f st = Inr st'"
    and "in_range (angles a) 3 (shape coords ! 0)"
    and "in_range (dihedrals a) 4 (shape coords ! 0)"
    and "in_range (impropers a) 4 (shape coords ! 0)"
  shows "esum (energies st') f' - asum (shape coords ! 0) (atmnrg st') f' =
         esum (energies st) f' - asum (shape coords ! 0) (atmnrg st) f'"
proof -
  let ?n = "shape coords ! 0"
  let ?d = "\<lambda>s. esum (energies s) f' - asum ?n (atmnrg s) f'"
  let ?P = "\<lambda>s. ?d s = ?d st"
  from assms(1) obtain s1 where
    p: "foldE (\<lambda>i. foldE (pair_body nu coords box a f i) [i + 1..<?n]) [0..<?n] st = Inr s1"
    and r: "(if usersets a then Inr s1
             else bindE (foldE (angle_body nu coords box a f) [0..<shape (angles a) ! 0] s1) (\<lambda>st.
                  bindE (foldE (torsion_body nu coords box (dihedrals a) (dihedral_params a) 4 f)
                           [0..<shape (dihedrals a) ! 0] st) (\<lambda>st.
                  foldE (torsion_body nu coords box (impropers a) (improper_params a) 5 f)
                    [0..<shape (impropers a) ! 0] st))) = Inr st'"
    by (auto simp: frame_body_def Let_def bindE_Inr_iff)
  have 1: "?P s1"
    by (rule pair_loops_invariant [where P = ?P, OF p]) (simp_all add: pair_update_energy)
  show ?thesis
  proof (cases "usersets a")
    case True
    with r 1 show ?thesis by simp
  next
    case False
    with r obtain s2 s3 where
      a: "foldE (angle_body nu coords box a f) [0..<shape (angles a) ! 0] s1 = Inr s2"
      and d: "foldE (torsion_body nu coords box (dihedrals a) (dihedral_params a) 4 f)
                [0..<shape (dihedrals a) ! 0] s2 = Inr s3"
      and i: "foldE (torsion_body nu coords box (impropers a) (improper_params a) 5 f)
                [0..<shape (impropers a) ! 0] s3 = Inr st'"
      by (auto simp: bindE_Inr_iff)
    have 2: "?P s2"
      by (rule foldE_invariant [where P = ?P, OF a 1])
         (simp add: angle_body_energy [where n = ?n] in_rangeD [OF assms(2)])
    have 3: "?P s3"
      by (rule foldE_invariant [where P = ?P, OF d 2])
         (simp add: torsion_body_energy [where n = ?n] in_rangeD [OF assms(3)])
    show ?thesis
      by (rule foldE_invariant [where P = ?P, OF i 3])
         (simp add: torsion_body_energy [where n = ?n] in_rangeD [OF assms(4)])
  qed
qed

lemma frame_body_force:
  assumes "frame_body nu coords box a f st = Inr st'"
    and "in_range (angles a) 3 (shape coords ! 0)"
    and "in_range (dihedrals a) 4 (shape coords ! 0)"
    and "in_range (impropers a) 4 (shape coords ! 0)"
  shows "fsum (shape coords ! 0) (forces st') k f' = fsum (shape coords ! 0) (forces st) k f'"
proof -
  let ?n = "shape coords ! 0"
  let ?d = "\<lambda>s. fsum ?n (forces s) k f'"
  let ?P = "\<lambda>s. ?d s = ?d st"
  from assms(1) obtain s1 where
    p: "foldE (\<lambda>i. foldE (pair_body nu coords box a f i) [i + 1..<?n]) [0..<?n] st = Inr s1"
    and r: "(if usersets a then Inr s1
             else bindE (foldE (angle_body nu coords box a f) [0..<shape (angles a) ! 0] s1) (\<lambda>st.
                  bindE (foldE (torsion_body nu coords box (dihedrals a) (dihedral_params a) 4 f)
                           [0..<shape (dihedrals a) ! 0] st) (\<lambda>st.
                  foldE (torsion_body nu coords box (impropers a) (improper_params a) 5 f)
                    [0..<shape (impropers a) ! 0] st))) = Inr st'"
    by (auto simp: frame_body_def Let_def bindE_Inr_iff)
  have 1: "?P s1"
    by (rule pair_loops_invariant [where P = ?P, OF p]) (simp_all add: pair_update_force)
  show ?thesis
  proof (cases "usersets a")
    case True
    with r 1 show ?thesis by simp
  next
    case False
    with r obtain s2 s3 where
      a: "foldE (angle_body nu coords box a f) [0..<shape (angles a) ! 0] s1 = Inr s2"
      and d: "foldE (torsion_body nu coords box (dihedrals a) (dihedral_params a) 4 f)
                [0..<shape (dihedrals a) ! 0] s2 = Inr s3"
      and i: "foldE (torsion_body nu coords box (impropers a) (improper_params a) 5 f)
                [0..<shape (impropers a) ! 0] s3 = Inr st'"
      by (auto simp: bindE_Inr_iff)
    have 2: "?P s2"
      by (rule foldE_invariant [where P = ?P, OF a 1])
         (simp add: angle_body_force [where n = ?n] in_rangeD [OF assms(2)])
    have 3: "?P s3"
      by (rule foldE_invariant [where P = ?P, OF d 2])
         (simp add: torsion_body_force [where n = ?n] in_rangeD [OF assms(3)])
    show ?thesis
      by (rule foldE_invariant [where P = ?P, OF i 3])
         (simp add: torsion_body_force [where n = ?n] in_rangeD [OF assms(4)])
  qed
qed

lemma esum_zeros [simp]: "esum (zeros shp) f = 0"
  by (simp add: esum_def zeros_def)

lemma asum_zeros [simp]: "asum n (zeros shp) f = 0"
  by (simp add: asum_def zeros_def)

lemma fsum_zeros [simp]: "fsum n (zeros shp) k f = 0"
  by (simp add: fsum_def zeros_def)

text \<open>
  Claim C1. For every input on which the evaluation returns and every frame \<open>f\<close>, the sum
  of the six energy components \<open>energies[:, f]\<close> equals the sum of the per-atom attribution
  \<open>atmnrg[:, :, f]\<close> over all atoms and components. The index arrays name atoms of the
  coordinate array.
\<close>

theorem energy_decomposition:
  assumes "ffevaluate nu coords box a = Inr out"
    and "in_range (angles a) 3 (shape coords ! 0)"
    and "in_range (dihedrals a) 4 (shape coords ! 0)"
    and "in_range (impropers a) 4 (shape coords ! 0)"
  shows "(\<Sum>c<6. item (energies out) [c, f]) =
         (\<Sum>i<shape coords ! 0. \<Sum>c<6. item (atmnrg out) [i, c, f])"
proof -
  let ?n = "shape coords ! 0"
  let ?P = "\<lambda>s. esum (energies s) f - asum ?n (atmnrg s) f = 0"
  from assms(1) have "?P out"
    unfolding ffevaluate_def Let_def
    by (rule foldE_invariant [where P = ?P]) (simp_all add: frame_body_energy [OF _ assms(2-4)])
  then show ?thesis by (simp add: esum_def asum_def)
qed

text \<open>
  Claim C2. For every input on which the evaluation returns, every frame \<open>f\<close> and every
  axis \<open>k\<close>, the forces \<open>forces[:, k, f]\<close> sum to zero over the atoms.
\<close>

theorem total_force_vanishes:
  assumes "ffevaluate nu coords box a = Inr out"
    and "in_range (angles a) 3 (shape coords ! 0)"
    and "in_range (dihedrals a) 4 (shape coords ! 0)"
    and "in_range (impropers a) 4 (shape coords ! 0)"
  shows "(\<Sum>i<shape coords ! 0. item (forces out) [i, k, f]) = 0"
proof -
  let ?n = "shape coords ! 0"
  let ?P = "\<lambda>s. fsum ?n (forces s) k f = 0"
  from assms(1) have "?P out"
    unfolding ffevaluate_def Let_def
    by (rule foldE_invariant [where P = ?P]) (simp_all add: frame_body_force [OF _ assms(2-4)])
  then show ?thesis by (simp add: fsum_def)
qed

lemma ex_unique_types: "unique_types (atomtype ex_mol) = [''C'', ''H'']"
  by (simp add: unique_types_def ex_mol_def)

lemma ex_unique_inverse: "unique_inverse (atomtype ex_mol) = [1, 0, 0, 1]"
  by (simp add: unique_types_def unique_inverse_def index_of_def ex_mol_def)

lemma ex_lj_vectors: "lj_vectors ex_prm [''C'', ''H''] = Inr ([3, 3], [2, 2], [1, 1], [1, 1])"
  by (simp add: ex_prm_def ex_atom_def)

lemma ex_bonds:
  "foldE (bond_step ex_prm [''C'', ''H''] [1, 0, 0, 1]) [[0, 1], [1, 2], [2, 3]]
     (replicate 4 [], replicate 4 [], replicate 4 []) =
   Inr ([[1], [2], [3], []], [[1], [2], [3], []], [[100, 1], [200, 1], [100, 1], []])"
  by (simp add: bond_step_def types_of_def append_at_def ex_prm_def numeral_eq_Suc)

lemma ex_angles:
  "foldE (angle_step ex_prm [''C'', ''H''] [1, 0, 0, 1]) [[0, 1, 2], [1, 2, 3]]
     ([[1], [2], [3], []], []) =
   Inr ([[1, 2], [2, 3], [3], []], [[50, radians 90], [50, radians 90]])"
  by (simp add: angle_step_def types_of_def append_at_def ex_prm_def)

lemma ex_wildcard:
  "wildcard_substituted [''H'', ''C'', ''C'', ''H''] [[''X'', ''C'', ''C'', ''X'']] =
   Inr [''X'', ''C'', ''C'', ''X'']"
  by (simp add: wildcard_substituted_def)

lemma ex_dihedral_lookup:
  "dihedral_lookup ex_prm [''H'', ''C'', ''C'', ''H''] =
   Inr [\<lparr>dih_phi_k = 1, dih_per = 3, dih_phase = 0, dih_scee = 6 / 5, dih_scnb = 2\<rparr>]"
  by (simp add: dihedral_lookup_def ex_prm_def ex_wildcard)

lemma ex_dihedral_step:
  "dihedral_step ex_prm [''C'', ''H''] [1, 0, 0, 1] [0, 1, 2, 3]
     \<lparr>alreadyadded = [],
      s14_atom_list = replicate 4 [],
      s14_value_list = replicate 4 [],
      e14_atom_list = replicate 4 [],
      e14_value_list = replicate 4 [],
      dihedral_rows = []\<rparr> = Inr ex_dihedral_state"
  by (simp add: dihedral_step_def types_of_def append_at_def ex_dihedral_lookup
        ex_dihedral_state_def numeral_eq_Suc)

lemma ex_init_eq: "init ex_const ex_mol ex_prm = Inr ex_init"
proof -
  have m: "atomtype ex_mol = [''H'', ''C'', ''C'', ''H'']"
    "mol_bonds ex_mol = [[0, 1], [1, 2], [2, 3]]"
    "mol_angles ex_mol = [[0, 1, 2], [1, 2, 3]]"
    "mol_dihedrals ex_mol = [[0, 1, 2, 3]]"
    "mol_impropers ex_mol = []"
    "mol_charge ex_mol = [1, - 1, - 1, 1]"
    by (simp_all add: ex_mol_def)
  have n: "nbfix_types ex_prm = []" by (simp add: ex_prm_def)
  have len: "length [''H'', ''C'', ''C'', ''H''] = 4" by simp
  have d: "foldE (dihedral_step ex_prm [''C'', ''H''] [1, 0, 0, 1]) [[0, 1, 2, 3]]
     \<lparr>alreadyadded = [],
      s14_atom_list = replicate 4 [],
      s14_value_list = replicate 4 [],
      e14_atom_list = replicate 4 [],
      e14_value_list = replicate 4 [],
      dihedral_rows = []\<rparr> = Inr ex_dihedral_state"
    by (simp only: foldE.simps ex_dihedral_step bindE_Inr)
  have i: "foldE (improper_step ex_prm [''C'', ''H''] [1, 0, 0, 1] [[0, 1], [1, 2], [2, 3]]) [] [] =
           Inr []"
    by simp
  have e: "map (\<lambda>x. sort (remdups x)) [[1, 2], [2, 3], [3], []] = [[1, 2], [2, 3], [3], [] :: nat list]"
    by simp
  have v: "map (map int) [[1, 2], [2, 3], [3], []] = [[1, 2], [2, 3], [3], []]"
    "map (map int) [[3], [], [], []] = [[3], [], [], []]"
    "map (map int) [[1], [2], [3], []] = [[1], [2], [3], []]"
    "map (map Some) [[2], [], [], []] = [[Some 2], [], [], [] :: real option list]"
    "map (map Some) [[6 / 5], [], [], []] = [[Some (6 / 5)], [], [], [] :: real option list]"
    "map (map Some) [[100, 1], [200, 1], [100, 1], []] =
       [[Some 100, Some 1], [Some 200, Some 1], [Some 100, Some 1], [] :: real option list]"
    "map (map Some) [[1, radians 0, 3]] = [[Some 1, Some (radians 0), Some 3]]"
    "map (map Some) ([] :: real list list) = []"
    by simp_all
  show ?thesis
    unfolding init_def Let_def numAtoms_def ex_unique_types ex_unique_inverse
    unfolding m n len
    by (simp only: ex_lj_vectors ex_bonds ex_angles d i e v mapE.simps bindE_Inr prod.case
          ex_dihedral_state_def ex_init_def dihedral_state.simps)
qed

lemma ex_FFEvaluate_init:
  "FFEvaluate_init ex_atomselect ex_const ex_mol ex_prm None 0 False (157 / 2) = Inr ex_args"
  by (simp add: FFEvaluate_init_def calculateSets_def ex_init_eq ex_args_def)

lemma foldE_returns:
  assumes "\<And>x s. x \<in> set xs \<Longrightarrow> \<exists>s'. g x s = Inr s'"
  shows "\<exists>s'. foldE g xs s = Inr s'"
  using assms
proof (induction xs arbitrary: s)
  case Nil
  then show ?case by simp
next
  case (Cons x xs)
  from Cons.prems [of x s] obtain s1 where "g x s = Inr s1" by auto
  moreover from Cons.IH [of s1] Cons.prems obtain s2 where "foldE g xs s1 = Inr s2" by auto
  ultimately show ?case by auto
qed

lemma ex_args_fields:
  "bonda ex_args = nestedListToArray [[1], [2], [3], []] (- 1)"
  "excl ex_args = nestedListToArray [[1, 2], [2, 3], [3], []] (- 1)"
  "bondv ex_args =
     nestedListToArray [[Some 100, Some 1], [Some 200, Some 1], [Some 100, Some 1], []] None"
  "set1 ex_args = []" "set2 ex_args = []" "cutoff ex_args = 0" "rfa ex_args = False"
  "s14a ex_args = nestedListToArray [[3], [], [], []] (- 1)"
  "e14a ex_args = nestedListToArray [[3], [], [], []] (- 1)"
  "s14v ex_args = nestedListToArray [[Some 2], [], [], []] None"
  "e14v ex_args = nestedListToArray [[Some (6 / 5)], [], [], []] None"
  "typeint ex_args = of_list [1, 0, 0, 1]"
  "nbfix ex_args = of_rows 6 []"
  "sigma ex_args = of_list [3, 3]" "sigma14 ex_args = of_list [2, 2]"
  "epsilon ex_args = of_list [1, 1]" "epsilon14 ex_args = of_list [1, 1]"
  "angles ex_args = of_rows 3 [[0, 1, 2], [1, 2, 3]]"
  "angle_params ex_args = of_rows 2 [[50, radians 90], [50, radians 90]]"
  "dihedrals ex_args = of_rows 4 [[0, 1, 2, 3]]"
  "dihedral_params ex_args = nestedListToArray [[Some 1, Some (radians 0), Some 3]] None"
  "impropers ex_args = of_rows 4 []"
  "improper_params ex_args = of_rows 3 []"
  by (simp_all add: ex_args_def ex_init_def init_result.defs ffargs.defs)

lemma ex_ispaired:
  "ispaired (bonda ex_args) 0 1" "ispaired (bonda ex_args) 1 2" "ispaired (bonda ex_args) 2 3"
  "\<not> ispaired (bonda ex_args) 0 2" "\<not> ispaired (bonda ex_args) 0 3"
  "\<not> ispaired (bonda ex_args) 1 3"
  "ispaired (excl ex_args) 0 1" "ispaired (excl ex_args) 1 2" "ispaired (excl ex_args) 2 3"
  "ispaired (excl ex_args) 0 2" "\<not> ispaired (excl ex_args) 0 3"
  "ispaired (excl ex_args) 1 3"
  by (simp_all add: ex_args_fields ispaired_def nestedListToArray_def upt_rec_numeral)

lemma ex_pair_vec:
  "pair_vec ex_nu ex_coords ex_box 0 i j =
     (\<lambda>k. [[1, 0, 0], [0, 0, 0], [0, 1, 0], [0, 1, 1 / 2]] ! i ! k -
          [[1, 0, 0], [0, 0, 0], [0, 1, 0], [0, 1, 1 / 2]] ! j ! k)"
  by (simp add: pair_vec_def ex_nu_def ex_wrap_def ex_coords_def ex_box_def zeros_def)

lemma ex_pair_dist:
  "pair_dist ex_nu ex_coords ex_box 0 0 1 = 1"
  "pair_dist ex_nu ex_coords ex_box 0 1 2 = 1"
  "pair_dist ex_nu ex_coords ex_box 0 2 3 = 1 / 2"
  "pair_dist ex_nu ex_coords ex_box 0 0 3 = 3 / 2"
  by (simp_all add: pair_dist_def ex_pair_vec real_sqrt_divide)

lemma ex_bond_kernel:
  "evaluate_harmonic_bonds 0 1 (bonda ex_args) (bondv ex_args) d = Inr (100 * (d - 1)\<^sup>2, 2 * 100 * (d - 1))"
  "evaluate_harmonic_bonds 1 2 (bonda ex_args) (bondv ex_args) d = Inr (200 * (d - 1)\<^sup>2, 2 * 200 * (d - 1))"
  "evaluate_harmonic_bonds 2 3 (bonda ex_args) (bondv ex_args) d = Inr (100 * (d - 1)\<^sup>2, 2 * 100 * (d - 1))"
  by (simp_all add: evaluate_harmonic_bonds_def ex_args_fields nestedListToArray_def
        upt_rec_numeral num_def)

lemma not_isl_Inr: "\<not> isl m \<Longrightarrow> \<exists>r. m = Inr r"
  by (cases m) simp_all

lemma ex_lj_kernel:
  "\<not> isl (evaluate_lj 0 3 (typeint ex_args) (nbfix ex_args) (sigma ex_args) (sigma14 ex_args)
         (epsilon ex_args) (epsilon14 ex_args) (s14a ex_args) (s14v ex_args) (3 / 2))"
  by (simp add: evaluate_lj_def getSigmaEpsilon_def ex_args_fields nestedListToArray_def
        of_list_def of_rows_def upt_rec_numeral num_def sqrtE_def divE_def Let_def)

lemma ex_elec_kernel:
  "\<not> isl (evaluate_elec 0 3 (charge ex_args) (e14a ex_args) (e14v ex_args) (ELEC_FACTOR ex_args)
         (3 / 2) (rfa ex_args) (solventDielectric ex_args) (cutoff ex_args))"
  by (simp add: evaluate_elec_def ex_args_fields nestedListToArray_def
        upt_rec_numeral num_def divE_def Let_def)

lemma ex_usersets: "\<not> usersets ex_args"
  by (simp add: usersets_def ex_args_fields)

lemma ex_pair_returns:
  assumes "i < j" "j < 4"
  shows "\<exists>st'. pair_body ex_nu ex_coords ex_box ex_args 0 i j st = Inr st'"
proof -
  from assms consider "i = 0 \<and> j = 1" | "i = 0 \<and> j = 2" | "i = 0 \<and> j = 3"
    | "i = 1 \<and> j = 2" | "i = 1 \<and> j = 3" | "i = 2 \<and> j = 3"
    by force
  then show ?thesis
  proof cases
    case 1
    then show ?thesis
      by (simp del: One_nat_def add: pair_body_excluded_bonded ex_ispaired ex_usersets ex_args_fields(6)
            ex_pair_dist ex_bond_kernel)
  next
    case 2
    then show ?thesis by (simp del: One_nat_def add: pair_body_excluded_not_bonded ex_ispaired)
  next
    case 3
    from ex_lj_kernel [THEN not_isl_Inr] ex_elec_kernel [THEN not_isl_Inr] obtain rl re where
      "evaluate_lj 0 3 (typeint ex_args) (nbfix ex_args) (sigma ex_args) (sigma14 ex_args)
         (epsilon ex_args) (epsilon14 ex_args) (s14a ex_args) (s14v ex_args) (3 / 2) = Inr rl"
      "evaluate_elec 0 3 (charge ex_args) (e14a ex_args) (e14v ex_args) (ELEC_FACTOR ex_args)
         (3 / 2) (rfa ex_args) (solventDielectric ex_args) (cutoff ex_args) = Inr re"
      by blast
    with 3 show ?thesis
      by (simp del: One_nat_def add: pair_body_eq ex_ispaired ex_usersets ex_pair_dist case_prod_beta
            ex_args_fields(6))
  next
    case 4
    then show ?thesis
      by (simp del: One_nat_def add: pair_body_excluded_bonded ex_ispaired ex_usersets ex_args_fields(6)
            ex_pair_dist ex_bond_kernel)
  next
    case 5
    then show ?thesis by (simp del: One_nat_def add: pair_body_excluded_not_bonded ex_ispaired)
  next
    case 6
    then show ?thesis
      by (simp del: One_nat_def add: pair_body_excluded_bonded ex_ispaired ex_usersets ex_args_fields(6)
            ex_pair_dist ex_bond_kernel)
  qed
qed

lemma ex_pos:
  "item ex_coords [i, k, f] = [[1, 0, 0], [0, 0, 0], [0, 1, 0], [0, 1, 1 / 2]] ! i ! k"
  "item ex_box [k, f] = 0"
  by (simp_all add: ex_coords_def ex_box_def zeros_def)

lemma ex_wrap_zero [simp]: "ex_wrap d 0 = d"
  by (simp add: ex_wrap_def)

lemma angle_body_isl:
  "isl (angle_body nu coords box a f i st) \<longleftrightarrow>
   isl (evaluate_angles nu (\<lambda>x k. item coords [item (angles a) [i, x], k, f])
          (row (angle_params a) i) (\<lambda>k. item box [k, f]))"
  unfolding angle_body_def
  by (cases "evaluate_angles nu (\<lambda>x k. item coords [item (angles a) [i, x], k, f])
          (row (angle_params a) i) (\<lambda>k. item box [k, f])")
     (simp_all add: case_prod_beta)

lemma torsion_body_isl:
  "isl (torsion_body nu coords box quads params c f i st) \<longleftrightarrow>
   isl (evaluate_torsion nu (\<lambda>x k. item coords [item quads [i, x], k, f])
          (row params i) (\<lambda>k. item box [k, f]))"
  unfolding torsion_body_def
  by (cases "evaluate_torsion nu (\<lambda>x k. item coords [item quads [i, x], k, f])
          (row params i) (\<lambda>k. item box [k, f])")
     (simp_all add: case_prod_beta)

lemma ex_angle_kernel:
  "\<not> isl (evaluate_angles ex_nu (\<lambda>x k. item ex_coords [item (angles ex_args) [0, x], k, 0])
              (row (angle_params ex_args) 0) (\<lambda>k. item ex_box [k, 0]))"
  "\<not> isl (evaluate_angles ex_nu (\<lambda>x k. item ex_coords [item (angles ex_args) [1, x], k, 0])
              (row (angle_params ex_args) 1) (\<lambda>k. item ex_box [k, 0]))"
  by (simp_all add: evaluate_angles_def ex_args_fields of_rows_def ex_nu_def ex_pos divE_def
        Let_def real_sqrt_divide)

lemma ex_torsion_kernel:
  "\<not> isl (evaluate_torsion ex_nu (\<lambda>x k. item ex_coords [item (dihedrals ex_args) [0, x], k, 0])
              (row (dihedral_params ex_args) 0) (\<lambda>k. item ex_box [k, 0]))"
  by (simp add: evaluate_torsion_def ex_args_fields of_rows_def ex_nu_def ex_pos divE_def
        ex_dihedralAngleFull_def Let_def cross_def dot_def case_prod_beta)

lemma ex_pairs_return:
  "\<exists>s'. foldE (\<lambda>i. foldE (pair_body ex_nu ex_coords ex_box ex_args 0 i) [i + 1..<4]) [0..<4] st
        = Inr s'"
proof (rule foldE_returns)
  fix i s
  assume "i \<in> set [0..<4]"
  show "\<exists>s'. foldE (pair_body ex_nu ex_coords ex_box ex_args 0 i) [i + 1..<4] s = Inr s'"
  proof (rule foldE_returns)
    fix j t
    assume "j \<in> set [i + 1..<4]"
    then have "i < j" "j < 4" by simp_all
    then show "\<exists>t'. pair_body ex_nu ex_coords ex_box ex_args 0 i j t = Inr t'"
      by (rule ex_pair_returns)
  qed
qed

lemma ex_angles_return:
  "\<exists>s'. foldE (angle_body ex_nu ex_coords ex_box ex_args 0) [0..<2] st = Inr s'"
proof (rule foldE_returns)
  fix i s
  assume "i \<in> set [0..<2]"
  then consider "i = 0" | "i = 1" by force
  then have "\<not> isl (angle_body ex_nu ex_coords ex_box ex_args 0 i s)"
    by cases (simp_all only: angle_body_isl ex_angle_kernel not_False_eq_True)
  then show "\<exists>s'. angle_body ex_nu ex_coords ex_box ex_args 0 i s = Inr s'"
    by (rule not_isl_Inr)
qed

lemma ex_dihedrals_return:
  "\<exists>s'. foldE (torsion_body ex_nu ex_coords ex_box (dihedrals ex_args) (dihedral_params ex_args)
                4 0) [0..<1] st = Inr s'"
proof (rule foldE_returns)
  fix i s
  assume "i \<in> set [0..<1]"
  then have i: "i = 0" by simp
  have "\<not> isl (torsion_body ex_nu ex_coords ex_box (dihedrals ex_args) (dihedral_params ex_args)
                 4 0 i s)"
    unfolding i by (simp only: torsion_body_isl ex_torsion_kernel not_False_eq_True)
  then show "\<exists>s'. torsion_body ex_nu ex_coords ex_box (dihedrals ex_args)
                     (dihedral_params ex_args) 4 0 i s = Inr s'"
    by (rule not_isl_Inr)
qed

lemma ex_frame_returns:
  "\<exists>st'. frame_body ex_nu ex_coords ex_box ex_args 0 st = Inr st'"
proof -
  have n: "shape ex_coords ! 0 = 4" by (simp add: ex_coords_def)
  have s: "shape (angles ex_args) ! 0 = 2" "shape (dihedrals ex_args) ! 0 = 1"
    "shape (impropers ex_args) ! 0 = 0"
    by (simp_all add: ex_args_fields of_rows_def)
  from ex_pairs_return obtain s1 where
    1: "foldE (\<lambda>i. foldE (pair_body ex_nu ex_coords ex_box ex_args 0 i) [i + 1..<4]) [0..<4] st
        = Inr s1" by blast
  from ex_angles_return obtain s2 where
    2: "foldE (angle_body ex_nu ex_coords ex_box ex_args 0) [0..<2] s1 = Inr s2" by blast
  from ex_dihedrals_return obtain s3 where
    3: "foldE (torsion_body ex_nu ex_coords ex_box (dihedrals ex_args) (dihedral_params ex_args)
                4 0) [0..<1] s2 = Inr s3" by blast
  have "frame_body ex_nu ex_coords ex_box ex_args 0 st = Inr s3"
    unfolding frame_body_def Let_def n s
    by (simp only: 1 2 3 bindE_Inr ex_usersets if_False upt_0 foldE.simps)
  then show ?thesis by blast
qed

lemma ex_ffevaluate_returns: "\<exists>out. ffevaluate ex_nu ex_coords ex_box ex_args = Inr out"
proof -
  have f: "shape ex_coords ! 2 = 1" by (simp add: ex_coords_def)
  have u: "[0..<1] = [0]" by simp
  from ex_frame_returns obtain s where
    "frame_body ex_nu ex_coords ex_box ex_args 0
       \<lparr>energies = zeros [6, 1], forces = zeros [shape ex_coords ! 0, 3, 1],
        atmnrg = zeros [shape ex_coords ! 0, 6, 1]\<rparr> = Inr s" by blast
  then have "ffevaluate ex_nu ex_coords ex_box ex_args = Inr s"
    unfolding ffevaluate_def Let_def f u by simp
  then show ?thesis by blast
qed

lemma ex_in_range:
  "in_range (angles ex_args) 3 (shape ex_coords ! 0)"
  "in_range (dihedrals ex_args) 4 (shape ex_coords ! 0)"
  "in_range (impropers ex_args) 4 (shape ex_coords ! 0)"
  by (auto simp: in_range_def list_all_iff ex_args_fields of_rows_def ex_coords_def nth_Cons')

theorem energy_decomposition_witness:
  "\<exists>out. ffevaluate ex_nu ex_coords ex_box ex_args = Inr out \<and>
     (\<Sum>c<6. item (energies out) [c, 0]) =
     (\<Sum>i<shape ex_coords ! 0. \<Sum>c<6. item (atmnrg out) [i, c, 0])"
  using ex_ffevaluate_returns energy_decomposition [OF _ ex_in_range] by blast

theorem total_force_vanishes_witness:
  "\<exists>out. ffevaluate ex_nu ex_coords ex_box ex_args = Inr out \<and>
     (\<Sum>i<shape ex_coords ! 0. item (forces out) [i, 0, 0]) = 0"
  using ex_ffevaluate_returns total_force_vanishes [OF _ ex_in_range] by blast

text \<open>
  Claim C3. A pair of the exclusion set that is not bonded is skipped: it returns the
  state as it is. For a pair of the exclusion set that is bonded, the Lennard-Jones and
  electrostatic kernels are not evaluated: the pair is skipped by the between-sets or the
  cutoff rule, or only the harmonic bond term is added (the potentials \<open>pot_lj\<close> and
  \<open>pot_el\<close> are zero and the force is the bond's). In both cases the Lennard-Jones and
  electrostatic energies and attributions are as before.
\<close>

theorem excluded_pair:
  assumes "ispaired (excl a) i j"
  shows "(\<not> ispaired (bonda a) i j \<longrightarrow> pair_body nu coords box a f i j st = Inr st) \<and>
         (ispaired (bonda a) i j \<longrightarrow>
            pair_body nu coords box a f i j st =
              (if (usersets a \<and> \<not> insets i j (set1 a) (set2 a)) \<or>
                  (cutoff a \<noteq> 0 \<and> pair_dist nu coords box f i j > cutoff a)
               then Inr st
               else bindE (evaluate_harmonic_bonds i j (bonda a) (bondv a)
                             (pair_dist nu coords box f i j)) (\<lambda>(pot_bo, force_bo).
                    if pair_dist nu coords box f i j = 0 then Inl NotANumber
                    else Inr (pair_update f i j pot_bo 0 0 force_bo
                                (\<lambda>k. pair_vec nu coords box f i j k /
                                     pair_dist nu coords box f i j) st)))) \<and>
         (\<forall>st'. pair_body nu coords box a f i j st = Inr st' \<longrightarrow>
            (\<forall>f'. item (energies st') [1, f'] = item (energies st) [1, f'] \<and>
                  item (energies st') [2, f'] = item (energies st) [2, f'] \<and>
                  (\<forall>m. item (atmnrg st') [m, 1, f'] = item (atmnrg st) [m, 1, f'] \<and>
                       item (atmnrg st') [m, 2, f'] = item (atmnrg st) [m, 2, f'])))"
proof (intro conjI impI allI)
  assume "\<not> ispaired (bonda a) i j"
  with assms show "pair_body nu coords box a f i j st = Inr st"
    by (rule pair_body_excluded_not_bonded)
next
  assume "ispaired (bonda a) i j"
  with assms show "pair_body nu coords box a f i j st =
              (if (usersets a \<and> \<not> insets i j (set1 a) (set2 a)) \<or>
                  (cutoff a \<noteq> 0 \<and> pair_dist nu coords box f i j > cutoff a)
               then Inr st
               else bindE (evaluate_harmonic_bonds i j (bonda a) (bondv a)
                             (pair_dist nu coords box f i j)) (\<lambda>(pot_bo, force_bo).
                    if pair_dist nu coords box f i j = 0 then Inl NotANumber
                    else Inr (pair_update f i j pot_bo 0 0 force_bo
                                (\<lambda>k. pair_vec nu coords box f i j k /
                                     pair_dist nu coords box f i j) st)))"
    by (rule pair_body_excluded_bonded)
next
  fix st' f'
  assume r: "pair_body nu coords box a f i j st = Inr st'"
  have "st' = st \<or> (\<exists>pb c u. st' = pair_update f i j pb 0 0 c u st)"
  proof (cases "ispaired (bonda a) i j")
    case True
    show ?thesis
    proof (cases "(usersets a \<and> \<not> insets i j (set1 a) (set2 a)) \<or>
                  (cutoff a \<noteq> 0 \<and> pair_dist nu coords box f i j > cutoff a)")
      case skip: True
      with r show ?thesis
        unfolding pair_body_excluded_bonded [OF assms True] by simp
    next
      case False
      with r obtain pb fb where
        "(if pair_dist nu coords box f i j = 0 then Inl NotANumber
          else Inr (pair_update f i j pb 0 0 fb
                      (\<lambda>k. pair_vec nu coords box f i j k / pair_dist nu coords box f i j) st))
         = Inr st'"
        unfolding pair_body_excluded_bonded [OF assms True]
        by (simp only: if_False bindE_Inr_iff case_prod_beta) blast
      then have "st' = pair_update f i j pb 0 0 fb
                      (\<lambda>k. pair_vec nu coords box f i j k / pair_dist nu coords box f i j) st"
        by (simp split: if_splits)
      then show ?thesis by blast
    qed
  next
    case False
    with r assms show ?thesis by (simp add: pair_body_excluded_not_bonded)
  qed
  then have e: "item (energies st') [1, f'] = item (energies st) [1, f']"
    "item (energies st') [2, f'] = item (energies st) [2, f']"
    and "\<And>m. item (atmnrg st') [m, 1, f'] = item (atmnrg st) [m, 1, f']"
    and "\<And>m. item (atmnrg st') [m, 2, f'] = item (atmnrg st) [m, 2, f']"
    by (auto simp: pair_update_def item_add_at)
  then show "item (energies st') [1, f'] = item (energies st) [1, f']"
    "item (energies st') [2, f'] = item (energies st) [2, f']"
    "\<And>m. item (atmnrg st') [m, 1, f'] = item (atmnrg st) [m, 1, f']"
    "\<And>m. item (atmnrg st') [m, 2, f'] = item (atmnrg st) [m, 2, f']"
    by simp_all
qed

theorem excluded_pair_witness:
  "pair_body ex_nu ex_coords ex_box ex_args 0 0 2 ex_state = Inr ex_state \<and>
   pair_body ex_nu ex_coords ex_box ex_args 0 0 1 ex_state =
     Inr (pair_update 0 0 1 0 0 0 0 (\<lambda>k. pair_vec ex_nu ex_coords ex_box 0 0 1 k / 1) ex_state)"
proof
  from excluded_pair [OF ex_ispaired(10), of ex_nu ex_coords ex_box 0 ex_state] ex_ispaired(4)
  show "pair_body ex_nu ex_coords ex_box ex_args 0 0 2 ex_state = Inr ex_state"
    by blast
next
  from excluded_pair [OF ex_ispaired(7), of ex_nu ex_coords ex_box 0 ex_state] ex_ispaired(1)
  have "pair_body ex_nu ex_coords ex_box ex_args 0 0 1 ex_state =
              (if (usersets ex_args \<and> \<not> insets 0 1 (set1 ex_args) (set2 ex_args)) \<or>
                  (cutoff ex_args \<noteq> 0 \<and> pair_dist ex_nu ex_coords ex_box 0 0 1 > cutoff ex_args)
               then Inr ex_state
               else bindE (evaluate_harmonic_bonds 0 1 (bonda ex_args) (bondv ex_args)
                             (pair_dist ex_nu ex_coords ex_box 0 0 1)) (\<lambda>(pot_bo, force_bo).
                    if pair_dist ex_nu ex_coords ex_box 0 0 1 = 0 then Inl NotANumber
                    else Inr (pair_update 0 0 1 pot_bo 0 0 force_bo
                                (\<lambda>k. pair_vec ex_nu ex_coords ex_box 0 0 1 k /
                                     pair_dist ex_nu ex_coords ex_box 0 0 1) ex_state)))"
    by blast
  also have "\<dots> = Inr (pair_update 0 0 1 0 0 0 0
                        (\<lambda>k. pair_vec ex_nu ex_coords ex_box 0 0 1 k / 1) ex_state)"
    by (simp del: One_nat_def pair_update_zero
          add: ex_usersets ex_args_fields(6) ex_pair_dist ex_bond_kernel)
  finally show "pair_body ex_nu ex_coords ex_box ex_args 0 0 1 ex_state =
     Inr (pair_update 0 0 1 0 0 0 0 (\<lambda>k. pair_vec ex_nu ex_coords ex_box 0 0 1 k / 1) ex_state)" .
qed

lemma evaluate_elec_rfa_cutoff_zero:
  "evaluate_elec i j chg a14 v14 EF d True sd 0 = Inl ZeroDivisionError"
  by (simp add: evaluate_elec_def divE_def Let_def)

lemma FFEvaluate_init_isl:
  "isl (FFEvaluate_init sel const mol prm bs c r sd) \<longleftrightarrow>
   isl (FFEvaluate_init sel const mol prm bs c' r' sd')"
  unfolding FFEvaluate_init_def
  by (cases "calculateSets sel mol bs")
     (auto simp: case_prod_beta bindE_def split: sum.splits)

text \<open>
  Claim C8 (amended). Constructing the evaluator with \<open>rfa\<close> on and \<open>cutoff = 0\<close> raises no
  error of its own: the constructor fails exactly when it fails for any other cutoff,
  \<open>rfa\<close> and dielectric, and otherwise stores \<open>cutoff = 0\<close> and \<open>rfa\<close> as they are. The
  division by zero is raised by \<open>evaluate_elec\<close>, when a pair that is not excluded is
  evaluated.
\<close>

theorem construction_does_not_validate:
  "(isl (FFEvaluate_init sel const mol prm bs 0 True sd) \<longleftrightarrow>
    isl (FFEvaluate_init sel const mol prm bs c r sd')) \<and>
   (\<forall>a. FFEvaluate_init sel const mol prm bs 0 True sd = Inr a \<longrightarrow>
        cutoff a = 0 \<and> rfa a \<and> solventDielectric a = sd) \<and>
   evaluate_elec i j chg a14 v14 EF d True sd 0 = Inl ZeroDivisionError"
proof (intro conjI allI impI)
  show "isl (FFEvaluate_init sel const mol prm bs 0 True sd) \<longleftrightarrow>
        isl (FFEvaluate_init sel const mol prm bs c r sd')"
    by (rule FFEvaluate_init_isl)
next
  fix a
  assume "FFEvaluate_init sel const mol prm bs 0 True sd = Inr a"
  then show "cutoff a = 0" "rfa a" "solventDielectric a = sd"
    by (auto simp: FFEvaluate_init_def bindE_Inr_iff init_result.defs ffargs.defs)
next
  show "evaluate_elec i j chg a14 v14 EF d True sd 0 = Inl ZeroDivisionError"
    by (rule evaluate_elec_rfa_cutoff_zero)
qed

lemma ex_FFEvaluate_init_rfa:
  "FFEvaluate_init ex_atomselect ex_const ex_mol ex_prm None 0 True (157 / 2) =
   Inr (init_result.extend ex_init (ffargs.fields [] [] 0 True (157 / 2)))"
  by (simp add: FFEvaluate_init_def calculateSets_def ex_init_eq)

theorem construction_does_not_validate_witness:
  "cutoff (init_result.extend ex_init (ffargs.fields [] [] 0 True (157 / 2))) = 0 \<and>
   rfa (init_result.extend ex_init (ffargs.fields [] [] 0 True (157 / 2)))"
  using construction_does_not_validate [of ex_atomselect ex_const ex_mol ex_prm None "157 / 2"]
    ex_FFEvaluate_init_rfa
  by simp

text \<open>
  Claim C8 as stated fails: the construction with \<open>rfa\<close> on and \<open>cutoff = 0\<close> returns the
  stored arguments.
\<close>

theorem construction_raises_counterexample:
  "FFEvaluate_init ex_atomselect ex_const ex_mol ex_prm None 0 True (157 / 2) =
   Inr (init_result.extend ex_init (ffargs.fields [] [] 0 True (157 / 2)))"
  by (simp add: FFEvaluate_init_def calculateSets_def ex_init_eq)

lemma scan_set1_only_i:
  "i \<in> set xs \<Longrightarrow> j \<notin> set xs \<Longrightarrow> scan_set1 xs i j (0, 0) = (1, 0)"
  by (induction xs) auto

lemma scan_set1_only_j:
  "j \<in> set xs \<Longrightarrow> i \<notin> set xs \<Longrightarrow> scan_set1 xs i j (0, 0) = (0, 1)"
  by (induction xs) auto

lemma scan_set2_only_i:
  "i \<in> set xs \<Longrightarrow> j \<notin> set xs \<Longrightarrow> scan_set2 xs i j (a, b) = (2, b)"
  by (induction xs) auto

lemma scan_set2_only_j:
  "j \<in> set xs \<Longrightarrow> i \<notin> set xs \<Longrightarrow> scan_set2 xs i j (a, b) = (a, 2)"
  by (induction xs) auto

lemma scan_set1_cases:
  "scan_set1 xs i j (0, 0) = (0, 0) \<or>
   (scan_set1 xs i j (0, 0) = (1, 0) \<and> i \<in> set xs) \<or>
   (scan_set1 xs i j (0, 0) = (0, 1) \<and> j \<in> set xs)"
  by (induction xs) auto

lemma scan_set2_cases:
  "scan_set2 xs i j (a, b) = (a, b) \<or>
   (scan_set2 xs i j (a, b) = (2, b) \<and> i \<in> set xs) \<or>
   (scan_set2 xs i j (a, b) = (a, 2) \<and> j \<in> set xs)"
  by (induction xs) auto

lemma insets_sound:
  assumes "insets i j A B"
  shows "(i \<in> set A \<and> j \<in> set B) \<or> (i \<in> set B \<and> j \<in> set A)"
proof (cases "length B < length A")
  case True
  with assms scan_set1_cases [of B i j] scan_set2_cases [of A i j 1 0]
    scan_set2_cases [of A i j 0 1]
  show ?thesis
    by (auto simp: insets_def Let_def split: if_splits prod.splits)
next
  case False
  with assms scan_set1_cases [of A i j] scan_set2_cases [of B i j 1 0]
    scan_set2_cases [of B i j 0 1]
  show ?thesis
    by (auto simp: insets_def Let_def split: if_splits prod.splits)
qed

lemma insets_complete:
  assumes "set A \<inter> set B = {}"
    and "(i \<in> set A \<and> j \<in> set B) \<or> (i \<in> set B \<and> j \<in> set A)"
  shows "insets i j A B"
proof -
  from assms consider "i \<in> set A" "j \<in> set B" "i \<notin> set B" "j \<notin> set A"
    | "i \<in> set B" "j \<in> set A" "i \<notin> set A" "j \<notin> set B"
    by blast
  then show ?thesis
  proof cases
    case 1
    then show ?thesis
      by (simp add: insets_def scan_set1_only_i scan_set1_only_j scan_set2_only_i
            scan_set2_only_j)
  next
    case 2
    then show ?thesis
      by (simp add: insets_def scan_set1_only_i scan_set1_only_j scan_set2_only_i
            scan_set2_only_j)
  qed
qed

lemma find_col_all_sentinel:
  assumes "\<And>idx. item a idx = - 1"
  shows "find_col a i j es = None"
  using assms by (cases es) simp_all

lemma nestedListToArray_empty_rows:
  "item (nestedListToArray (replicate n []) d) idx = d"
  by (cases n) (simp_all add: nestedListToArray_def list_all_iff)

lemma init_without_topology:
  assumes "init const (mol\<lparr>mol_bonds := [], mol_angles := [], mol_dihedrals := [],
                            mol_impropers := []\<rparr>) prm = Inr r"
  shows "(\<forall>idx. item (bonda r) idx = - 1) \<and> shape (angles r) ! 0 = 0 \<and>
         shape (dihedrals r) ! 0 = 0 \<and> shape (impropers r) ! 0 = 0"
  using assms
  by (auto simp: init_def Let_def bindE_Inr_iff nestedListToArray_empty_rows of_rows_def)

lemma between_sets_args:
  assumes "FFEvaluate_init sel const mol prm (Some (selA, selB)) c r sd = Inr a"
  shows "sel mol selA = Inr (set1 a) \<and> sel mol selB = Inr (set2 a) \<and>
         (\<forall>i j. \<not> ispaired (bonda a) i j) \<and> shape (angles a) ! 0 = 0 \<and>
         shape (dihedrals a) ! 0 = 0 \<and> shape (impropers a) ! 0 = 0"
proof -
  from assms obtain A B ir where
    s: "sel mol selA = Inr A" "sel mol selB = Inr B"
    and i: "init const (mol\<lparr>mol_bonds := [], mol_angles := [], mol_dihedrals := [],
                            mol_impropers := []\<rparr>) prm = Inr ir"
    and a: "a = init_result.extend ir (ffargs.fields A B c r sd)"
    by (auto simp: FFEvaluate_init_def calculateSets_def bindE_Inr_iff)
  have f: "set1 a = A" "set2 a = B" "bonda a = bonda ir" "angles a = angles ir"
    "dihedrals a = dihedrals ir" "impropers a = impropers ir"
    unfolding a by (simp_all add: init_result.defs ffargs.defs)
  from init_without_topology [OF i] show ?thesis
    unfolding f using s by (simp add: ispaired_def find_col_all_sentinel)
qed

lemma pair_body_not_bonded_Inr:
  assumes "pair_body nu coords box a f i j st = Inr st'" "\<not> ispaired (bonda a) i j"
  shows "\<exists>pot_lj pot_el coeff u. st' = pair_update f i j 0 pot_lj pot_el coeff u st"
proof (cases "(usersets a \<and> \<not> insets i j (set1 a) (set2 a)) \<or>
              (ispaired (excl a) i j \<and> \<not> ispaired (bonda a) i j) \<or>
              (cutoff a \<noteq> 0 \<and> pair_dist nu coords box f i j > cutoff a)")
  case True
  with assms have "st' = st"
    by (simp add: pair_body_eq)
  then have "st' = pair_update f i j 0 0 0 0 (\<lambda>_. 0) st" by simp
  then show ?thesis by blast
next
  case False
  with assms show ?thesis
    by (auto simp: pair_body_eq bindE_Inr_iff split: if_splits; blast)
qed

lemma pair_loops_preserve:
  assumes "foldE (\<lambda>i. foldE (pair_body nu coords box a f i) [i + 1..<n]) [0..<n] st = Inr st'"
    and "P st"
    and "\<And>i j s s'. P s \<Longrightarrow> pair_body nu coords box a f i j s = Inr s' \<Longrightarrow> P s'"
  shows "P st'"
proof (rule foldE_invariant [where P = P, OF assms(1,2)])
  fix i s s'
  assume s: "P s" and r: "foldE (pair_body nu coords box a f i) [i + 1..<n] s = Inr s'"
  show "P s'"
    by (rule foldE_invariant [where P = P, OF r s]) (rule assms(3))
qed

lemma frame_body_bonded_zero:
  assumes "frame_body nu coords box a f st = Inr st'" "bonded_zero st"
    and "\<And>i j. \<not> ispaired (bonda a) i j"
    and "usersets a \<or> (shape (angles a) ! 0 = 0 \<and> shape (dihedrals a) ! 0 = 0 \<and>
                         shape (impropers a) ! 0 = 0)"
  shows "bonded_zero st'"
proof -
  let ?n = "shape coords ! 0"
  from assms(1) obtain s1 where
    p: "foldE (\<lambda>i. foldE (pair_body nu coords box a f i) [i + 1..<?n]) [0..<?n] st = Inr s1"
    and r: "(if usersets a then Inr s1
             else bindE (foldE (angle_body nu coords box a f) [0..<shape (angles a) ! 0] s1) (\<lambda>st.
                  bindE (foldE (torsion_body nu coords box (dihedrals a) (dihedral_params a) 4 f)
                           [0..<shape (dihedrals a) ! 0] st) (\<lambda>st.
                  foldE (torsion_body nu coords box (impropers a) (improper_params a) 5 f)
                    [0..<shape (impropers a) ! 0] st))) = Inr st'"
    by (auto simp: frame_body_def Let_def bindE_Inr_iff)
  have 1: "bonded_zero s1"
  proof (rule pair_loops_preserve [where P = bonded_zero, OF p assms(2)])
    fix i j s s'
    assume s: "bonded_zero s" and b: "pair_body nu coords box a f i j s = Inr s'"
    from pair_body_not_bonded_Inr [OF b assms(3)] obtain pl pe c u where
      "s' = pair_update f i j 0 pl pe c u s" by blast
    with s show "bonded_zero s'"
      by (simp add: bonded_zero_def pair_update_def item_add_at)
  qed
  from assms(4) r have "st' = s1"
    by (auto split: if_splits)
  with 1 show ?thesis by simp
qed

lemma ffevaluate_bonded_zero:
  assumes "ffevaluate nu coords box a = Inr out"
    and "\<And>i j. \<not> ispaired (bonda a) i j"
    and "usersets a \<or> (shape (angles a) ! 0 = 0 \<and> shape (dihedrals a) ! 0 = 0 \<and>
                         shape (impropers a) ! 0 = 0)"
  shows "bonded_zero out"
  using assms(1) unfolding ffevaluate_def Let_def
  by (rule foldE_invariant [where P = bonded_zero])
     (simp_all add: bonded_zero_def zeros_def frame_body_bonded_zero [OF _ _ assms(2,3), unfolded bonded_zero_def])

lemma pair_body_not_insets:
  assumes "usersets a" "\<not> insets i j (set1 a) (set2 a)"
  shows "pair_body nu coords box a f i j st = Inr st"
  using assms by (simp add: pair_body_eq)

lemma pair_body_insets:
  assumes "insets i j (set1 a) (set2 a)"
  shows "pair_body nu coords box a f i j st =
         pair_body nu coords box (a\<lparr>set1 := [], set2 := []\<rparr>) f i j st"
  using assms by (simp add: pair_body_eq usersets_def)

lemma ex_init_bare_eq:
  "init ex_const (ex_mol\<lparr>mol_bonds := [], mol_angles := [], mol_dihedrals := [],
                         mol_impropers := []\<rparr>) ex_prm = Inr ex_init_bare"
proof -
  have n: "nbfix_types ex_prm = []" by (simp add: ex_prm_def)
  have t: "atomtype ex_mol = [''H'', ''C'', ''C'', ''H'']" "mol_charge ex_mol = [1, - 1, - 1, 1]"
    by (simp_all add: ex_mol_def)
  show ?thesis
    using ex_unique_types ex_unique_inverse
    by (simp add: init_def Let_def numAtoms_def n t ex_init_bare_def ex_prm_def ex_atom_def)
qed

lemma ex_FFEvaluate_init_sets:
  "FFEvaluate_init ex_atomselect ex_const ex_mol ex_prm (Some (''index 0 1'', ''index 2 3''))
     0 False (157 / 2) = Inr ex_args_sets"
  by (simp add: FFEvaluate_init_def calculateSets_def ex_atomselect_def ex_init_bare_eq
        ex_args_sets_def)

lemma ex_FFEvaluate_init_none:
  "FFEvaluate_init ex_atomselect ex_const ex_mol ex_prm (Some (''none'', ''none''))
     0 False (157 / 2) = Inr ex_args_none"
  by (simp add: FFEvaluate_init_def calculateSets_def ex_atomselect_def ex_init_bare_eq
        ex_args_none_def)

text \<open>
  What the code does when two between-sets \<open>A\<close> and \<open>B\<close> are supplied. The constructor
  stores them, and \<open>insets\<close> holds only for pairs with \<open>(i \<in> A \<and> j \<in> B) \<or> (i \<in> B \<and> j \<in> A)\<close>;
  when \<open>A\<close> and \<open>B\<close> are disjoint it holds for exactly those pairs. A pair for which it
  holds is evaluated as with the sets cleared; when one of the sets is not empty, a pair
  for which it does not hold returns the state as it is. The bond, angle, dihedral and
  improper energies are zero for every frame.
\<close>

lemma between_sets:
  assumes "FFEvaluate_init sel const mol prm (Some (selA, selB)) c r sd = Inr a"
  shows "sel mol selA = Inr (set1 a) \<and> sel mol selB = Inr (set2 a) \<and>
    (\<forall>i j. insets i j (set1 a) (set2 a) \<longrightarrow>
       (i \<in> set (set1 a) \<and> j \<in> set (set2 a)) \<or> (i \<in> set (set2 a) \<and> j \<in> set (set1 a))) \<and>
    (set (set1 a) \<inter> set (set2 a) = {} \<longrightarrow>
       (\<forall>i j. insets i j (set1 a) (set2 a) \<longleftrightarrow>
          (i \<in> set (set1 a) \<and> j \<in> set (set2 a)) \<or> (i \<in> set (set2 a) \<and> j \<in> set (set1 a)))) \<and>
    (\<forall>nu coords box f i j st. insets i j (set1 a) (set2 a) \<longrightarrow>
       pair_body nu coords box a f i j st =
       pair_body nu coords box (a\<lparr>set1 := [], set2 := []\<rparr>) f i j st) \<and>
    (set1 a \<noteq> [] \<or> set2 a \<noteq> [] \<longrightarrow>
       (\<forall>nu coords box f i j st. \<not> insets i j (set1 a) (set2 a) \<longrightarrow>
          pair_body nu coords box a f i j st = Inr st)) \<and>
    (\<forall>nu coords box out f. ffevaluate nu coords box a = Inr out \<longrightarrow>
       item (energies out) [0, f] = 0 \<and> item (energies out) [3, f] = 0 \<and>
       item (energies out) [4, f] = 0 \<and> item (energies out) [5, f] = 0)"
proof -
  note b = between_sets_args [OF assms]
  have 1: "sel mol selA = Inr (set1 a)" "sel mol selB = Inr (set2 a)"
    using b by simp_all
  have 2: "\<forall>i j. insets i j (set1 a) (set2 a) \<longrightarrow>
       (i \<in> set (set1 a) \<and> j \<in> set (set2 a)) \<or> (i \<in> set (set2 a) \<and> j \<in> set (set1 a))"
    using insets_sound by blast
  have 3: "set (set1 a) \<inter> set (set2 a) = {} \<longrightarrow>
       (\<forall>i j. insets i j (set1 a) (set2 a) \<longleftrightarrow>
          (i \<in> set (set1 a) \<and> j \<in> set (set2 a)) \<or> (i \<in> set (set2 a) \<and> j \<in> set (set1 a)))"
    using insets_sound insets_complete by blast
  have 4: "\<forall>nu coords box f i j st. insets i j (set1 a) (set2 a) \<longrightarrow>
       pair_body nu coords box a f i j st =
       pair_body nu coords box (a\<lparr>set1 := [], set2 := []\<rparr>) f i j st"
    using pair_body_insets by blast
  have 5: "set1 a \<noteq> [] \<or> set2 a \<noteq> [] \<longrightarrow>
       (\<forall>nu coords box f i j st. \<not> insets i j (set1 a) (set2 a) \<longrightarrow>
          pair_body nu coords box a f i j st = Inr st)"
    using pair_body_not_insets [of a] by (simp add: usersets_def)
  have 6: "\<forall>nu coords box out f. ffevaluate nu coords box a = Inr out \<longrightarrow>
       item (energies out) [0, f] = 0 \<and> item (energies out) [3, f] = 0 \<and>
       item (energies out) [4, f] = 0 \<and> item (energies out) [5, f] = 0"
  proof (intro allI impI)
    fix nu coords box out f
    assume "ffevaluate nu coords box a = Inr out"
    then have "bonded_zero out"
      by (rule ffevaluate_bonded_zero) (use b in simp_all)
    then show "item (energies out) [0, f] = 0 \<and> item (energies out) [3, f] = 0 \<and>
       item (energies out) [4, f] = 0 \<and> item (energies out) [5, f] = 0"
      by (simp add: bonded_zero_def)
  qed
  from 1 2 3 4 5 6 show ?thesis by blast
qed

lemma ex_args_sets_fields:
  "set1 ex_args_sets = [0, 1]" "set2 ex_args_sets = [2, 3]"
  by (simp_all add: ex_args_sets_def init_result.defs ffargs.defs)

lemma between_sets_example:
  "insets 0 2 [0, 1] [2, 3] \<and>
   pair_body ex_nu ex_coords ex_box ex_args_sets 0 0 1 ex_state = Inr ex_state"
proof -
  note t = between_sets [OF ex_FFEvaluate_init_sets, unfolded ex_args_sets_fields]
  note t3 = t [THEN conjunct2, THEN conjunct2, THEN conjunct2, THEN conjunct1]
  note t5 = t [THEN conjunct2, THEN conjunct2, THEN conjunct2, THEN conjunct2, THEN conjunct2,
               THEN conjunct1]
  have 1: "insets 0 2 [0, 1] [2, 3]"
    using t3 [rule_format, of 0 2] by simp
  have "\<not> insets 0 1 [0, 1] [2, 3]"
    by (simp add: insets_def)
  then have 2: "pair_body ex_nu ex_coords ex_box ex_args_sets 0 0 1 ex_state = Inr ex_state"
    using t5 [rule_format, of 0 1 ex_nu ex_coords ex_box 0 ex_state] by simp
  from 1 2 show ?thesis by simp
qed

text \<open>
  Two selections that select nothing leave every pair evaluated: the pair \<open>(0, 1)\<close> of the
  example adds its Lennard-Jones and electrostatic terms.
\<close>

lemma ex_pair_without_sets:
  "\<not> (insets 0 1 [0] [0, 1] \<longleftrightarrow>
       ((0::nat) \<in> set [0] \<and> (1::nat) \<in> set [0, 1]) \<or> ((0::nat) \<in> set [0, 1] \<and> (1::nat) \<in> set [0])) \<and>
   FFEvaluate_init ex_atomselect ex_const ex_mol ex_prm (Some (''none'', ''none''))
     0 False (157 / 2) = Inr ex_args_none \<and>
   pair_body ex_nu ex_coords ex_box ex_args_none 0 0 1 ex_state \<noteq> Inr ex_state"
proof (intro conjI)
  show "\<not> (insets 0 1 [0] [0, 1] \<longleftrightarrow>
       ((0::nat) \<in> set [0] \<and> (1::nat) \<in> set [0, 1]) \<or> ((0::nat) \<in> set [0, 1] \<and> (1::nat) \<in> set [0]))"
    by (simp add: insets_def)
next
  show "FFEvaluate_init ex_atomselect ex_const ex_mol ex_prm (Some (''none'', ''none''))
     0 False (157 / 2) = Inr ex_args_none"
    by (rule ex_FFEvaluate_init_none)
next
  have f: "bonda ex_args_none = nestedListToArray [[], [], [], []] (- 1)"
    "excl ex_args_none = nestedListToArray [[], [], [], []] (- 1)"
    "s14a ex_args_none = nestedListToArray [[], [], [], []] (- 1)"
    "e14a ex_args_none = nestedListToArray [[], [], [], []] (- 1)"
    "s14v ex_args_none = nestedListToArray [[], [], [], []] None"
    "e14v ex_args_none = nestedListToArray [[], [], [], []] None"
    "typeint ex_args_none = of_list [1, 0, 0, 1]"
    "nbfix ex_args_none = of_rows 6 []"
    "sigma ex_args_none = of_list [3, 3]" "sigma14 ex_args_none = of_list [2, 2]"
    "epsilon ex_args_none = of_list [1, 1]" "epsilon14 ex_args_none = of_list [1, 1]"
    "set1 ex_args_none = []" "set2 ex_args_none = []" "cutoff ex_args_none = 0"
    "rfa ex_args_none = False" "charge ex_args_none = of_list [1, - 1, - 1, 1]"
    by (simp_all add: ex_args_none_def ex_init_bare_def init_result.defs ffargs.defs)
  have p: "\<not> ispaired (bonda ex_args_none) 0 1" "\<not> ispaired (excl ex_args_none) 0 1"
    by (simp_all add: f ispaired_def nestedListToArray_def)
  have u: "\<not> usersets ex_args_none" by (simp add: usersets_def f)
  have lj: "evaluate_lj 0 1 (typeint ex_args_none) (nbfix ex_args_none) (sigma ex_args_none)
              (sigma14 ex_args_none) (epsilon ex_args_none) (epsilon14 ex_args_none)
              (s14a ex_args_none) (s14v ex_args_none) 1 = Inr (2122848, - 25491672)"
    by (simp add: evaluate_lj_def getSigmaEpsilon_def f nestedListToArray_def
          of_list_def of_rows_def num_def sqrtE_def divE_def Let_def)
  have el: "evaluate_elec 0 1 (charge ex_args_none) (e14a ex_args_none) (e14v ex_args_none)
              (ELEC_FACTOR ex_args_none) 1 (rfa ex_args_none) (solventDielectric ex_args_none)
              0 = Inr (- ELEC_FACTOR ex_args_none, ELEC_FACTOR ex_args_none)"
    by (simp add: evaluate_elec_def f(4,6,16,17) nestedListToArray_def of_list_def num_def
          divE_def Let_def)
  have "pair_body ex_nu ex_coords ex_box ex_args_none 0 0 1 ex_state =
        Inr (pair_update 0 0 1 0 2122848 (- ELEC_FACTOR ex_args_none)
               (0 + - 25491672 + ELEC_FACTOR ex_args_none)
               (\<lambda>k. pair_vec ex_nu ex_coords ex_box 0 0 1 k / 1) ex_state)"
    by (simp del: One_nat_def add: pair_body_eq p u f(15) ex_pair_dist lj el)
  moreover have "item (energies (pair_update 0 0 1 0 2122848 (- ELEC_FACTOR ex_args_none)
               (0 + - 25491672 + ELEC_FACTOR ex_args_none)
               (\<lambda>k. pair_vec ex_nu ex_coords ex_box 0 0 1 k / 1) ex_state)) [1, 0] \<noteq>
        item (energies ex_state) [1, 0]"
    by (simp add: pair_update_def item_add_at ex_state_def zeros_def)
  ultimately show "pair_body ex_nu ex_coords ex_box ex_args_none 0 0 1 ex_state \<noteq> Inr ex_state"
    by auto
qed

lemma foldE_append: "foldE g (xs @ ys) s = bindE (foldE g xs s) (foldE g ys)"
proof (induction xs arbitrary: s)
  case Nil
  show ?case by simp
next
  case (Cons x xs)
  show ?case by (cases "g x s") (simp_all add: Cons.IH)
qed

lemma dihedral_step_alreadyadded:
  assumes "dihedral_step prm u t x s = Inr s'"
  shows "sort x \<in> set (alreadyadded s') \<and> set (alreadyadded s) \<subseteq> set (alreadyadded s')"
  using assms
  by (auto simp: dihedral_step_def Let_def bindE_Inr_iff split: if_splits)

lemma dihedral_fold_alreadyadded:
  assumes "foldE (dihedral_step prm u t) xs s = Inr s'"
  shows "set (alreadyadded s) \<subseteq> set (alreadyadded s') \<and>
         (\<forall>e \<in> set xs. sort e \<in> set (alreadyadded s'))"
  using assms
proof (induction xs arbitrary: s)
  case Nil
  then show ?case by simp
next
  case (Cons x xs)
  from Cons.prems obtain s1 where
    1: "dihedral_step prm u t x s = Inr s1" and 2: "foldE (dihedral_step prm u t) xs s1 = Inr s'"
    by (auto simp: bindE_Inr_iff)
  from dihedral_step_alreadyadded [OF 1] Cons.IH [OF 2] show ?case by auto
qed

lemma dihedral_step_duplicate:
  assumes "sort d \<in> set (alreadyadded s)"
  shows "dihedral_step prm u t d s = Inr (s\<lparr>dihedral_rows := dihedral_rows s @ [[]]\<rparr>)"
  using assms by (simp add: dihedral_step_def)

lemma dihedral_step_rows:
  "dihedral_step prm u t x (s\<lparr>dihedral_rows := q\<rparr>) =
     (case dihedral_step prm u t x (s\<lparr>dihedral_rows := []\<rparr>) of
        Inl e \<Rightarrow> Inl e
      | Inr s' \<Rightarrow> Inr (s'\<lparr>dihedral_rows := q @ dihedral_rows s'\<rparr>))"
  by (cases "dihedral_lookup prm (types_of u t x)")
     (simp_all add: dihedral_step_def Let_def)

lemma dihedral_fold_rows:
  "foldE (dihedral_step prm u t) xs (s\<lparr>dihedral_rows := q\<rparr>) =
     (case foldE (dihedral_step prm u t) xs (s\<lparr>dihedral_rows := []\<rparr>) of
        Inl e \<Rightarrow> Inl e
      | Inr s' \<Rightarrow> Inr (s'\<lparr>dihedral_rows := q @ dihedral_rows s'\<rparr>))"
proof (induction xs arbitrary: s q)
  case Nil
  show ?case by simp
next
  case (Cons x xs)
  show ?case
  proof (cases "dihedral_step prm u t x (s\<lparr>dihedral_rows := []\<rparr>)")
    case (Inl e)
    then show ?thesis by (simp add: dihedral_step_rows [where q = q])
  next
    case (Inr s1)
    have a: "foldE (dihedral_step prm u t) (x # xs) (s\<lparr>dihedral_rows := q\<rparr>) =
          foldE (dihedral_step prm u t) xs (s1\<lparr>dihedral_rows := q @ dihedral_rows s1\<rparr>)"
      by (simp add: dihedral_step_rows [where q = q] Inr)
    have b: "foldE (dihedral_step prm u t) (x # xs) (s\<lparr>dihedral_rows := []\<rparr>) =
          foldE (dihedral_step prm u t) xs (s1\<lparr>dihedral_rows := dihedral_rows s1\<rparr>)"
      by (simp add: Inr)
    show ?thesis
      unfolding a b
      unfolding Cons.IH [where s = s1 and q = "q @ dihedral_rows s1"] Cons.IH [where s = s1 and q = "dihedral_rows s1"]
      by (cases "foldE (dihedral_step prm u t) xs (s1\<lparr>dihedral_rows := []\<rparr>)") simp_all
  qed
qed

lemma dihedral_fold_length:
  assumes "foldE (dihedral_step prm u t) xs s = Inr s'"
  shows "length (dihedral_rows s') = length (dihedral_rows s) + length xs"
  using assms
proof (induction xs arbitrary: s)
  case Nil
  then show ?case by simp
next
  case (Cons x xs)
  from Cons.prems obtain s1 where
    1: "dihedral_step prm u t x s = Inr s1" and 2: "foldE (dihedral_step prm u t) xs s1 = Inr s'"
    by (auto simp: bindE_Inr_iff)
  from 1 have "length (dihedral_rows s1) = length (dihedral_rows s) + 1"
    by (auto simp: dihedral_step_def Let_def bindE_Inr_iff split: if_splits)
  with Cons.IH [OF 2] show ?case by simp
qed

text \<open>The dihedral loop with a repeated entry inserted after an entry of the same atoms.\<close>

lemma dihedral_fold_duplicate:
  assumes "e \<in> set xs" "sort e = sort d"
    and "foldE (dihedral_step prm u t) (xs @ d # ys) s = Inr s'"
  shows "\<exists>s1 s2. foldE (dihedral_step prm u t) xs s = Inr s1 \<and>
           foldE (dihedral_step prm u t) ys (s1\<lparr>dihedral_rows := []\<rparr>) = Inr s2 \<and>
           s' = s2\<lparr>dihedral_rows := dihedral_rows s1 @ [] # dihedral_rows s2\<rparr> \<and>
           foldE (dihedral_step prm u t) (xs @ ys) s =
             Inr (s2\<lparr>dihedral_rows := dihedral_rows s1 @ dihedral_rows s2\<rparr>)"
proof -
  from assms(3) obtain s1 where
    1: "foldE (dihedral_step prm u t) xs s = Inr s1"
    and 2: "foldE (dihedral_step prm u t) (d # ys) s1 = Inr s'"
    by (auto simp: foldE_append bindE_Inr_iff)
  from dihedral_fold_alreadyadded [OF 1] assms(1,2) have "sort d \<in> set (alreadyadded s1)"
    by force
  from 2 dihedral_step_duplicate [OF this, of prm u t]
  have 3: "foldE (dihedral_step prm u t) ys (s1\<lparr>dihedral_rows := dihedral_rows s1 @ [[]]\<rparr>)
           = Inr s'"
    by simp
  then obtain s2 where
    4: "foldE (dihedral_step prm u t) ys (s1\<lparr>dihedral_rows := []\<rparr>) = Inr s2"
    and 5: "s' = s2\<lparr>dihedral_rows := (dihedral_rows s1 @ [[]]) @ dihedral_rows s2\<rparr>"
    unfolding dihedral_fold_rows [where q = "dihedral_rows s1 @ [[]]"]
    by (auto split: sum.splits)
  have "foldE (dihedral_step prm u t) ys (s1\<lparr>dihedral_rows := dihedral_rows s1\<rparr>) =
        Inr (s2\<lparr>dihedral_rows := dihedral_rows s1 @ dihedral_rows s2\<rparr>)"
    unfolding dihedral_fold_rows [where q = "dihedral_rows s1"] by (simp add: 4)
  then have "foldE (dihedral_step prm u t) (xs @ ys) s =
             Inr (s2\<lparr>dihedral_rows := dihedral_rows s1 @ dihedral_rows s2\<rparr>)"
    by (simp add: foldE_append 1)
  with 1 4 5 show ?thesis by simp
qed

lemma init_duplicate:
  assumes "mol_dihedrals mol = xs @ ys" "e \<in> set xs" "sort e = sort d"
    and "init const (mol\<lparr>mol_dihedrals := xs @ d # ys\<rparr>) prm = Inr r'"
  shows "\<exists>r R1 R2. init const mol prm = Inr r \<and> length R1 = length xs \<and>
     length R2 = length ys \<and>
     r' = r\<lparr>dihedrals := of_rows 4 (xs @ d # ys),
            dihedral_params := nestedListToArray (map (map Some) (R1 @ [] # R2)) None\<rparr> \<and>
     dihedrals r = of_rows 4 (xs @ ys) \<and>
     dihedral_params r = nestedListToArray (map (map Some) (R1 @ R2)) None"
proof -
  let ?u = "unique_types (atomtype mol)"
  let ?t = "unique_inverse (atomtype mol)"
  let ?n = "length (atomtype mol)"
  let ?s0 = "\<lparr>alreadyadded = [], s14_atom_list = replicate ?n [],
              s14_value_list = replicate ?n [], e14_atom_list = replicate ?n [],
              e14_value_list = replicate ?n [], dihedral_rows = []\<rparr>"
  from assms(4) obtain sg sg14 ep ep14 nb el bp bpar el2 ar ds' ir where
    lj: "lj_vectors prm ?u = Inr (sg, sg14, ep, ep14)"
    and nb: "mapE (nbfix_row prm ?u) (nbfix_types prm) = Inr nb"
    and bo: "foldE (bond_step prm ?u ?t) (mol_bonds mol)
               (replicate ?n [], replicate ?n [], replicate ?n []) = Inr (el, bp, bpar)"
    and an: "foldE (angle_step prm ?u ?t) (mol_angles mol) (el, []) = Inr (el2, ar)"
    and di: "foldE (dihedral_step prm ?u ?t) (xs @ d # ys) ?s0 = Inr ds'"
    and im: "foldE (improper_step prm ?u ?t (mol_bonds mol)) (mol_impropers mol) [] = Inr ir"
    and r': "r' = \<lparr>typeint = of_list ?t,
              excl = nestedListToArray (map (map int) (map (\<lambda>x. sort (remdups x)) el2)) (- 1),
              nbfix = of_rows 6 nb,
              sigma = of_list sg,
              sigma14 = of_list sg14,
              epsilon = of_list ep,
              epsilon14 = of_list ep14,
              s14a = nestedListToArray (map (map int) (s14_atom_list ds')) (- 1),
              e14a = nestedListToArray (map (map int) (e14_atom_list ds')) (- 1),
              s14v = nestedListToArray (map (map Some) (s14_value_list ds')) None,
              e14v = nestedListToArray (map (map Some) (e14_value_list ds')) None,
              bonda = nestedListToArray (map (map int) bp) (- 1),
              bondv = nestedListToArray (map (map Some) bpar) None,
              ELEC_FACTOR = elec_factor const,
              charge = of_list (mol_charge mol),
              angles = of_rows 3 (mol_angles mol),
              angle_params = of_rows 2 ar,
              dihedrals = of_rows 4 (xs @ d # ys),
              dihedral_params = nestedListToArray (map (map Some) (dihedral_rows ds')) None,
              impropers = of_rows 4 (mol_impropers mol),
              improper_params = of_rows 3 (map (map Some) ir)\<rparr>"
    unfolding init_def Let_def numAtoms_def
    by (auto simp: bindE_Inr_iff)
  from dihedral_fold_duplicate [OF assms(2,3) di] obtain s1 s2 where
    1: "foldE (dihedral_step prm ?u ?t) xs ?s0 = Inr s1"
    and 4: "foldE (dihedral_step prm ?u ?t) ys (s1\<lparr>dihedral_rows := []\<rparr>) = Inr s2"
    and 2: "ds' = s2\<lparr>dihedral_rows := dihedral_rows s1 @ [] # dihedral_rows s2\<rparr>"
    and 3: "foldE (dihedral_step prm ?u ?t) (xs @ ys) ?s0 =
             Inr (s2\<lparr>dihedral_rows := dihedral_rows s1 @ dihedral_rows s2\<rparr>)"
    by blast
  from dihedral_fold_length [OF 1] dihedral_fold_length [OF 4]
  have len: "length (dihedral_rows s1) = length xs" "length (dihedral_rows s2) = length ys"
    by simp_all
  let ?r = "r'\<lparr>dihedrals := of_rows 4 (xs @ ys),
               dihedral_params := nestedListToArray
                 (map (map Some) (dihedral_rows s1 @ dihedral_rows s2)) None\<rparr>"
  have "init const mol prm = Inr ?r"
    unfolding init_def Let_def numAtoms_def assms(1)
    by (simp add: lj nb bo an 3 im r' 2)
  moreover have "r' = ?r\<lparr>dihedrals := of_rows 4 (xs @ d # ys),
            dihedral_params := nestedListToArray
              (map (map Some) (dihedral_rows s1 @ [] # dihedral_rows s2)) None\<rparr>"
    by (simp add: r' 2)
  ultimately show ?thesis using len
    by (intro exI [of _ ?r] exI [of _ "dihedral_rows s1"] exI [of _ "dihedral_rows s2"]) simp
qed

lemma torsion_body_apply:
  "torsion_body nu coords box quads params c f i =
   torsion_apply nu coords box c f (\<lambda>x. item quads [i, x], row params i)"
  by (simp add: torsion_body_def torsion_apply_def fun_eq_iff)

lemma takeWhile_sentinel:
  "list_all (\<lambda>x. x = None) tp \<Longrightarrow> takeWhile (\<lambda>x. x \<noteq> None) tp = []"
  "list_all (\<lambda>x. x = None) tp \<Longrightarrow> takeWhile (\<lambda>x. \<exists>y. x = Some y) tp = []"
  by (cases tp; simp)+

lemma evaluate_torsion_sentinel:
  assumes "list_all (\<lambda>x. x = None) tp" "evaluate_torsion nu pos tp box = Inr (pot, force)"
  shows "pot = 0 \<and> (\<forall>d k. force d k = 0)"
  using assms(2)
  by (auto simp: evaluate_torsion_def Let_def bindE_Inr_iff divE_Inr_iff
        takeWhile_sentinel [OF assms(1)])

lemma torsion_apply_sentinel:
  assumes "list_all (\<lambda>x. x = None) tp" "torsion_apply nu coords box c f (q, tp) st = Inr st'"
  shows "st' = st"
proof -
  from assms(2) obtain pot force where
    e: "evaluate_torsion nu (\<lambda>x k. item coords [q x, k, f]) tp (\<lambda>k. item box [k, f])
        = Inr (pot, force)"
    and s: "st' = fold (\<lambda>d st.
                  st\<lparr>forces := fold (\<lambda>k F. add_at F [q d, k, f] (force d k))
                                  [0, 1, 2] (forces st),
                     atmnrg := add_at (atmnrg st) [q d, c, f] (pot / 4)\<rparr>)
            [0, 1, 2, 3]
            (st\<lparr>energies := add_at (energies st) [c, f] pot\<rparr>)"
    by (auto simp: torsion_apply_def bindE_Inr_iff)
  from evaluate_torsion_sentinel [OF assms(1) e] show ?thesis
    unfolding s by simp
qed

lemma fold_max_insert_zero:
  "fold max (xs @ 0 # ys) (a::nat) = fold max (xs @ ys) a"
  by simp

lemma item_nestedListToArray:
  "item (nestedListToArray nl d) [i, c] =
     (if i < length nl \<and> c < length (nl ! i) then nl ! i ! c else d)"
proof (cases "i < length nl \<and> c < length (nl ! i)")
  case True
  then have "nl ! i \<in> set nl" "nl ! i \<noteq> []" by auto
  then have "\<not> (\<forall>x\<in>set nl. x = [])" by blast
  with True show ?thesis
    by (auto simp: nestedListToArray_def Let_def list_all_iff)
next
  case False
  then show ?thesis
    by (auto simp: nestedListToArray_def Let_def list_all_iff)
qed

lemma width_nestedListToArray_insert:
  "shape (nestedListToArray (A @ [] # B) d) ! Suc 0 = shape (nestedListToArray (A @ B) d) ! Suc 0"
  by (auto simp: nestedListToArray_def Let_def)

lemma row_insert_before:
  assumes "i < length A"
  shows "row (nestedListToArray (A @ [] # B) d) i = row (nestedListToArray (A @ B) d) i"
  using assms
  by (simp add: row_def width_nestedListToArray_insert item_nestedListToArray nth_append)

lemma row_insert_after:
  assumes "length A \<le> i" "i < length A + length B"
  shows "row (nestedListToArray (A @ [] # B) d) (Suc i) = row (nestedListToArray (A @ B) d) i"
  using assms
  by (auto simp: row_def width_nestedListToArray_insert item_nestedListToArray nth_append
        Suc_diff_le)

lemma row_insert_at:
  "list_all (\<lambda>x. x = d) (row (nestedListToArray (A @ [] # B) d) (length A))"
  by (simp add: row_def item_nestedListToArray list_all_iff)

lemma foldE_map: "foldE (\<lambda>x. g (h x)) xs s = foldE g (map h xs) s"
proof (induction xs arbitrary: s)
  case Nil
  show ?case by simp
next
  case (Cons x xs)
  show ?case by (cases "g (h x) s") (simp_all add: Cons.IH)
qed

lemma foldE_transfer:
  assumes "foldE g' xs s = Inr s'" "\<And>x s s'. g' x s = Inr s' \<Longrightarrow> g x s = Inr s'"
  shows "foldE g xs s = Inr s'"
  using assms(1)
proof (induction xs arbitrary: s)
  case Nil
  then show ?case by simp
next
  case (Cons x xs)
  from Cons.prems obtain s1 where 1: "g' x s = Inr s1" and 2: "foldE g' xs s1 = Inr s'"
    by (auto simp: bindE_Inr_iff)
  from assms(2) [OF 1] Cons.IH [OF 2] show ?case by simp
qed

text \<open>The torsion loop over an index array and a parameter array with a row inserted.\<close>

lemma torsion_loop_insert:
  assumes "length R1 = length xs" "length R2 = length ys"
    and "foldE (torsion_body nu coords box (of_rows 4 (xs @ d # ys))
                 (nestedListToArray (map (map Some) (R1 @ [] # R2)) None) c f)
           [0..<length xs + length ys + 1] st = Inr st'"
  shows "foldE (torsion_body nu coords box (of_rows 4 (xs @ ys))
                 (nestedListToArray (map (map Some) (R1 @ R2)) None) c f)
           [0..<length xs + length ys] st = Inr st'"
proof -
  let ?A = "map (map Some) R1" and ?B = "map (map Some) R2"
  let ?P' = "nestedListToArray (?A @ [] # ?B) None"
  let ?P = "nestedListToArray (?A @ ?B) None"
  let ?Q' = "of_rows 4 (xs @ d # ys)" and ?Q = "of_rows 4 (xs @ ys)"
  let ?h' = "\<lambda>i. (\<lambda>x. item ?Q' [i, x], row ?P' i)"
  let ?h = "\<lambda>i. (\<lambda>x. item ?Q [i, x], row ?P i)"
  let ?G = "torsion_apply nu coords box c f"
  let ?k = "length xs" and ?n = "length xs + length ys"
  have la: "length ?A = ?k" "length ?B = length ys" using assms(1,2) by simp_all
  have before: "?h' i = ?h i" if "i < ?k" for i
    using that row_insert_before [of i ?A ?B None] la
    by (simp add: of_rows_def nth_append)
  have after: "?h' (Suc i) = ?h i" if "?k \<le> i" "i < ?n" for i
    using that row_insert_after [of ?A i ?B None] la
    by (simp add: of_rows_def nth_append Suc_diff_le)
  have "[0..<?k + (length ys + 1)] = [0..<?k] @ [?k..<?k + (length ys + 1)]"
    by (rule upt_add_eq_append) simp
  moreover have "[?k..<?k + (length ys + 1)] = ?k # [Suc ?k..<Suc ?n]"
    by (subst upt_conv_Cons) simp_all
  moreover have "[Suc ?k..<Suc ?n] = map Suc [?k..<?n]"
    by (simp only: map_Suc_upt)
  ultimately have split': "[0..<?n + 1] = [0..<?k] @ ?k # map Suc [?k..<?n]"
    by (simp only: add.assoc)
  have split: "[0..<?n] = [0..<?k] @ [?k..<?n]"
    by (rule upt_add_eq_append) simp
  have m1: "map ?h' [0..<?k] = map ?h [0..<?k]"
    using before by simp
  have m2: "map ?h' (map Suc [?k..<?n]) = map ?h [?k..<?n]"
    using after by simp
  have eq: "map (map Some) (R1 @ [] # R2) = ?A @ [] # ?B" "map (map Some) (R1 @ R2) = ?A @ ?B"
    by simp_all
  have b': "torsion_body nu coords box ?Q' ?P' c f = (\<lambda>i. ?G (?h' i))"
    by (rule ext) (simp only: torsion_body_apply)
  have b: "torsion_body nu coords box ?Q ?P c f = (\<lambda>i. ?G (?h i))"
    by (rule ext) (simp only: torsion_body_apply)
  from assms(3) have "foldE ?G (map ?h' [0..<?n + 1]) st = Inr st'"
    unfolding eq b' by (simp only: foldE_map [where g = ?G and h = ?h'])
  then have r: "foldE ?G (map ?h [0..<?k] @ ?h' ?k # map ?h [?k..<?n]) st = Inr st'"
    unfolding split' by (simp only: map_append list.map m1 m2)
  then obtain s1 s2 where
    1: "foldE ?G (map ?h [0..<?k]) st = Inr s1"
    and 2: "?G (?h' ?k) s1 = Inr s2"
    and 3: "foldE ?G (map ?h [?k..<?n]) s2 = Inr st'"
    by (auto simp: foldE_append bindE_Inr_iff)
  have "list_all (\<lambda>x. x = None) (row ?P' ?k)"
    using row_insert_at [of None ?A ?B] la by simp
  from torsion_apply_sentinel [OF this] 2 have "s2 = s1"
    by simp
  with 1 3 have "foldE ?G (map ?h [0..<?k] @ map ?h [?k..<?n]) st = Inr st'"
    by (simp add: foldE_append)
  then have "foldE ?G (map ?h [0..<?n]) st = Inr st'"
    by (subst split) (simp only: map_append)
  then show ?thesis
    unfolding eq b by (simp only: foldE_map [where g = ?G and h = ?h])
qed

lemma pair_body_update_dihedrals:
  fixes a :: ffargs
  shows "pair_body nu coords box (a\<lparr>dihedrals := Q, dihedral_params := P\<rparr>) f i =
         pair_body nu coords box a f i"
proof -
  let ?a' = "a\<lparr>dihedrals := Q, dihedral_params := P\<rparr>"
  have fs: "bonda ?a' = bonda a" "excl ?a' = excl a" "set1 ?a' = set1 a" "set2 ?a' = set2 a"
    "cutoff ?a' = cutoff a" "bondv ?a' = bondv a" "typeint ?a' = typeint a"
    "nbfix ?a' = nbfix a" "sigma ?a' = sigma a" "sigma14 ?a' = sigma14 a"
    "epsilon ?a' = epsilon a" "epsilon14 ?a' = epsilon14 a" "s14a ?a' = s14a a"
    "s14v ?a' = s14v a" "charge ?a' = charge a" "e14a ?a' = e14a a" "e14v ?a' = e14v a"
    "ELEC_FACTOR ?a' = ELEC_FACTOR a" "rfa ?a' = rfa a"
    "solventDielectric ?a' = solventDielectric a"
    by simp_all
  show ?thesis
    by (rule ext)+ (simp only: pair_body_eq usersets_def fs)
qed

lemma angle_body_update_dihedrals:
  fixes a :: ffargs
  shows "angle_body nu coords box (a\<lparr>dihedrals := Q, dihedral_params := P\<rparr>) f =
         angle_body nu coords box a f"
  by (rule ext)+ (simp add: angle_body_def)

lemma frame_body_duplicate:
  fixes a :: ffargs
  assumes a': "a' = a\<lparr>dihedrals := of_rows 4 (xs @ d # ys),
                       dihedral_params :=
                         nestedListToArray (map (map Some) (R1 @ [] # R2)) None\<rparr>"
    and da: "dihedrals a = of_rows 4 (xs @ ys)"
    and pa: "dihedral_params a = nestedListToArray (map (map Some) (R1 @ R2)) None"
    and len: "length R1 = length xs" "length R2 = length ys"
    and r: "frame_body nu coords box a' f st = Inr st'"
  shows "frame_body nu coords box a f st = Inr st'"
proof -
  let ?n = "shape coords ! 0"
  have pb: "pair_body nu coords box a' f i = pair_body nu coords box a f i" for i
    unfolding a' by (rule pair_body_update_dihedrals)
  have ab: "angle_body nu coords box a' f = angle_body nu coords box a f"
    unfolding a' by (rule angle_body_update_dihedrals)
  have f': "usersets a' = usersets a" "angles a' = angles a" "impropers a' = impropers a"
    "improper_params a' = improper_params a"
    "dihedrals a' = of_rows 4 (xs @ d # ys)"
    "dihedral_params a' = nestedListToArray (map (map Some) (R1 @ [] # R2)) None"
    by (simp_all add: a' usersets_def)
  have sh: "shape (of_rows 4 (xs @ d # ys)) ! 0 = length xs + length ys + 1"
    "shape (of_rows 4 (xs @ ys)) ! 0 = length xs + length ys"
    by (simp_all add: of_rows_def)
  from r obtain s1 where
    p: "foldE (\<lambda>i. foldE (pair_body nu coords box a f i) [i + 1..<?n]) [0..<?n] st = Inr s1"
    and q: "(if usersets a then Inr s1
             else bindE (foldE (angle_body nu coords box a f) [0..<shape (angles a) ! 0] s1) (\<lambda>st.
                  bindE (foldE (torsion_body nu coords box (of_rows 4 (xs @ d # ys))
                           (nestedListToArray (map (map Some) (R1 @ [] # R2)) None) 4 f)
                           [0..<length xs + length ys + 1] st) (\<lambda>st.
                  foldE (torsion_body nu coords box (impropers a) (improper_params a) 5 f)
                    [0..<shape (impropers a) ! 0] st))) = Inr st'"
    unfolding frame_body_def Let_def pb ab f' sh
    by (auto simp: bindE_Inr_iff)
  show ?thesis
  proof (cases "usersets a")
    case True
    with q have "st' = s1" by simp
    with True show ?thesis
      unfolding frame_body_def Let_def by (simp only: p bindE_Inr if_True)
  next
    case False
    with q obtain s2 s3 where
      1: "foldE (angle_body nu coords box a f) [0..<shape (angles a) ! 0] s1 = Inr s2"
      and 2: "foldE (torsion_body nu coords box (of_rows 4 (xs @ d # ys))
                 (nestedListToArray (map (map Some) (R1 @ [] # R2)) None) 4 f)
                 [0..<length xs + length ys + 1] s2 = Inr s3"
      and 3: "foldE (torsion_body nu coords box (impropers a) (improper_params a) 5 f)
                    [0..<shape (impropers a) ! 0] s3 = Inr st'"
      by (auto simp: bindE_Inr_iff)
    from torsion_loop_insert [OF len 2]
    have 4: "foldE (torsion_body nu coords box (of_rows 4 (xs @ ys))
                 (nestedListToArray (map (map Some) (R1 @ R2)) None) 4 f)
                 [0..<length xs + length ys] s2 = Inr s3" .
    show ?thesis
      unfolding frame_body_def Let_def da pa sh
      using False by (simp only: p 1 4 3 bindE_Inr if_False)
  qed
qed

lemma ffevaluate_duplicate:
  fixes a :: ffargs
  assumes a': "a' = a\<lparr>dihedrals := of_rows 4 (xs @ d # ys),
                       dihedral_params :=
                         nestedListToArray (map (map Some) (R1 @ [] # R2)) None\<rparr>"
    and da: "dihedrals a = of_rows 4 (xs @ ys)"
    and pa: "dihedral_params a = nestedListToArray (map (map Some) (R1 @ R2)) None"
    and len: "length R1 = length xs" "length R2 = length ys"
    and r: "ffevaluate nu coords box a' = Inr out"
  shows "ffevaluate nu coords box a = Inr out"
  using r unfolding ffevaluate_def Let_def
  by (rule foldE_transfer) (rule frame_body_duplicate [OF a' da pa len])

lemma ex_init_dup:
  "init ex_const (ex_mol\<lparr>mol_dihedrals := [[0, 1, 2, 3]] @ [3, 2, 1, 0] # []\<rparr>) ex_prm =
   Inr (ex_init\<lparr>dihedrals := of_rows 4 [[0, 1, 2, 3], [3, 2, 1, 0]],
                dihedral_params :=
                  nestedListToArray [[Some 1, Some (radians 0), Some 3], []] None\<rparr>)"
proof -
  let ?mol = "ex_mol\<lparr>mol_dihedrals := [[0, 1, 2, 3]] @ [3, 2, 1, 0] # []\<rparr>"
  have m: "atomtype ?mol = [''H'', ''C'', ''C'', ''H'']"
    "mol_bonds ?mol = [[0, 1], [1, 2], [2, 3]]"
    "mol_angles ?mol = [[0, 1, 2], [1, 2, 3]]"
    "mol_dihedrals ?mol = [[0, 1, 2, 3], [3, 2, 1, 0]]"
    "mol_impropers ?mol = []"
    "mol_charge ?mol = [1, - 1, - 1, 1]"
    by (simp_all add: ex_mol_def)
  have ut: "unique_types [''H'', ''C'', ''C'', ''H''] = [''C'', ''H'']"
    "unique_inverse [''H'', ''C'', ''C'', ''H''] = [1, 0, 0, 1]"
    using ex_unique_types ex_unique_inverse by (simp_all add: ex_mol_def)
  have n: "nbfix_types ex_prm = []" by (simp add: ex_prm_def)
  have len: "length [''H'', ''C'', ''C'', ''H''] = 4" by simp
  have s: "sort [3, 2, 1, 0 :: nat] \<in> set (alreadyadded ex_dihedral_state)"
    by (simp add: ex_dihedral_state_def)
  have d: "foldE (dihedral_step ex_prm [''C'', ''H''] [1, 0, 0, 1]) [[0, 1, 2, 3], [3, 2, 1, 0]]
     \<lparr>alreadyadded = [],
      s14_atom_list = replicate 4 [],
      s14_value_list = replicate 4 [],
      e14_atom_list = replicate 4 [],
      e14_value_list = replicate 4 [],
      dihedral_rows = []\<rparr> =
     Inr (ex_dihedral_state\<lparr>dihedral_rows := dihedral_rows ex_dihedral_state @ [[]]\<rparr>)"
    by (simp only: foldE.simps ex_dihedral_step bindE_Inr dihedral_step_duplicate [OF s])
  have i: "foldE (improper_step ex_prm [''C'', ''H''] [1, 0, 0, 1] [[0, 1], [1, 2], [2, 3]]) [] [] =
           Inr []"
    by simp
  have e: "map (\<lambda>x. sort (remdups x)) [[1, 2], [2, 3], [3], []] = [[1, 2], [2, 3], [3], [] :: nat list]"
    by simp
  have v: "map (map int) [[1, 2], [2, 3], [3], []] = [[1, 2], [2, 3], [3], []]"
    "map (map int) [[3], [], [], []] = [[3], [], [], []]"
    "map (map int) [[1], [2], [3], []] = [[1], [2], [3], []]"
    "map (map Some) [[2], [], [], []] = [[Some 2], [], [], [] :: real option list]"
    "map (map Some) [[6 / 5], [], [], []] = [[Some (6 / 5)], [], [], [] :: real option list]"
    "map (map Some) [[100, 1], [200, 1], [100, 1], []] =
       [[Some 100, Some 1], [Some 200, Some 1], [Some 100, Some 1], [] :: real option list]"
    "map (map Some) ([[1, radians 0, 3]] @ [[]]) = [[Some 1, Some (radians 0), Some 3], []]"
    "map (map Some) ([] :: real list list) = []"
    by simp_all
  show ?thesis
    unfolding init_def Let_def numAtoms_def m ut len
    by (simp only: ex_lj_vectors ex_bonds ex_angles d i e v n mapE.simps bindE_Inr prod.case
          ex_dihedral_state_def ex_init_def dihedral_state.simps init_result.simps)
qed

lemma ex_FFEvaluate_init_dup:
  "FFEvaluate_init ex_atomselect ex_const
     (ex_mol\<lparr>mol_dihedrals := [[0, 1, 2, 3]] @ [3, 2, 1, 0] # []\<rparr>) ex_prm None 0 False (157 / 2)
   = Inr ex_args_dup"
proof -
  have "init_result.extend
          (ex_init\<lparr>dihedrals := of_rows 4 [[0, 1, 2, 3], [3, 2, 1, 0]],
                   dihedral_params :=
                     nestedListToArray [[Some 1, Some (radians 0), Some 3], []] None\<rparr>)
          (ffargs.fields [] [] 0 False (157 / 2)) = ex_args_dup"
    by (simp add: ex_args_dup_def ex_args_def init_result.defs)
  then show ?thesis
    unfolding FFEvaluate_init_def calculateSets_def
    by (simp only: option.case bindE_Inr prod.case ex_init_dup)
qed

lemma ex_args_dup_fields:
  "dihedrals ex_args_dup = of_rows 4 [[0, 1, 2, 3], [3, 2, 1, 0]]"
  "dihedral_params ex_args_dup = nestedListToArray [[Some 1, Some (radians 0), Some 3], []] None"
  "angles ex_args_dup = angles ex_args" "impropers ex_args_dup = impropers ex_args"
  "usersets ex_args_dup = usersets ex_args"
  by (simp_all add: ex_args_dup_def usersets_def)

lemma ex_dup_torsion_kernel:
  "\<not> isl (evaluate_torsion ex_nu (\<lambda>x k. item ex_coords [item (dihedrals ex_args_dup) [0, x], k, 0])
              (row (dihedral_params ex_args_dup) 0) (\<lambda>k. item ex_box [k, 0]))"
  "\<not> isl (evaluate_torsion ex_nu (\<lambda>x k. item ex_coords [item (dihedrals ex_args_dup) [1, x], k, 0])
              (row (dihedral_params ex_args_dup) 1) (\<lambda>k. item ex_box [k, 0]))"
  by (simp_all add: evaluate_torsion_def ex_args_dup_fields of_rows_def ex_nu_def ex_pos divE_def
        ex_dihedralAngleFull_def Let_def cross_def dot_def case_prod_beta row_def
        nestedListToArray_def upt_rec_numeral)

lemma torsion_apply_sentinel_returns:
  assumes "list_all (\<lambda>x. x = None) tp"
    and "\<not> isl (evaluate_torsion nu (\<lambda>x k. item coords [q x, k, f]) tp (\<lambda>k. item box [k, f]))"
  shows "torsion_apply nu coords box c f (q, tp) st = Inr st"
proof -
  from assms(2) obtain r where
    "evaluate_torsion nu (\<lambda>x k. item coords [q x, k, f]) tp (\<lambda>k. item box [k, f]) = Inr r"
    by (auto dest: not_isl_Inr)
  then have "\<exists>st'. torsion_apply nu coords box c f (q, tp) st = Inr st'"
    by (simp add: torsion_apply_def case_prod_beta)
  then obtain st' where s: "torsion_apply nu coords box c f (q, tp) st = Inr st'" by blast
  from torsion_apply_sentinel [OF assms(1) s] s show ?thesis by simp
qed

lemma foldE_cong_set:
  assumes "\<And>x s. x \<in> set xs \<Longrightarrow> g x s = g' x s"
  shows "foldE g xs s = foldE g' xs s"
  using assms
proof (induction xs arbitrary: s)
  case Nil
  show ?case by simp
next
  case (Cons x xs)
  have 1: "g x s = g' x s" by (rule Cons.prems) simp
  have 2: "foldE g xs t = foldE g' xs t" for t
    by (rule Cons.IH) (rule Cons.prems, simp)
  show ?case by (cases "g' x s") (simp_all add: 1 2)
qed

lemma foldE_Cons_fun: "foldE g (x # xs) = (\<lambda>s. bindE (g x s) (foldE g xs))"
  by (rule ext) simp

text \<open>
  The torsion loop with an inserted row, when the kernel returns on the inserted entry.
\<close>

lemma torsion_loop_insert_eq:
  assumes "length R1 = length xs" "length R2 = length ys"
    and "\<not> isl (evaluate_torsion nu
                  (\<lambda>x k. item coords [item (of_rows 4 (xs @ d # ys)) [length xs, x], k, f])
                  (row (nestedListToArray (map (map Some) (R1 @ [] # R2)) None) (length xs))
                  (\<lambda>k. item box [k, f]))"
  shows "foldE (torsion_body nu coords box (of_rows 4 (xs @ d # ys))
                 (nestedListToArray (map (map Some) (R1 @ [] # R2)) None) c f)
           [0..<length xs + length ys + 1] st =
         foldE (torsion_body nu coords box (of_rows 4 (xs @ ys))
                 (nestedListToArray (map (map Some) (R1 @ R2)) None) c f)
           [0..<length xs + length ys] st"
proof -
  let ?A = "map (map Some) R1" and ?B = "map (map Some) R2"
  let ?P' = "nestedListToArray (?A @ [] # ?B) None"
  let ?P = "nestedListToArray (?A @ ?B) None"
  let ?Q' = "of_rows 4 (xs @ d # ys)" and ?Q = "of_rows 4 (xs @ ys)"
  let ?h' = "\<lambda>i. (\<lambda>x. item ?Q' [i, x], row ?P' i)"
  let ?h = "\<lambda>i. (\<lambda>x. item ?Q [i, x], row ?P i)"
  let ?G = "torsion_apply nu coords box c f"
  let ?k = "length xs" and ?n = "length xs + length ys"
  have la: "length ?A = ?k" "length ?B = length ys" using assms(1,2) by simp_all
  have before: "?h' i = ?h i" if "i < ?k" for i
    using that row_insert_before [of i ?A ?B None] la
    by (simp add: of_rows_def nth_append)
  have after: "?h' (Suc i) = ?h i" if "?k \<le> i" "i < ?n" for i
    using that row_insert_after [of ?A i ?B None] la
    by (simp add: of_rows_def nth_append Suc_diff_le)
  have "[0..<?k + (length ys + 1)] = [0..<?k] @ [?k..<?k + (length ys + 1)]"
    by (rule upt_add_eq_append) simp
  moreover have "[?k..<?k + (length ys + 1)] = ?k # [Suc ?k..<Suc ?n]"
    by (subst upt_conv_Cons) simp_all
  moreover have "[Suc ?k..<Suc ?n] = map Suc [?k..<?n]"
    by (simp only: map_Suc_upt)
  ultimately have split': "[0..<?n + 1] = [0..<?k] @ ?k # map Suc [?k..<?n]"
    by (simp only: add.assoc)
  have split: "[0..<?n] = [0..<?k] @ [?k..<?n]"
    by (rule upt_add_eq_append) simp
  have m1: "map ?h' [0..<?k] = map ?h [0..<?k]"
    using before by simp
  have m2: "map ?h' (map Suc [?k..<?n]) = map ?h [?k..<?n]"
    using after by simp
  have eq: "map (map Some) (R1 @ [] # R2) = ?A @ [] # ?B" "map (map Some) (R1 @ R2) = ?A @ ?B"
    by simp_all
  have b': "torsion_body nu coords box ?Q' ?P' c f = (\<lambda>i. ?G (?h' i))"
    by (rule ext) (simp only: torsion_body_apply)
  have b: "torsion_body nu coords box ?Q ?P c f = (\<lambda>i. ?G (?h i))"
    by (rule ext) (simp only: torsion_body_apply)
  have sent: "list_all (\<lambda>x. x = None) (row ?P' ?k)"
    using row_insert_at [of None ?A ?B] la by simp
  have ok: "\<not> isl (evaluate_torsion nu (\<lambda>x k. item coords [item ?Q' [?k, x], k, f])
                     (row ?P' ?k) (\<lambda>k. item box [k, f]))"
    using assms(3) unfolding eq .
  have skip: "?G (?h' ?k) s = Inr s" for s
    by (rule torsion_apply_sentinel_returns [OF sent ok])
  have "foldE (torsion_body nu coords box ?Q' ?P' c f) [0..<?n + 1] st =
        foldE ?G (map ?h' [0..<?n + 1]) st"
    unfolding b' by (simp only: foldE_map [where g = ?G and h = ?h'])
  also have "\<dots> = foldE ?G (map ?h [0..<?k] @ ?h' ?k # map ?h [?k..<?n]) st"
    unfolding split' by (simp only: map_append list.map m1 m2)
  also have "\<dots> = bindE (foldE ?G (map ?h [0..<?k]) st)
                     (\<lambda>s. bindE (?G (?h' ?k) s) (foldE ?G (map ?h [?k..<?n])))"
    by (simp only: foldE_append foldE_Cons_fun)
  also have "\<dots> = bindE (foldE ?G (map ?h [0..<?k]) st) (foldE ?G (map ?h [?k..<?n]))"
    by (simp only: skip bindE_Inr)
  also have "\<dots> = foldE ?G (map ?h [0..<?n]) st"
    by (subst split) (simp only: map_append foldE_append)
  also have "\<dots> = foldE (torsion_body nu coords box ?Q ?P c f) [0..<?n] st"
    unfolding b by (simp only: foldE_map [where g = ?G and h = ?h])
  finally show ?thesis unfolding eq .
qed

lemma frame_body_duplicate_eq:
  fixes a :: ffargs
  assumes a': "a' = a\<lparr>dihedrals := of_rows 4 (xs @ d # ys),
                       dihedral_params :=
                         nestedListToArray (map (map Some) (R1 @ [] # R2)) None\<rparr>"
    and da: "dihedrals a = of_rows 4 (xs @ ys)"
    and pa: "dihedral_params a = nestedListToArray (map (map Some) (R1 @ R2)) None"
    and len: "length R1 = length xs" "length R2 = length ys"
    and ok: "\<not> isl (evaluate_torsion nu
                  (\<lambda>x k. item coords [item (dihedrals a') [length xs, x], k, f])
                  (row (dihedral_params a') (length xs)) (\<lambda>k. item box [k, f]))"
  shows "frame_body nu coords box a' f st = frame_body nu coords box a f st"
proof -
  have pb: "pair_body nu coords box a' f i = pair_body nu coords box a f i" for i
    unfolding a' by (rule pair_body_update_dihedrals)
  have ab: "angle_body nu coords box a' f = angle_body nu coords box a f"
    unfolding a' by (rule angle_body_update_dihedrals)
  have f': "usersets a' = usersets a" "angles a' = angles a" "impropers a' = impropers a"
    "improper_params a' = improper_params a"
    "dihedrals a' = of_rows 4 (xs @ d # ys)"
    "dihedral_params a' = nestedListToArray (map (map Some) (R1 @ [] # R2)) None"
    by (simp_all add: a' usersets_def)
  have sh: "shape (of_rows 4 (xs @ d # ys)) ! 0 = length xs + length ys + 1"
    "shape (of_rows 4 (xs @ ys)) ! 0 = length xs + length ys"
    by (simp_all add: of_rows_def)
  note loop = torsion_loop_insert_eq [OF len ok [unfolded f'], of 4]
  show ?thesis
    unfolding frame_body_def Let_def pb ab f' sh da pa
    by (simp only: loop)
qed

lemma ffevaluate_duplicate_eq:
  fixes a :: ffargs
  assumes a': "a' = a\<lparr>dihedrals := of_rows 4 (xs @ d # ys),
                       dihedral_params :=
                         nestedListToArray (map (map Some) (R1 @ [] # R2)) None\<rparr>"
    and da: "dihedrals a = of_rows 4 (xs @ ys)"
    and pa: "dihedral_params a = nestedListToArray (map (map Some) (R1 @ R2)) None"
    and len: "length R1 = length xs" "length R2 = length ys"
    and ok: "\<forall>f<shape coords ! 2.
               \<not> isl (evaluate_torsion nu
                  (\<lambda>x k. item coords [item (dihedrals a') [length xs, x], k, f])
                  (row (dihedral_params a') (length xs)) (\<lambda>k. item box [k, f]))"
  shows "ffevaluate nu coords box a' = ffevaluate nu coords box a"
  unfolding ffevaluate_def Let_def
proof (rule foldE_cong_set)
  fix f s
  assume "f \<in> set [0..<shape coords ! 2]"
  then have "f < shape coords ! 2" by simp
  with ok have "\<not> isl (evaluate_torsion nu
                  (\<lambda>x k. item coords [item (dihedrals a') [length xs, x], k, f])
                  (row (dihedral_params a') (length xs)) (\<lambda>k. item box [k, f]))"
    by blast
  from frame_body_duplicate_eq [OF a' da pa len this]
  show "frame_body nu coords box a' f s = frame_body nu coords box a f s" .
qed

text \<open>
  The evaluations with and without a repeated dihedral entry, given that the constructor
  returns for the topology with the repeated entry.
\<close>

lemma repeated_dihedral_indexed:
  assumes "mol_dihedrals mol = xs @ ys" "e \<in> set xs" "sort e = sort d"
    and "sel (mol\<lparr>mol_dihedrals := xs @ d # ys\<rparr>) = sel mol"
    and "FFEvaluate_init sel const (mol\<lparr>mol_dihedrals := xs @ d # ys\<rparr>) prm bs c r sd = Inr a'"
  shows "(\<exists>a. FFEvaluate_init sel const mol prm bs c r sd = Inr a \<and>
            (\<forall>nu coords box.
               (\<forall>f<shape coords ! 2.
                  \<not> isl (evaluate_torsion nu
                           (\<lambda>x k. item coords [item (dihedrals a') [length xs, x], k, f])
                           (row (dihedral_params a') (length xs)) (\<lambda>k. item box [k, f]))) \<longrightarrow>
               ffevaluate nu coords box a' = ffevaluate nu coords box a) \<and>
            (\<forall>nu coords box out. ffevaluate nu coords box a' = Inr out \<longrightarrow>
                                 ffevaluate nu coords box a = Inr out)) \<and>
         (bs = None \<longrightarrow>
            list_all (\<lambda>x. x = None) (row (dihedral_params a') (length xs)) \<and>
            (\<forall>x. item (dihedrals a') [length xs, x] = d ! x)) \<and>
         (\<forall>nu pos tp b pot force.
            list_all (\<lambda>x. x = None) tp \<longrightarrow> evaluate_torsion nu pos tp b = Inr (pot, force) \<longrightarrow>
            pot = 0 \<and> (\<forall>q k. force q k = 0))"
proof (intro conjI)
  show "\<forall>nu pos tp b pot force.
            list_all (\<lambda>x. x = None) tp \<longrightarrow> evaluate_torsion nu pos tp b = Inr (pot, force) \<longrightarrow>
            pot = 0 \<and> (\<forall>q k. force q k = 0)"
    using evaluate_torsion_sentinel by blast
next
  show "\<exists>a. FFEvaluate_init sel const mol prm bs c r sd = Inr a \<and>
            (\<forall>nu coords box.
               (\<forall>f<shape coords ! 2.
                  \<not> isl (evaluate_torsion nu
                           (\<lambda>x k. item coords [item (dihedrals a') [length xs, x], k, f])
                           (row (dihedral_params a') (length xs)) (\<lambda>k. item box [k, f]))) \<longrightarrow>
               ffevaluate nu coords box a' = ffevaluate nu coords box a) \<and>
            (\<forall>nu coords box out. ffevaluate nu coords box a' = Inr out \<longrightarrow>
                                 ffevaluate nu coords box a = Inr out)"
  proof (cases bs)
    case None
    with assms(5) obtain r' where
      i: "init const (mol\<lparr>mol_dihedrals := xs @ d # ys\<rparr>) prm = Inr r'"
      and a': "a' = init_result.extend r' (ffargs.fields [] [] c r sd)"
      by (auto simp: FFEvaluate_init_def calculateSets_def bindE_Inr_iff)
    from init_duplicate [OF assms(1-3) i] obtain r0 R1 R2 where
      i0: "init const mol prm = Inr r0"
      and len: "length R1 = length xs" "length R2 = length ys"
      and r': "r' = r0\<lparr>dihedrals := of_rows 4 (xs @ d # ys),
                 dihedral_params := nestedListToArray (map (map Some) (R1 @ [] # R2)) None\<rparr>"
      and d0: "dihedrals r0 = of_rows 4 (xs @ ys)"
      and p0: "dihedral_params r0 = nestedListToArray (map (map Some) (R1 @ R2)) None"
      by blast
    let ?a = "init_result.extend r0 (ffargs.fields [] [] c r sd)"
    have 1: "FFEvaluate_init sel const mol prm bs c r sd = Inr ?a"
      by (simp add: FFEvaluate_init_def calculateSets_def None i0)
    have 2: "a' = ?a\<lparr>dihedrals := of_rows 4 (xs @ d # ys),
                 dihedral_params := nestedListToArray (map (map Some) (R1 @ [] # R2)) None\<rparr>"
      unfolding a' r' by (simp add: init_result.defs)
    have 3: "dihedrals ?a = of_rows 4 (xs @ ys)"
      "dihedral_params ?a = nestedListToArray (map (map Some) (R1 @ R2)) None"
      by (simp_all add: init_result.defs d0 p0)
    from ffevaluate_duplicate [OF 2 3 len] ffevaluate_duplicate_eq [OF 2 3 len] 1
    show ?thesis by blast
  next
    case (Some p)
    obtain sA sB where p: "p = (sA, sB)" by (cases p)
    have "FFEvaluate_init sel const mol prm bs c r sd = Inr a'"
      using assms(5) unfolding FFEvaluate_init_def calculateSets_def Some p assms(4)
      by simp
    then show ?thesis by blast
  qed
next
  show "bs = None \<longrightarrow>
          list_all (\<lambda>x. x = None) (row (dihedral_params a') (length xs)) \<and>
          (\<forall>x. item (dihedrals a') [length xs, x] = d ! x)"
  proof
    assume None: "bs = None"
    with assms(5) obtain r' where
      i: "init const (mol\<lparr>mol_dihedrals := xs @ d # ys\<rparr>) prm = Inr r'"
      and a': "a' = init_result.extend r' (ffargs.fields [] [] c r sd)"
      by (auto simp: FFEvaluate_init_def calculateSets_def bindE_Inr_iff)
    from init_duplicate [OF assms(1-3) i] obtain r0 R1 R2 where
      len: "length R1 = length xs"
      and r': "r' = r0\<lparr>dihedrals := of_rows 4 (xs @ d # ys),
                 dihedral_params := nestedListToArray (map (map Some) (R1 @ [] # R2)) None\<rparr>"
      by blast
    have "dihedral_params a' =
          nestedListToArray (map (map Some) R1 @ [] # map (map Some) R2) None"
      unfolding a' r' by (simp add: init_result.defs)
    with row_insert_at [of None "map (map Some) R1" "map (map Some) R2"] len
    have 1: "list_all (\<lambda>x. x = None) (row (dihedral_params a') (length xs))"
      by simp
    have "dihedrals a' = of_rows 4 (xs @ d # ys)"
      unfolding a' r' by (simp add: init_result.defs)
    then have 2: "\<forall>x. item (dihedrals a') [length xs, x] = d ! x"
      by (simp add: of_rows_def)
    from 1 2 show "list_all (\<lambda>x. x = None) (row (dihedral_params a') (length xs)) \<and>
          (\<forall>x. item (dihedrals a') [length xs, x] = d ! x)" by simp
  qed
qed

lemma ex_init_swap:
  "init ex_const (ex_mol\<lparr>mol_dihedrals := [[0, 1, 2, 3], [1, 0, 2, 3]]\<rparr>) ex_prm =
   Inr (ex_init\<lparr>dihedrals := of_rows 4 [[0, 1, 2, 3], [1, 0, 2, 3]],
                dihedral_params :=
                  nestedListToArray [[Some 1, Some (radians 0), Some 3], []] None\<rparr>)"
proof -
  let ?mol = "ex_mol\<lparr>mol_dihedrals := [[0, 1, 2, 3], [1, 0, 2, 3]]\<rparr>"
  have m: "atomtype ?mol = [''H'', ''C'', ''C'', ''H'']"
    "mol_bonds ?mol = [[0, 1], [1, 2], [2, 3]]"
    "mol_angles ?mol = [[0, 1, 2], [1, 2, 3]]"
    "mol_dihedrals ?mol = [[0, 1, 2, 3], [1, 0, 2, 3]]"
    "mol_impropers ?mol = []"
    "mol_charge ?mol = [1, - 1, - 1, 1]"
    by (simp_all add: ex_mol_def)
  have ut: "unique_types [''H'', ''C'', ''C'', ''H''] = [''C'', ''H'']"
    "unique_inverse [''H'', ''C'', ''C'', ''H''] = [1, 0, 0, 1]"
    using ex_unique_types ex_unique_inverse by (simp_all add: ex_mol_def)
  have n: "nbfix_types ex_prm = []" by (simp add: ex_prm_def)
  have len: "length [''H'', ''C'', ''C'', ''H''] = 4" by simp
  have s: "sort [1, 0, 2, 3 :: nat] \<in> set (alreadyadded ex_dihedral_state)"
    by (simp add: ex_dihedral_state_def)
  have d: "foldE (dihedral_step ex_prm [''C'', ''H''] [1, 0, 0, 1]) [[0, 1, 2, 3], [1, 0, 2, 3]]
     \<lparr>alreadyadded = [],
      s14_atom_list = replicate 4 [],
      s14_value_list = replicate 4 [],
      e14_atom_list = replicate 4 [],
      e14_value_list = replicate 4 [],
      dihedral_rows = []\<rparr> =
     Inr (ex_dihedral_state\<lparr>dihedral_rows := dihedral_rows ex_dihedral_state @ [[]]\<rparr>)"
    by (simp only: foldE.simps ex_dihedral_step bindE_Inr dihedral_step_duplicate [OF s])
  have i: "foldE (improper_step ex_prm [''C'', ''H''] [1, 0, 0, 1] [[0, 1], [1, 2], [2, 3]]) [] [] =
           Inr []"
    by simp
  have e: "map (\<lambda>x. sort (remdups x)) [[1, 2], [2, 3], [3], []] = [[1, 2], [2, 3], [3], [] :: nat list]"
    by simp
  have v: "map (map int) [[1, 2], [2, 3], [3], []] = [[1, 2], [2, 3], [3], []]"
    "map (map int) [[3], [], [], []] = [[3], [], [], []]"
    "map (map int) [[1], [2], [3], []] = [[1], [2], [3], []]"
    "map (map Some) [[2], [], [], []] = [[Some 2], [], [], [] :: real option list]"
    "map (map Some) [[6 / 5], [], [], []] = [[Some (6 / 5)], [], [], [] :: real option list]"
    "map (map Some) [[100, 1], [200, 1], [100, 1], []] =
       [[Some 100, Some 1], [Some 200, Some 1], [Some 100, Some 1], [] :: real option list]"
    "map (map Some) ([[1, radians 0, 3]] @ [[]]) = [[Some 1, Some (radians 0), Some 3], []]"
    "map (map Some) ([] :: real list list) = []"
    by simp_all
  show ?thesis
    unfolding init_def Let_def numAtoms_def m ut len
    by (simp only: ex_lj_vectors ex_bonds ex_angles d i e v n mapE.simps bindE_Inr prod.case
          ex_dihedral_state_def ex_init_def dihedral_state.simps init_result.simps)
qed

lemma ex_FFEvaluate_init_swap:
  "FFEvaluate_init ex_atomselect ex_const
     (ex_mol\<lparr>mol_dihedrals := [[0, 1, 2, 3], [1, 0, 2, 3]]\<rparr>) ex_prm None 0 False (157 / 2)
   = Inr ex_args_swap"
proof -
  have "init_result.extend
          (ex_init\<lparr>dihedrals := of_rows 4 [[0, 1, 2, 3], [1, 0, 2, 3]],
                   dihedral_params :=
                     nestedListToArray [[Some 1, Some (radians 0), Some 3], []] None\<rparr>)
          (ffargs.fields [] [] 0 False (157 / 2)) = ex_args_swap"
    by (simp add: ex_args_swap_def ex_args_def init_result.defs)
  then show ?thesis
    unfolding FFEvaluate_init_def calculateSets_def
    by (simp only: option.case bindE_Inr prod.case ex_init_swap)
qed

lemma ex_line_pos:
  "item ex_coords_line [i, k, f] = [[0, 0, 0], [0, 4, 0], [3, 0, 0], [4, 0, 0]] ! i ! k"
  by (simp add: ex_coords_line_def)

lemma ex_line_pair_vec:
  "pair_vec ex_nu ex_coords_line ex_box 0 i j =
     (\<lambda>k. [[0, 0, 0], [0, 4, 0], [3, 0, 0], [4, 0, 0]] ! i ! k -
          [[0, 0, 0], [0, 4, 0], [3, 0, 0], [4, 0, 0]] ! j ! k)"
  by (simp add: pair_vec_def ex_nu_def ex_wrap_def ex_coords_line_def ex_box_def zeros_def)

lemma sqrt_squares: "sqrt 16 = 4" "sqrt 25 = 5"
proof -
  have "sqrt 16 = sqrt (4 * 4)" "sqrt 25 = sqrt (5 * 5)" by simp_all
  then show "sqrt 16 = 4" "sqrt 25 = 5" by (simp_all only: real_sqrt_mult_self) simp_all
qed

lemma ex_line_pair_dist:
  "pair_dist ex_nu ex_coords_line ex_box 0 0 1 = 4"
  "pair_dist ex_nu ex_coords_line ex_box 0 1 2 = 5"
  "pair_dist ex_nu ex_coords_line ex_box 0 2 3 = 1"
  "pair_dist ex_nu ex_coords_line ex_box 0 0 3 = 4"
  by (simp_all add: pair_dist_def ex_line_pair_vec sqrt_squares)

lemma ex_line_lj_kernel:
  "\<not> isl (evaluate_lj 0 3 (typeint ex_args) (nbfix ex_args) (sigma ex_args) (sigma14 ex_args)
         (epsilon ex_args) (epsilon14 ex_args) (s14a ex_args) (s14v ex_args) 4)"
  by (simp add: evaluate_lj_def getSigmaEpsilon_def ex_args_fields nestedListToArray_def
        of_list_def of_rows_def upt_rec_numeral num_def sqrtE_def divE_def Let_def)

lemma ex_line_elec_kernel:
  "\<not> isl (evaluate_elec 0 3 (charge ex_args) (e14a ex_args) (e14v ex_args) (ELEC_FACTOR ex_args)
         4 (rfa ex_args) (solventDielectric ex_args) (cutoff ex_args))"
  by (simp add: evaluate_elec_def ex_args_fields nestedListToArray_def
        upt_rec_numeral num_def divE_def Let_def)

lemma ex_line_pair_returns:
  assumes "i < j" "j < 4"
  shows "\<exists>st'. pair_body ex_nu ex_coords_line ex_box ex_args 0 i j st = Inr st'"
proof -
  from assms consider "i = 0 \<and> j = 1" | "i = 0 \<and> j = 2" | "i = 0 \<and> j = 3"
    | "i = 1 \<and> j = 2" | "i = 1 \<and> j = 3" | "i = 2 \<and> j = 3"
    by force
  then show ?thesis
  proof cases
    case 1
    then show ?thesis
      by (simp del: One_nat_def add: pair_body_excluded_bonded ex_ispaired ex_usersets ex_args_fields(6)
            ex_line_pair_dist ex_bond_kernel)
  next
    case 2
    then show ?thesis by (simp del: One_nat_def add: pair_body_excluded_not_bonded ex_ispaired)
  next
    case 3
    from ex_line_lj_kernel [THEN not_isl_Inr] ex_line_elec_kernel [THEN not_isl_Inr]
    obtain rl re where
      "evaluate_lj 0 3 (typeint ex_args) (nbfix ex_args) (sigma ex_args) (sigma14 ex_args)
         (epsilon ex_args) (epsilon14 ex_args) (s14a ex_args) (s14v ex_args) 4 = Inr rl"
      "evaluate_elec 0 3 (charge ex_args) (e14a ex_args) (e14v ex_args) (ELEC_FACTOR ex_args)
         4 (rfa ex_args) (solventDielectric ex_args) (cutoff ex_args) = Inr re"
      by blast
    with 3 show ?thesis
      by (simp del: One_nat_def add: pair_body_eq ex_ispaired ex_usersets ex_line_pair_dist
            case_prod_beta ex_args_fields(6))
  next
    case 4
    then show ?thesis
      by (simp del: One_nat_def add: pair_body_excluded_bonded ex_ispaired ex_usersets ex_args_fields(6)
            ex_line_pair_dist ex_bond_kernel)
  next
    case 5
    then show ?thesis by (simp del: One_nat_def add: pair_body_excluded_not_bonded ex_ispaired)
  next
    case 6
    then show ?thesis
      by (simp del: One_nat_def add: pair_body_excluded_bonded ex_ispaired ex_usersets ex_args_fields(6)
            ex_line_pair_dist ex_bond_kernel)
  qed
qed

lemma ex_line_pairs_return:
  "\<exists>s'. foldE (\<lambda>i. foldE (pair_body ex_nu ex_coords_line ex_box ex_args 0 i) [i + 1..<4])
          [0..<4] st = Inr s'"
proof (rule foldE_returns)
  fix i s
  assume "i \<in> set [0..<4]"
  show "\<exists>s'. foldE (pair_body ex_nu ex_coords_line ex_box ex_args 0 i) [i + 1..<4] s = Inr s'"
  proof (rule foldE_returns)
    fix j t
    assume "j \<in> set [i + 1..<4]"
    then have "i < j" "j < 4" by simp_all
    then show "\<exists>t'. pair_body ex_nu ex_coords_line ex_box ex_args 0 i j t = Inr t'"
      by (rule ex_line_pair_returns)
  qed
qed

lemma ex_line_angle_kernel:
  "\<not> isl (evaluate_angles ex_nu (\<lambda>x k. item ex_coords_line [item (angles ex_args) [0, x], k, 0])
              (row (angle_params ex_args) 0) (\<lambda>k. item ex_box [k, 0]))"
  "\<not> isl (evaluate_angles ex_nu (\<lambda>x k. item ex_coords_line [item (angles ex_args) [1, x], k, 0])
              (row (angle_params ex_args) 1) (\<lambda>k. item ex_box [k, 0]))"
  by (simp_all add: evaluate_angles_def ex_args_fields of_rows_def ex_nu_def ex_line_pos ex_pos(2)
        divE_def Let_def sqrt_squares)

lemma ex_line_angles_return:
  "\<exists>s'. foldE (angle_body ex_nu ex_coords_line ex_box ex_args 0) [0..<2] st = Inr s'"
proof (rule foldE_returns)
  fix i s
  assume "i \<in> set [0..<2]"
  then consider "i = 0" | "i = 1" by force
  then have "\<not> isl (angle_body ex_nu ex_coords_line ex_box ex_args 0 i s)"
    by cases (simp_all only: angle_body_isl ex_line_angle_kernel not_False_eq_True)
  then show "\<exists>s'. angle_body ex_nu ex_coords_line ex_box ex_args 0 i s = Inr s'"
    by (rule not_isl_Inr)
qed

lemma ex_line_torsion_kernel:
  "\<not> isl (evaluate_torsion ex_nu
            (\<lambda>x k. item ex_coords_line [item (of_rows 4 [[0, 1, 2, 3], [1, 0, 2, 3]]) [0, x], k, 0])
            [Some 1, Some (radians 0), Some 3] (\<lambda>k. item ex_box [k, 0]))"
  by (simp add: evaluate_torsion_def of_rows_def ex_nu_def ex_line_pos ex_pos(2) divE_def
        ex_dihedralAngleFull_def Let_def cross_def dot_def case_prod_beta)

lemma ex_line_torsion_kernel_raises:
  "evaluate_torsion ex_nu
     (\<lambda>x k. item ex_coords_line [item (of_rows 4 [[0, 1, 2, 3], [1, 0, 2, 3]]) [1, x], k, 0])
     [None, None, None] (\<lambda>k. item ex_box [k, 0]) = Inl ZeroDivisionError"
  by (simp add: evaluate_torsion_def of_rows_def ex_nu_def ex_line_pos ex_pos(2) divE_def
        ex_dihedralAngleFull_def Let_def cross_def dot_def case_prod_beta)

lemma ex_args_swap_fields:
  "dihedrals ex_args_swap = of_rows 4 [[0, 1, 2, 3], [1, 0, 2, 3]]"
  "dihedral_params ex_args_swap =
     nestedListToArray [[Some 1, Some (radians 0), Some 3], []] None"
  "angles ex_args_swap = angles ex_args" "impropers ex_args_swap = impropers ex_args"
  "usersets ex_args_swap = usersets ex_args"
  by (simp_all add: ex_args_swap_def usersets_def)

lemma ex_swap_rows:
  "row (nestedListToArray [[Some 1, Some (radians 0), Some 3], []] None) 0 =
     [Some 1, Some (radians 0), Some 3]"
  "row (nestedListToArray [[Some 1, Some (radians 0), Some 3], []] None) 1 =
     [None, None, None]"
  "row (nestedListToArray [[Some 1, Some (radians 0), Some 3]] None) 0 =
     [Some 1, Some (radians 0), Some 3]"
  by (simp_all add: row_def nestedListToArray_def upt_rec_numeral)

lemma ex_line_first_quad:
  "(\<lambda>x k. item ex_coords_line [item (of_rows 4 [[0, 1, 2, 3]]) [0, x], k, 0 :: nat]) =
   (\<lambda>x k. item ex_coords_line [item (of_rows 4 [[0, 1, 2, 3], [1, 0, 2, 3]]) [0, x], k, 0])"
  by (simp add: of_rows_def)

lemma ex_line_frame_returns:
  "\<exists>st'. frame_body ex_nu ex_coords_line ex_box ex_args 0 st = Inr st'"
proof -
  have n: "shape ex_coords_line ! 0 = 4" by (simp add: ex_coords_line_def)
  have s: "shape (angles ex_args) ! 0 = 2" "shape (dihedrals ex_args) ! 0 = 1"
    "shape (impropers ex_args) ! 0 = 0"
    by (simp_all add: ex_args_fields of_rows_def)
  from ex_line_pairs_return obtain s1 where
    1: "foldE (\<lambda>i. foldE (pair_body ex_nu ex_coords_line ex_box ex_args 0 i) [i + 1..<4])
          [0..<4] st = Inr s1" by blast
  from ex_line_angles_return obtain s2 where
    2: "foldE (angle_body ex_nu ex_coords_line ex_box ex_args 0) [0..<2] s1 = Inr s2" by blast
  have "\<not> isl (torsion_body ex_nu ex_coords_line ex_box (dihedrals ex_args)
                 (dihedral_params ex_args) 4 0 0 s2)"
    unfolding torsion_body_isl ex_args_fields ex_swap_rows ex_line_first_quad
    by (rule ex_line_torsion_kernel)
  then obtain s3 where
    "torsion_body ex_nu ex_coords_line ex_box (dihedrals ex_args)
       (dihedral_params ex_args) 4 0 0 s2 = Inr s3"
    by (auto dest: not_isl_Inr)
  then have 3: "foldE (torsion_body ex_nu ex_coords_line ex_box (dihedrals ex_args)
                  (dihedral_params ex_args) 4 0) [0..<1] s2 = Inr s3"
    by simp
  have "frame_body ex_nu ex_coords_line ex_box ex_args 0 st = Inr s3"
    unfolding frame_body_def Let_def n s
    by (simp only: 1 2 3 bindE_Inr ex_usersets if_False upt_0 foldE.simps)
  then show ?thesis by blast
qed

lemma ex_line_ffevaluate_returns:
  "\<not> isl (ffevaluate ex_nu ex_coords_line ex_box ex_args)"
proof -
  have f: "shape ex_coords_line ! 2 = 1" by (simp add: ex_coords_line_def)
  have u: "[0..<1] = [0]" by simp
  from ex_line_frame_returns obtain s where
    "frame_body ex_nu ex_coords_line ex_box ex_args 0
       \<lparr>energies = zeros [6, 1], forces = zeros [shape ex_coords_line ! 0, 3, 1],
        atmnrg = zeros [shape ex_coords_line ! 0, 6, 1]\<rparr> = Inr s" by blast
  then have "ffevaluate ex_nu ex_coords_line ex_box ex_args = Inr s"
    unfolding ffevaluate_def Let_def f u by simp
  then show ?thesis by simp
qed

lemma ex_line_frame_raises:
  "frame_body ex_nu ex_coords_line ex_box ex_args_swap 0 st = Inl ZeroDivisionError"
proof -
  have n: "shape ex_coords_line ! 0 = 4" by (simp add: ex_coords_line_def)
  have s: "shape (angles ex_args) ! 0 = 2"
    "shape (of_rows 4 [[0, 1, 2, 3], [1, 0, 2, 3 :: nat]]) ! 0 = 2"
    by (simp_all add: ex_args_fields of_rows_def)
  have pb: "pair_body ex_nu ex_coords_line ex_box ex_args_swap 0 i =
            pair_body ex_nu ex_coords_line ex_box ex_args 0 i" for i
    unfolding ex_args_swap_def by (rule pair_body_update_dihedrals)
  have ab: "angle_body ex_nu ex_coords_line ex_box ex_args_swap 0 =
            angle_body ex_nu ex_coords_line ex_box ex_args 0"
    unfolding ex_args_swap_def by (rule angle_body_update_dihedrals)
  from ex_line_pairs_return obtain s1 where
    1: "foldE (\<lambda>i. foldE (pair_body ex_nu ex_coords_line ex_box ex_args 0 i) [i + 1..<4])
          [0..<4] st = Inr s1" by blast
  from ex_line_angles_return obtain s2 where
    2: "foldE (angle_body ex_nu ex_coords_line ex_box ex_args 0) [0..<2] s1 = Inr s2" by blast
  let ?tb = "torsion_body ex_nu ex_coords_line ex_box (of_rows 4 [[0, 1, 2, 3], [1, 0, 2, 3]])
               (nestedListToArray [[Some 1, Some (radians 0), Some 3], []] None) 4 0"
  have "\<not> isl (?tb 0 s2)"
    unfolding torsion_body_isl ex_swap_rows by (rule ex_line_torsion_kernel)
  then obtain s3 where 3: "?tb 0 s2 = Inr s3"
    by (auto dest: not_isl_Inr)
  have 4: "?tb 1 s3 = Inl ZeroDivisionError"
    unfolding torsion_body_def ex_swap_rows ex_line_torsion_kernel_raises by simp
  have u: "[0..<2] = [0, 1 :: nat]" by (simp add: numeral_2_eq_2)
  have 5: "foldE ?tb [0..<2] s2 = Inl ZeroDivisionError"
    unfolding u by (simp only: foldE.simps 3 4 bindE_Inr bindE_Inl)
  show ?thesis
    unfolding frame_body_def Let_def pb ab ex_args_swap_fields n s
    by (simp only: 1 2 5 bindE_Inr bindE_Inl ex_usersets if_False)
qed

text \<open>
  Claim C7 as stated fails: for the example molecule the entry \<open>[1, 0, 2, 3]\<close> repeats the
  dihedral \<open>[0, 1, 2, 3]\<close>. With the atoms 0, 2 and 3 on a line the evaluation without the
  repeated entry returns, and the evaluation with it raises: the kernel divides by the
  zero cross product of the repeated entry.
\<close>

theorem repeated_dihedral_counterexample:
  "sort [0, 1, 2, 3 :: nat] = sort [1, 0, 2, 3] \<and>
   FFEvaluate_init ex_atomselect ex_const ex_mol ex_prm None 0 False (157 / 2) = Inr ex_args \<and>
   FFEvaluate_init ex_atomselect ex_const
     (ex_mol\<lparr>mol_dihedrals := [[0, 1, 2, 3], [1, 0, 2, 3]]\<rparr>) ex_prm None 0 False (157 / 2)
     = Inr ex_args_swap \<and>
   \<not> isl (ffevaluate ex_nu ex_coords_line ex_box ex_args) \<and>
   ffevaluate ex_nu ex_coords_line ex_box ex_args_swap = Inl ZeroDivisionError"
proof -
  have f: "shape ex_coords_line ! 2 = 1" by (simp add: ex_coords_line_def)
  have u: "[0..<1] = [0]" by simp
  have "ffevaluate ex_nu ex_coords_line ex_box ex_args_swap = Inl ZeroDivisionError"
    unfolding ffevaluate_def Let_def f u by (simp only: foldE.simps ex_line_frame_raises bindE_Inl)
  moreover have "sort [0, 1, 2, 3 :: nat] = sort [1, 0, 2, 3]" by simp
  ultimately show ?thesis
    using ex_FFEvaluate_init ex_FFEvaluate_init_swap ex_line_ffevaluate_returns by simp
qed

lemma ex_FFEvaluate_init_overlap:
  "FFEvaluate_init ex_atomselect_overlap ex_const ex_mol ex_prm
     (Some (''index 0'', ''index 0 1'')) 0 False (157 / 2) = Inr ex_args_overlap"
  by (simp add: FFEvaluate_init_def calculateSets_def ex_atomselect_overlap_def ex_init_bare_eq
        ex_args_overlap_def ex_args_none_def init_result.defs ffargs.defs)

lemma foldE_skip:
  assumes "\<And>x s. x \<in> set xs \<Longrightarrow> g x s = Inr s"
  shows "foldE g xs s = Inr s"
  using assms by (induction xs) simp_all

lemma ex_overlap_not_insets:
  assumes "i < j"
  shows "\<not> insets i j [0] [0, 1]"
proof
  assume "insets i j [0] [0, 1]"
  then have "(i \<in> set [0] \<and> j \<in> set [0, 1]) \<or> (i \<in> set [0, 1] \<and> j \<in> set [0])"
    by (rule insets_sound [rule_format])
  with assms have "i = 0 \<and> j = 1" by auto
  moreover have "\<not> insets 0 1 [0] [0, 1]" by (simp add: insets_def)
  ultimately show False using \<open>insets i j [0] [0, 1]\<close> by simp
qed

lemma ex_overlap_ffevaluate:
  "ffevaluate ex_nu ex_coords ex_box ex_args_overlap = Inr ex_state"
proof -
  have s: "set1 ex_args_overlap = [0]" "set2 ex_args_overlap = [0, 1]"
    by (simp_all add: ex_args_overlap_def)
  have u: "usersets ex_args_overlap" by (simp add: usersets_def s)
  have p: "pair_body ex_nu ex_coords ex_box ex_args_overlap f i j st = Inr st" if "i < j"
    for f i j st
    by (rule pair_body_not_insets [OF u]) (simp only: s ex_overlap_not_insets [OF that] not_False_eq_True)
  have l: "foldE (\<lambda>i. foldE (pair_body ex_nu ex_coords ex_box ex_args_overlap f i) [i + 1..<n])
             [0..<n] st = Inr st" for f n st
    by (rule foldE_skip, rule foldE_skip) (simp add: p)
  have fr: "frame_body ex_nu ex_coords ex_box ex_args_overlap f st = Inr st" for f st
    unfolding frame_body_def Let_def l using u by simp
  have sh: "shape ex_coords ! 0 = 4" "shape ex_coords ! 2 = 1" by (simp_all add: ex_coords_def)
  show ?thesis
    unfolding ffevaluate_def Let_def sh ex_state_def
    by (rule foldE_skip) (rule fr)
qed

text \<open>
  Claim C5: the code at a failing input. The selections \<open>A = [0]\<close> and \<open>B = [0, 1]\<close> overlap.
  The pair \<open>(0, 1)\<close> has one atom in \<open>A\<close> and the other in \<open>B\<close>, and \<open>insets\<close> does not hold
  for it: the evaluation skips every pair and returns zero energies, forces and
  attributions. With \<open>B = [1]\<close> the same pair is evaluated. Two selections that select
  nothing leave every pair evaluated.
\<close>

theorem between_sets_failing_input:
  "FFEvaluate_init ex_atomselect_overlap ex_const ex_mol ex_prm
     (Some (''index 0'', ''index 0 1'')) 0 False (157 / 2) = Inr ex_args_overlap \<and>
   set1 ex_args_overlap = [0] \<and> set2 ex_args_overlap = [0, 1] \<and>
   (0::nat) \<in> set (set1 ex_args_overlap) \<and> (1::nat) \<in> set (set2 ex_args_overlap) \<and>
   \<not> insets 0 1 (set1 ex_args_overlap) (set2 ex_args_overlap) \<and>
   ffevaluate ex_nu ex_coords ex_box ex_args_overlap = Inr ex_state \<and>
   pair_body ex_nu ex_coords ex_box (ex_args_overlap\<lparr>set2 := [1]\<rparr>) 0 0 1 ex_state \<noteq> Inr ex_state \<and>
   FFEvaluate_init ex_atomselect ex_const ex_mol ex_prm (Some (''none'', ''none''))
     0 False (157 / 2) = Inr ex_args_none \<and>
   pair_body ex_nu ex_coords ex_box ex_args_none 0 0 1 ex_state \<noteq> Inr ex_state"
proof -
  have s: "set1 ex_args_overlap = [0]" "set2 ex_args_overlap = [0, 1]"
    by (simp_all add: ex_args_overlap_def)
  have n: "\<not> insets 0 1 [0] [0, 1]" by (simp add: insets_def)
  have c: "(ex_args_overlap\<lparr>set2 := [1]\<rparr>)\<lparr>set1 := [], set2 := []\<rparr> = ex_args_none"
    by (simp add: ex_args_overlap_def ex_args_none_def init_result.defs ffargs.defs)
  have "insets 0 1 (set1 (ex_args_overlap\<lparr>set2 := [1]\<rparr>)) (set2 (ex_args_overlap\<lparr>set2 := [1]\<rparr>))"
    by (simp add: s insets_def)
  from pair_body_insets [OF this, of ex_nu ex_coords ex_box 0 ex_state]
  have e: "pair_body ex_nu ex_coords ex_box (ex_args_overlap\<lparr>set2 := [1]\<rparr>) 0 0 1 ex_state =
           pair_body ex_nu ex_coords ex_box ex_args_none 0 0 1 ex_state"
    unfolding c .
  note w = ex_pair_without_sets [THEN conjunct2]
  show ?thesis
    unfolding e s
    using ex_FFEvaluate_init_overlap ex_overlap_ffevaluate n w by simp
qed

lemma dihedral_fold_duplicate_returns:
  assumes "e \<in> set xs" "sort e = sort d"
    and "foldE (dihedral_step prm u t) (xs @ ys) s = Inr s0"
  shows "\<exists>s'. foldE (dihedral_step prm u t) (xs @ d # ys) s = Inr s'"
proof -
  from assms(3) obtain s1 where
    1: "foldE (dihedral_step prm u t) xs s = Inr s1"
    and 2: "foldE (dihedral_step prm u t) ys s1 = Inr s0"
    by (auto simp: foldE_append bindE_Inr_iff)
  from dihedral_fold_alreadyadded [OF 1] assms(1,2) have "sort d \<in> set (alreadyadded s1)"
    by force
  note 3 = dihedral_step_duplicate [OF this, of prm u t]
  have "foldE (dihedral_step prm u t) ys (s1\<lparr>dihedral_rows := dihedral_rows s1\<rparr>) = Inr s0"
    using 2 by simp
  then obtain s2 where
    4: "foldE (dihedral_step prm u t) ys (s1\<lparr>dihedral_rows := []\<rparr>) = Inr s2"
    unfolding dihedral_fold_rows [where q = "dihedral_rows s1"]
    by (auto split: sum.splits)
  have "foldE (dihedral_step prm u t) ys (s1\<lparr>dihedral_rows := dihedral_rows s1 @ [[]]\<rparr>) =
        Inr (s2\<lparr>dihedral_rows := (dihedral_rows s1 @ [[]]) @ dihedral_rows s2\<rparr>)"
    unfolding dihedral_fold_rows [where q = "dihedral_rows s1 @ [[]]"] by (simp add: 4)
  then have "foldE (dihedral_step prm u t) (xs @ d # ys) s =
        Inr (s2\<lparr>dihedral_rows := (dihedral_rows s1 @ [[]]) @ dihedral_rows s2\<rparr>)"
    by (simp add: foldE_append 1 3)
  then show ?thesis by blast
qed

lemma init_duplicate_returns:
  assumes "mol_dihedrals mol = xs @ ys" "e \<in> set xs" "sort e = sort d"
    and "init const mol prm = Inr r"
  shows "\<exists>r'. init const (mol\<lparr>mol_dihedrals := xs @ d # ys\<rparr>) prm = Inr r'"
proof -
  let ?u = "unique_types (atomtype mol)"
  let ?t = "unique_inverse (atomtype mol)"
  let ?n = "length (atomtype mol)"
  let ?s0 = "\<lparr>alreadyadded = [], s14_atom_list = replicate ?n [],
              s14_value_list = replicate ?n [], e14_atom_list = replicate ?n [],
              e14_value_list = replicate ?n [], dihedral_rows = []\<rparr>"
  from assms(4) obtain sg sg14 ep ep14 nb el bp bpar el2 ar ds ir where
    lj: "lj_vectors prm ?u = Inr (sg, sg14, ep, ep14)"
    and nb: "mapE (nbfix_row prm ?u) (nbfix_types prm) = Inr nb"
    and bo: "foldE (bond_step prm ?u ?t) (mol_bonds mol)
               (replicate ?n [], replicate ?n [], replicate ?n []) = Inr (el, bp, bpar)"
    and an: "foldE (angle_step prm ?u ?t) (mol_angles mol) (el, []) = Inr (el2, ar)"
    and di: "foldE (dihedral_step prm ?u ?t) (xs @ ys) ?s0 = Inr ds"
    and im: "foldE (improper_step prm ?u ?t (mol_bonds mol)) (mol_impropers mol) [] = Inr ir"
    unfolding init_def Let_def numAtoms_def assms(1)
    by (auto simp: bindE_Inr_iff)
  from dihedral_fold_duplicate_returns [OF assms(2,3) di] obtain ds' where
    di': "foldE (dihedral_step prm ?u ?t) (xs @ d # ys) ?s0 = Inr ds'" by blast
  show ?thesis
    unfolding init_def Let_def numAtoms_def
    by (simp add: lj nb bo an di' im)
qed

text \<open>
  Claim C7 (amended). A dihedral entry inserted after an entry with the same four atoms
  (the sorted indexes are equal) is skipped by the indexer: the constructor returns as it
  does without the entry, and the parameter row of the entry holds only the NaN sentinel,
  for which the torsion kernel, when it returns, returns zero potential and zero forces.
  The kernel is still called on the atoms of the repeated entry. When it returns there in
  every frame, the evaluation with the repeated entry is the evaluation without it: the
  same energies, forces and attributions, or the same error. In any case an evaluation
  with the repeated entry that returns gives what the evaluation without it gives. The
  atom selection does not look at the dihedral list.
\<close>

theorem repeated_dihedral:
  assumes "mol_dihedrals mol = xs @ ys" "e \<in> set xs" "sort e = sort d"
    and "sel (mol\<lparr>mol_dihedrals := xs @ d # ys\<rparr>) = sel mol"
    and "FFEvaluate_init sel const mol prm bs c r sd = Inr a"
  shows "\<exists>a'. FFEvaluate_init sel const (mol\<lparr>mol_dihedrals := xs @ d # ys\<rparr>) prm bs c r sd = Inr a' \<and>
            (\<forall>nu coords box.
               (\<forall>f<shape coords ! 2.
                  \<not> isl (evaluate_torsion nu
                           (\<lambda>x k. item coords [item (dihedrals a') [length xs, x], k, f])
                           (row (dihedral_params a') (length xs)) (\<lambda>k. item box [k, f]))) \<longrightarrow>
               ffevaluate nu coords box a' = ffevaluate nu coords box a) \<and>
            (\<forall>nu coords box out. ffevaluate nu coords box a' = Inr out \<longrightarrow>
                                 ffevaluate nu coords box a = Inr out) \<and>
            (bs = None \<longrightarrow>
               list_all (\<lambda>x. x = None) (row (dihedral_params a') (length xs)) \<and>
               (\<forall>x. item (dihedrals a') [length xs, x] = d ! x)) \<and>
            (\<forall>nu pos tp b pot force.
               list_all (\<lambda>x. x = None) tp \<longrightarrow> evaluate_torsion nu pos tp b = Inr (pot, force) \<longrightarrow>
               pot = 0 \<and> (\<forall>q k. force q k = 0))"
proof -
  let ?mol' = "mol\<lparr>mol_dihedrals := xs @ d # ys\<rparr>"
  have "\<exists>a'. FFEvaluate_init sel const ?mol' prm bs c r sd = Inr a'"
  proof (cases bs)
    case None
    with assms(5) obtain r0 where i: "init const mol prm = Inr r0"
      by (auto simp: FFEvaluate_init_def calculateSets_def bindE_Inr_iff)
    from init_duplicate_returns [OF assms(1-3) i] obtain r' where
      "init const ?mol' prm = Inr r'" by blast
    then show ?thesis
      by (simp add: FFEvaluate_init_def calculateSets_def None)
  next
    case (Some p)
    obtain sA sB where p: "p = (sA, sB)" by (cases p)
    have "FFEvaluate_init sel const ?mol' prm bs c r sd = Inr a"
      using assms(5) unfolding FFEvaluate_init_def calculateSets_def Some p assms(4)
      by simp
    then show ?thesis by blast
  qed
  then obtain a' where a': "FFEvaluate_init sel const ?mol' prm bs c r sd = Inr a'" by blast
  note L = repeated_dihedral_indexed [OF assms(1-4) a']
  from L [THEN conjunct1] obtain a0 where
    a0: "FFEvaluate_init sel const mol prm bs c r sd = Inr a0"
    and A: "\<forall>nu coords box.
               (\<forall>f<shape coords ! 2.
                  \<not> isl (evaluate_torsion nu
                           (\<lambda>x k. item coords [item (dihedrals a') [length xs, x], k, f])
                           (row (dihedral_params a') (length xs)) (\<lambda>k. item box [k, f]))) \<longrightarrow>
               ffevaluate nu coords box a' = ffevaluate nu coords box a0"
    and B: "\<forall>nu coords box out. ffevaluate nu coords box a' = Inr out \<longrightarrow>
                                 ffevaluate nu coords box a0 = Inr out"
    by blast
  from a0 assms(5) have e: "a0 = a" by simp
  show ?thesis
  proof (intro exI [of _ a'] conjI)
    show "FFEvaluate_init sel const ?mol' prm bs c r sd = Inr a'" by (rule a')
  next
    show "\<forall>nu coords box.
               (\<forall>f<shape coords ! 2.
                  \<not> isl (evaluate_torsion nu
                           (\<lambda>x k. item coords [item (dihedrals a') [length xs, x], k, f])
                           (row (dihedral_params a') (length xs)) (\<lambda>k. item box [k, f]))) \<longrightarrow>
               ffevaluate nu coords box a' = ffevaluate nu coords box a"
      using A unfolding e .
  next
    show "\<forall>nu coords box out. ffevaluate nu coords box a' = Inr out \<longrightarrow>
                                 ffevaluate nu coords box a = Inr out"
      using B unfolding e .
  next
    show "bs = None \<longrightarrow>
               list_all (\<lambda>x. x = None) (row (dihedral_params a') (length xs)) \<and>
               (\<forall>x. item (dihedrals a') [length xs, x] = d ! x)"
      by (rule L [THEN conjunct2, THEN conjunct1])
  next
    show "\<forall>nu pos tp b pot force.
               list_all (\<lambda>x. x = None) tp \<longrightarrow> evaluate_torsion nu pos tp b = Inr (pot, force) \<longrightarrow>
               pot = 0 \<and> (\<forall>q k. force q k = 0)"
      by (rule L [THEN conjunct2, THEN conjunct2])
  qed
qed

theorem repeated_dihedral_witness:
  "ffevaluate ex_nu ex_coords ex_box ex_args_dup = ffevaluate ex_nu ex_coords ex_box ex_args \<and>
   \<not> isl (ffevaluate ex_nu ex_coords ex_box ex_args)"
proof -
  have 1: "mol_dihedrals ex_mol = [[0, 1, 2, 3]] @ []" by (simp add: ex_mol_def)
  have 2: "[0, 1, 2, 3] \<in> set [[0, 1, 2, 3 :: nat]]" by simp
  have 3: "sort [0, 1, 2, 3 :: nat] = sort [3, 2, 1, 0]" by simp
  have 4: "ex_atomselect (ex_mol\<lparr>mol_dihedrals := [[0, 1, 2, 3]] @ [3, 2, 1, 0] # []\<rparr>) =
           ex_atomselect ex_mol"
    by (rule ext) (simp add: ex_atomselect_def)
  from repeated_dihedral [OF 1 2 3 4 ex_FFEvaluate_init] obtain a' where
    a: "FFEvaluate_init ex_atomselect ex_const
          (ex_mol\<lparr>mol_dihedrals := [[0, 1, 2, 3]] @ [3, 2, 1, 0] # []\<rparr>) ex_prm None 0 False
          (157 / 2) = Inr a'"
    and t: "\<forall>nu coords box.
               (\<forall>f<shape coords ! 2.
                  \<not> isl (evaluate_torsion nu
                           (\<lambda>x k. item coords
                              [item (dihedrals a') [length [[0, 1, 2, 3 :: nat]], x], k, f])
                           (row (dihedral_params a') (length [[0, 1, 2, 3 :: nat]]))
                           (\<lambda>k. item box [k, f]))) \<longrightarrow>
               ffevaluate nu coords box a' = ffevaluate nu coords box ex_args"
    by blast
  from a have "Inr ex_args_dup = (Inr a' :: error + ffargs)"
    by (simp only: ex_FFEvaluate_init_dup)
  then have e: "a' = ex_args_dup" by simp
  have l: "length [[0, 1, 2, 3 :: nat]] = 1" by simp
  have f: "shape ex_coords ! 2 = 1" by (simp add: ex_coords_def)
  have "\<forall>f<shape ex_coords ! 2.
          \<not> isl (evaluate_torsion ex_nu
                   (\<lambda>x k. item ex_coords
                      [item (dihedrals ex_args_dup) [length [[0, 1, 2, 3 :: nat]], x], k, f])
                   (row (dihedral_params ex_args_dup) (length [[0, 1, 2, 3 :: nat]]))
                   (\<lambda>k. item ex_box [k, f]))"
    unfolding l f using ex_dup_torsion_kernel(2) by (simp del: One_nat_def)
  with t have "ffevaluate ex_nu ex_coords ex_box ex_args_dup =
               ffevaluate ex_nu ex_coords ex_box ex_args"
    unfolding e by blast
  moreover from ex_ffevaluate_returns have "\<not> isl (ffevaluate ex_nu ex_coords ex_box ex_args)"
    by auto
  ultimately show ?thesis by simp
qed

lemma wildcard_match_eq:
  "length key + i = length ty \<Longrightarrow>
   wildcard_match key ty i = Inr (list_all2 (\<lambda>k t. k = ''X'' \<or> k = t) key (drop i ty))"
proof (induction key arbitrary: i)
  case Nil
  then show ?case by simp
next
  case (Cons a key)
  then have i: "i < length ty" and l: "length key + (i + 1) = length ty" by simp_all
  from i have d: "drop i ty = ty ! i # drop (i + 1) ty" by (simp add: Cons_nth_drop_Suc)
  show ?case using Cons.IH [OF l] i by (auto simp: d)
qed

lemma find_filter: "find P (filter Q xs) = find (\<lambda>x. Q x \<and> P x) xs"
  by (induction xs) auto

lemma wildcard_scan_eq:
  "\<forall>k\<in>set keys. length k = length ty \<Longrightarrow>
   wildcard_scan ty keys =
     Inr (case find (\<lambda>k. list_all2 (\<lambda>k t. k = ''X'' \<or> k = t) k ty) keys of
            None \<Rightarrow> [] | Some k \<Rightarrow> k)"
  by (induction keys) (simp_all add: wildcard_match_eq)

lemma wildcard_substituted_eq:
  assumes "\<forall>k\<in>set keys. length k = length ty"
  shows "wildcard_substituted ty keys =
           Inr (case find (\<lambda>k. matches_key k ty) keys of None \<Rightarrow> [] | Some k \<Rightarrow> k)"
proof -
  have "\<forall>k\<in>set (filter (\<lambda>a. ''X'' \<in> set a) keys). length k = length ty"
    using assms by simp
  from wildcard_scan_eq [OF this] show ?thesis
    unfolding wildcard_substituted_def Let_def matches_key_def [abs_def] find_filter by simp
qed

lemma find_map_fst:
  "find P (map fst table) = map_option fst (find (\<lambda>kv. P (fst kv)) table)"
  by (induction table) auto

lemma find_holds: "find Q xs = Some x \<Longrightarrow> Q x"
  by (auto simp: find_Some_iff)

lemma find_map_of:
  "find (\<lambda>kv. P (fst kv)) table = Some kv \<Longrightarrow> map_of table (fst kv) = Some (snd kv)"
  by (induction table) (auto split: if_splits dest: find_holds)

lemma wildcard_lookup:
  assumes "\<forall>k\<in>set (map fst table). length k = length ty"
  shows "bindE (wildcard_substituted ty (map fst table))
           (\<lambda>params. if params \<noteq> [] then
                        (case map_of table params of Some v \<Rightarrow> Inr (C v) | None \<Rightarrow> Inl KeyError)
                      else rest) =
         (case spec_wildcard table ty of Some v \<Rightarrow> Inr (C v) | None \<Rightarrow> rest)"
proof (cases "find (\<lambda>kv. matches_key (fst kv) ty) table")
  case None
  then show ?thesis
    by (simp add: wildcard_substituted_eq [OF assms] find_map_fst spec_wildcard_def)
next
  case (Some kv)
  then have m: "matches_key (fst kv) ty" by (auto simp: find_Some_iff)
  then have ne: "fst kv \<noteq> []" by (auto simp: matches_key_def)
  from find_map_of [OF Some] ne Some show ?thesis
    by (simp add: wildcard_substituted_eq [OF assms] find_map_fst spec_wildcard_def)
qed

lemma scan_perms_eq:
  assumes h: "\<forall>k\<in>set (map fst (improper_types prm)). length k = 4"
    and p: "\<forall>k\<in>set (map fst (improper_periodic_types prm)). length k = 4"
  shows "\<forall>p\<in>set perms. length p = 4 \<Longrightarrow>
         scan_perms prm ty perms =
           (case first_some (\<lambda>p. spec_attempt prm (map (\<lambda>k. ty ! k) p)) perms of
              Some r \<Rightarrow> Inr r | None \<Rightarrow> Inl RuntimeError)"
proof (induction perms)
  case Nil
  then show ?case by simp
next
  case (Cons q perms)
  then have l: "length (map (\<lambda>k. ty ! k) q) = 4" by simp
  have h': "\<forall>k\<in>set (map fst (improper_types prm)). length k = length (map (\<lambda>k. ty ! k) q)"
    using h l by simp
  have p': "\<forall>k\<in>set (map fst (improper_periodic_types prm)).
              length k = length (map (\<lambda>k. ty ! k) q)"
    using p l by simp
  from Cons have IH: "scan_perms prm ty perms =
           (case first_some (\<lambda>p. spec_attempt prm (map (\<lambda>k. ty ! k) p)) perms of
              Some r \<Rightarrow> Inr r | None \<Rightarrow> Inl RuntimeError)" by simp
  show ?case
    unfolding scan_perms.simps Let_def wildcard_lookup [OF p'] wildcard_lookup [OF h'] IH
    by (simp add: spec_attempt_def split: option.splits)
qed

lemma perms_eq: "filter (\<lambda>x. x ! 2 = 2) (permutations [0, 1, 2, 3]) = spec_perms"
  by (simp add: permutations_def spec_perms_def numeral_eq_Suc)

lemma getImproperParameter_eq:
  assumes "\<forall>k\<in>set (map fst (improper_types prm)). length k = 4"
    and "\<forall>k\<in>set (map fst (improper_periodic_types prm)). length k = 4"
    and "length ty = 4"
  shows "getImproperParameter ty prm =
           (case spec_scan prm ty of Some r \<Rightarrow> Inr r | None \<Rightarrow> Inl RuntimeError)"
proof -
  have "\<forall>p\<in>set spec_perms. length p = 4" by (simp add: spec_perms_def)
  from scan_perms_eq [OF assms(1,2) this] assms(3) show ?thesis
    unfolding getImproperParameter_def Let_def perms_eq spec_scan_def by simp
qed

lemma set_neighbors: "set (neighbors bonds i) = {x. bonded bonds i x}"
  by (auto simp: neighbors_def bonded_def list_ex_iff split: if_splits)

lemma detectImproperCenter_eq:
  "detectImproperCenter impr bonds = find (spec_center bonds impr) impr"
proof -
  have "length (remdups (filter (\<lambda>x. x \<in> set impr) (neighbors bonds i))) =
        card {x \<in> set impr. bonded bonds i x}" for i
  proof -
    have "set (filter (\<lambda>x. x \<in> set impr) (neighbors bonds i)) =
          {x \<in> set impr. bonded bonds i x}"
      by (auto simp: set_neighbors)
    then show ?thesis by (simp only: length_remdups_card_conv)
  qed
  then show ?thesis by (simp add: detectImproperCenter_def spec_center_def [abs_def])
qed

lemma sort_mset_cong: "mset xs = mset ys \<Longrightarrow> sort xs = sort (ys :: 'a :: linorder list)"
  by (metis properties_for_sort sorted_sort mset_sort)

lemma sorted_other_types:
  assumes "distinct impr"
  shows "sort (types_of uqtypes tyint (sort (remdups (filter (\<lambda>x. x \<noteq> c) impr)))) =
         sort (map (\<lambda>k. uqtypes ! (tyint ! k)) (filter (\<lambda>x. x \<noteq> c) impr))"
proof -
  from assms have "remdups (filter (\<lambda>x. x \<noteq> c) impr) = filter (\<lambda>x. x \<noteq> c) impr"
    by (simp add: distinct_remdups_id)
  then have "mset (map (\<lambda>k. uqtypes ! (tyint ! k)) (sort (remdups (filter (\<lambda>x. x \<noteq> c) impr)))) =
             mset (map (\<lambda>k. uqtypes ! (tyint ! k)) (filter (\<lambda>x. x \<noteq> c) impr))"
    by (simp only: mset_map mset_sort)
  then show ?thesis
    unfolding types_of_def by (rule sort_mset_cong)
qed

lemma length_others:
  assumes "distinct impr" "length impr = 4" "c \<in> set impr"
  shows "length (filter (\<lambda>x. x \<noteq> c) impr) = 3"
proof -
  have "length (filter (\<lambda>x. x \<noteq> c) impr) = card (set impr - {c})"
    using assms(1) by (metis distinct_card distinct_filter set_minus_filter_out)
  also have "\<dots> = 3" using assms by (simp add: distinct_card)
  finally show ?thesis .
qed

lemma spec_perms_sound:
  "p \<in> set spec_perms \<Longrightarrow> mset p = mset [0, 1, 2, 3] \<and> p ! 2 = 2"
  unfolding spec_perms_def by auto

lemma spec_perms_complete:
  fixes p :: "nat list"
  assumes m: "mset p = mset [0, 1, 2, 3]" and c: "p ! 2 = 2"
  shows "p \<in> set spec_perms"
proof -
  from m have "length p = length [0, 1, 2, 3 :: nat]" by (rule mset_eq_length)
  then have "length p = Suc (Suc (Suc (Suc 0)))" by simp
  then obtain a b x e where p: "p = [a, b, x, e]"
    by (auto simp: length_Suc_conv)
  with c have x: "x = 2" by simp
  from m have "set p = set [0, 1, 2, 3 :: nat]" by (rule mset_eq_setD)
  then have s: "set p = {0, 1, 2, 3}" by simp
  have "distinct [0, 1, 2, 3 :: nat]" by simp
  then have d: "distinct p" by (simp only: mset_eq_imp_distinct_iff [OF m])
  have "a \<in> set p" "b \<in> set p" "e \<in> set p" by (simp_all add: p)
  then have i: "a \<in> {0, 1, 2, 3}" "b \<in> {0, 1, 2, 3}" "e \<in> {0, 1, 2, 3}"
    unfolding s .
  from d have n: "a \<noteq> b" "a \<noteq> 2" "a \<noteq> e" "b \<noteq> 2" "b \<noteq> e" "e \<noteq> 2"
    unfolding p x by auto
  from i(1) n(2) have a: "a = 0 \<or> a = 1 \<or> a = 3" by simp
  from i(2) n(4) have b: "b = 0 \<or> b = 1 \<or> b = 3" by simp
  from i(3) n(6) have e: "e = 0 \<or> e = 1 \<or> e = 3" by simp
  have "[a, b, 2, e] \<in> set spec_perms"
    using a b e n(1,3,5) unfolding spec_perms_def by (elim disjE) simp_all
  then show ?thesis unfolding p x .
qed

lemma spec_perms_all: "set spec_perms = {p. mset p = mset [0, 1, 2, 3] \<and> p ! 2 = 2}"
  using spec_perms_sound spec_perms_complete by blast

text \<open>
  Claim C6. The resolution of an improper quadruple in \<open>init\<close> is the resolution that the
  specification words: the scan over the orders of the positions that keep position 2,
  each with the exact lookup in the harmonic table, the exact lookup in the periodic
  table, the wildcard lookup in the harmonic table and the wildcard lookup in the periodic
  table, in that order; when no order resolves, the center is detected, the types of the
  three other atoms are sorted, the type of the center is put at position 2 and the scan
  is repeated; an error is raised when this fails too, or when no atom is a center. The
  six orders scanned are all the permutations of the positions that keep position 2. The
  quadruple holds four atoms of the molecule, all different, and the keys of both tables
  are tuples of four types.
\<close>

theorem improper_resolution:
  assumes "length impr = 4" "distinct impr" "list_all (\<lambda>k. k < length tyint) impr"
    and "list_all (\<lambda>k. length k = 4) (map fst (improper_types prm))"
    and "list_all (\<lambda>k. length k = 4) (map fst (improper_periodic_types prm))"
  shows "improper_resolve prm uqtypes tyint bonds impr =
           spec_resolve prm (\<lambda>k. uqtypes ! (tyint ! k)) bonds impr \<and>
         set spec_perms = {p. mset p = mset [0, 1, 2, 3] \<and> p ! 2 = 2}"
proof
  let ?ty = "\<lambda>k. uqtypes ! (tyint ! k)"
  have h: "\<forall>k\<in>set (map fst (improper_types prm)). length k = 4"
    using assms(4) by (simp only: list_all_iff)
  have p: "\<forall>k\<in>set (map fst (improper_periodic_types prm)). length k = 4"
    using assms(5) by (simp only: list_all_iff)
  note scan = getImproperParameter_eq [OF h p]
  have t: "types_of uqtypes tyint impr = map ?ty impr" by (simp add: types_of_def)
  have l: "length (map ?ty impr) = 4" using assms(1) by simp
  have first: "getImproperParameter (map ?ty impr) prm =
        (case spec_scan prm (map ?ty impr) of Some r \<Rightarrow> Inr r | None \<Rightarrow> Inl RuntimeError)"
    by (rule scan [OF l])
  show "improper_resolve prm uqtypes tyint bonds impr = spec_resolve prm ?ty bonds impr"
  proof (cases "spec_scan prm (map ?ty impr)")
    case (Some r)
    then show ?thesis
      unfolding improper_resolve_def spec_resolve_def Let_def t first
      using assms(3) by simp
  next
    case None
    show ?thesis
    proof (cases "find (spec_center bonds impr) impr")
      case n: None
      show ?thesis
        unfolding improper_resolve_def spec_resolve_def Let_def t first detectImproperCenter_eq
        using assms(3) by (simp add: None n)
    next
      case (Some c)
      then have c: "c \<in> set impr" by (auto simp: find_Some_iff)
      let ?others = "sort (map ?ty (filter (\<lambda>x. x \<noteq> c) impr))"
      let ?ty' = "take 2 ?others @ ?ty c # drop 2 ?others"
      have o: "sort (types_of uqtypes tyint (sort (remdups (filter (\<lambda>x. x \<noteq> c) impr)))) =
               ?others"
        by (rule sorted_other_types [OF assms(2)])
      have "length ?others = 3"
        using length_others [OF assms(2,1) c] by simp
      then have l': "length ?ty' = 4" by simp
      have second: "getImproperParameter ?ty' prm =
        (case spec_scan prm ?ty' of Some r \<Rightarrow> Inr r | None \<Rightarrow> Inl RuntimeError)"
        by (rule scan [OF l'])
      show ?thesis
        unfolding improper_resolve_def spec_resolve_def Let_def t first detectImproperCenter_eq
        using assms(3) by (simp add: None Some o second split: option.splits)
    qed
  qed
next
  show "set spec_perms = {p. mset p = mset [0, 1, 2, 3] \<and> p ! 2 = 2}"
    by (rule spec_perms_all)
qed

lemma ex_improper_tables:
  "improper_types ex_improper_prm =
     [([''X'', ''O'', ''C'', ''N''], \<lparr>psi_k = 10, psi_eq = 0\<rparr>)]"
  "improper_periodic_types ex_improper_prm = []"
  by (simp_all add: ex_improper_prm_def ex_prm_def)

lemma ex_improper_center:
  "spec_center [[0, 1], [0, 2], [0, 3]] [0, 1, 2, 3] 0"
proof -
  have "{x \<in> set [0, 1, 2, 3]. bonded [[0, 1], [0, 2], [0, 3]] 0 x} = {1, 2, 3 :: nat}"
    by (auto simp: bonded_def)
  then show ?thesis
    unfolding spec_center_def by simp
qed

lemma ex_improper_first_scan:
  "spec_scan ex_improper_prm [''C'', ''H'', ''N'', ''O''] = None"
  by (simp add: spec_scan_def spec_perms_def spec_attempt_def spec_wildcard_def matches_key_def
        ex_improper_tables)

lemma ex_improper_second_scan:
  "spec_scan ex_improper_prm [''H'', ''N'', ''C'', ''O''] =
     Some (From_improper_types \<lparr>psi_k = 10, psi_eq = 0\<rparr>)"
  by (simp add: spec_scan_def spec_perms_def spec_attempt_def spec_wildcard_def matches_key_def
        ex_improper_tables)

lemma ex_improper_sorted:
  "sort [''H'', ''N'', ''O''] = [''H'', ''N'', ''O'']"
  by simp

theorem improper_resolution_witness:
  "improper_resolve ex_improper_prm [''C'', ''H'', ''N'', ''O''] [0, 1, 2, 3]
     [[0, 1], [0, 2], [0, 3]] [0, 1, 2, 3] =
   Inr (From_improper_types \<lparr>psi_k = 10, psi_eq = 0\<rparr>)"
proof -
  have "spec_resolve ex_improper_prm (\<lambda>k. [''C'', ''H'', ''N'', ''O''] ! ([0, 1, 2, 3] ! k))
          [[0, 1], [0, 2], [0, 3]] [0, 1, 2, 3] =
        Inr (From_improper_types \<lparr>psi_k = 10, psi_eq = 0\<rparr>)"
    unfolding spec_resolve_def Let_def
    using ex_improper_center
    by (simp add: ex_improper_first_scan ex_improper_sorted ex_improper_second_scan)
  then show ?thesis
    using improper_resolution [of "[0, 1, 2, 3]" "[0, 1, 2, 3]" ex_improper_prm
        "[''C'', ''H'', ''N'', ''O'']" "[[0, 1], [0, 2], [0, 3]]"]
    by (simp add: ex_improper_tables)
qed

lemma alloc_simps [simp]:
  "fst (alloc items shp s) = \<lparr>buffer = length s, dims = shp\<rparr>"
  "snd (alloc items shp s) = s @ [items]"
  by (simp_all add: alloc_def)




lemma pair_update_shapes [simp]:
  "shape (energies (pair_update f i j pb pl pe c u st)) = shape (energies st)"
  "shape (forces (pair_update f i j pb pl pe c u st)) = shape (forces st)"
  "shape (atmnrg (pair_update f i j pb pl pe c u st)) = shape (atmnrg st)"
  by (simp_all add: pair_update_def)



















end
